theory Spec2Isabelle
  imports Main "HOL-Library.Word"
begin

section \<open>The shared-memory frame exchange of pjrmi.cpp\<close>

text \<open>
  The C++ file \<^verbatim>\<open>src/cpp/src/main/cpp/pjrmi.cpp\<close> writes an array into a file under
  \<^verbatim>\<open>/dev/shm\<close>, maps it back in another process and removes it. Its functions are
  sequences of POSIX system calls. The embedding below has two layers:
  \<^item> a state \<open>os\<close> of the operating system as far as the code can observe it (directory,
    file contents, descriptor table, memory mappings, free space, clock) with one HOL
    function per system call the code makes;
  \<^item> one HOL function per function of \<^verbatim>\<open>pjrmi.cpp\<close>, in the order of its statements,
    passing the state explicitly and returning it together with the value returned or
    the exception thrown.
\<close>

subsection \<open>Data\<close>

type_synonym byte = "8 word"

text \<open>\<^verbatim>\<open>enum class ArrayType : char\<close> of \<^verbatim>\<open>pjrmi.h\<close>, and the cast \<^verbatim>\<open>char(type)\<close>.\<close>

datatype ArrayType =
  TYPE_BOOLEAN | TYPE_BYTE | TYPE_SHORT | TYPE_INTEGER | TYPE_LONG | TYPE_FLOAT | TYPE_DOUBLE
  | UNKNOWN

fun char_of_type :: "ArrayType \<Rightarrow> byte" where
  "char_of_type TYPE_BOOLEAN = 122"
| "char_of_type TYPE_BYTE = 98"
| "char_of_type TYPE_SHORT = 115"
| "char_of_type TYPE_INTEGER = 105"
| "char_of_type TYPE_LONG = 106"
| "char_of_type TYPE_FLOAT = 102"
| "char_of_type TYPE_DOUBLE = 100"
| "char_of_type UNKNOWN = 0"

definition char_to_array_type :: "byte \<Rightarrow> ArrayType" where
  "char_to_array_type c =
     (if c = 122 then TYPE_BOOLEAN
      else if c = 98 then TYPE_BYTE
      else if c = 115 then TYPE_SHORT
      else if c = 105 then TYPE_INTEGER
      else if c = 106 then TYPE_LONG
      else if c = 102 then TYPE_FLOAT
      else if c = 100 then TYPE_DOUBLE
      else UNKNOWN)"

text \<open>
  \<^verbatim>\<open>static const char HEADER_BYTES[] = "SHMARRY"\<close>: seven letters and the terminating
  NUL, so \<^verbatim>\<open>sizeof(HEADER_BYTES)\<close> is 8; \<^verbatim>\<open>sizeof(ArrayType)\<close> is 1, the size of its
  underlying type \<^verbatim>\<open>char\<close>.
\<close>

definition HEADER_BYTES :: "byte list" where
  "HEADER_BYTES = [83, 72, 77, 65, 82, 82, 89, 0]"

definition sizeof_HEADER_BYTES :: nat where
  "sizeof_HEADER_BYTES = 8"

definition sizeof_ArrayType :: nat where
  "sizeof_ArrayType = 1"

text \<open>\<^verbatim>\<open>size_t\<close> is 64 bits wide: sums and products of sizes wrap at \<open>2 ^ 64\<close>.\<close>

definition size_t :: "nat \<Rightarrow> nat" where
  "size_t n = n mod 2 ^ 64"

text \<open>
  The three exception classes of \<^verbatim>\<open>pjrmi.h\<close>, each with a message that tells the
  throwing statements apart. Only the fixed part of a message is kept: the text that
  \<^verbatim>\<open>format_error\<close> appends for \<^verbatim>\<open>errno\<close> and the bytes the reader splices into its two
  mismatch messages are left out. For the type mismatch the literal itself is kept, as a
  name: the source adds a \<^verbatim>\<open>char\<close> to the address of that literal, so that the text it
  throws is whatever lies that many bytes behind it. No statement below depends on the
  text of the two mismatch messages.
\<close>

datatype pjrmi_exception =
  illegal_argument string
  | io string
  | out_of_memory string

text \<open>
  A call returns a value, throws, or is killed by a signal (an access to memory that is
  not mapped, or to a page of a mapping that lies wholly behind the end of its file).
\<close>

datatype 'a result = Return 'a | Throw pjrmi_exception | Killed

fun is_io :: "'a result \<Rightarrow> bool" where
  "is_io (Throw (io m)) = True"
| "is_io r = False"

subsection \<open>The operating system\<close>

text \<open>
  A system call that can fail does so when the environment decides: the state carries
  the list \<open>faults\<close> of what is going to happen to the coming fallible calls, one entry
  per call, and an exhausted list means that nothing goes wrong any more. \<open>Partial k\<close>
  makes a \<^verbatim>\<open>write\<close> stop after \<open>k\<close> bytes (at least one) and leaves every other call
  alone.
\<close>

datatype fault = NoFault | Fails | Partial nat

record os =
  dir :: "string \<rightharpoonup> nat"              \<comment> \<open>path to inode number\<close>
  inodes :: "nat \<Rightarrow> byte list"          \<comment> \<open>inode number to file contents\<close>
  fds :: "nat \<rightharpoonup> nat \<times> nat"             \<comment> \<open>descriptor to inode number and file offset\<close>
  mappings :: "nat \<Rightarrow> (nat \<times> nat) option"  \<comment> \<open>mapped address to inode number and file offset\<close>
  next_fd :: nat
  next_ino :: nat
  mmap_hint :: nat                       \<comment> \<open>where the kernel places the next mapping\<close>
  f_bsize :: nat
  f_bavail :: nat
  tv_sec :: int
  tv_usec :: int
  tid :: int
  rand_vals :: "int list"                \<comment> \<open>what the coming calls of rand() return\<close>
  faults :: "fault list"

definition next_fault :: "os \<Rightarrow> fault \<times> os" where
  "next_fault s = (case faults s of [] \<Rightarrow> (NoFault, s) | f # fs \<Rightarrow> (f, s\<lparr>faults := fs\<rparr>))"

definition file_contents :: "os \<Rightarrow> string \<Rightarrow> byte list option" where
  "file_contents s path = map_option (inodes s) (dir s path)"

definition page_size :: nat where
  "page_size = 4096"

definition page_round :: "nat \<Rightarrow> nat" where
  "page_round len = ((len + (page_size - 1)) div page_size) * page_size"

definition in_region :: "nat \<Rightarrow> nat \<Rightarrow> nat \<Rightarrow> bool" where
  "in_region base len a \<longleftrightarrow> base \<le> a \<and> a < base + page_round len"

definition region_free :: "os \<Rightarrow> nat \<Rightarrow> nat \<Rightarrow> bool" where
  "region_free s base len \<longleftrightarrow> (\<forall>a \<in> {base ..< base + page_round len}. mappings s a = None)"

subsubsection \<open>Clock, thread and random numbers\<close>

definition sys_gettimeofday :: "os \<Rightarrow> (int \<times> int) option \<times> os" where
  "sys_gettimeofday s =
     (let (f, s1) = next_fault s in
      if f = Fails then (None, s1) else (Some (tv_sec s1, tv_usec s1), s1))"

definition sys_rand :: "os \<Rightarrow> int \<times> os" where
  "sys_rand s = (case rand_vals s of [] \<Rightarrow> (0, s) | r # rs \<Rightarrow> (r, s\<lparr>rand_vals := rs\<rparr>))"

subsubsection \<open>Files\<close>

text \<open>
  \<^verbatim>\<open>open(file, O_RDWR | O_CREAT | O_TRUNC, 0600)\<close>: an existing file keeps its inode and
  loses its contents, a new one gets a fresh inode. The descriptor starts at offset 0.
\<close>

definition sys_open_creat :: "string \<Rightarrow> os \<Rightarrow> nat option \<times> os" where
  "sys_open_creat path s =
     (let (f, s1) = next_fault s in
      if f = Fails \<or> path = [] then (None, s1)
      else
        let ino = (case dir s1 path of Some i \<Rightarrow> i | None \<Rightarrow> next_ino s1);
            s2 = s1\<lparr>dir := (dir s1)(path \<mapsto> ino),
                    inodes := (inodes s1)(ino := []),
                    next_ino := (if dir s1 path = None then Suc (next_ino s1) else next_ino s1)\<rparr>;
            fd = next_fd s2
        in (Some fd, s2\<lparr>fds := (fds s2)(fd \<mapsto> (ino, 0)), next_fd := Suc fd\<rparr>))"

text \<open>\<^verbatim>\<open>open(file, O_RDWR)\<close>: the file has to exist.\<close>

definition sys_open :: "string \<Rightarrow> os \<Rightarrow> nat option \<times> os" where
  "sys_open path s =
     (let (f, s1) = next_fault s in
      case dir s1 path of
        None \<Rightarrow> (None, s1)
      | Some ino \<Rightarrow>
          if f = Fails then (None, s1)
          else (Some (next_fd s1),
                s1\<lparr>fds := (fds s1)(next_fd s1 \<mapsto> (ino, 0)), next_fd := Suc (next_fd s1)\<rparr>))"

definition sys_close :: "nat \<Rightarrow> os \<Rightarrow> os" where
  "sys_close fd s = s\<lparr>fds := (fds s)(fd := None)\<rparr>"

text \<open>
  \<^verbatim>\<open>unlink(file)\<close>, whose return value the code never reads; a \<^verbatim>\<open>NULL\<close> path names no
  file. \<^verbatim>\<open>const char*\<close> arguments are \<open>string option\<close>, \<open>None\<close> for \<^verbatim>\<open>NULL\<close>.
\<close>

definition sys_unlink :: "string option \<Rightarrow> os \<Rightarrow> os" where
  "sys_unlink file s = (case file of None \<Rightarrow> s | Some path \<Rightarrow> s\<lparr>dir := (dir s)(path := None)\<rparr>)"

text \<open>\<^verbatim>\<open>fstatvfs\<close> reports the block size and the number of free blocks.\<close>

definition sys_fstatvfs :: "nat \<Rightarrow> os \<Rightarrow> (nat \<times> nat) option \<times> os" where
  "sys_fstatvfs fd s =
     (let (f, s1) = next_fault s in
      if f = Fails \<or> fds s1 fd = None then (None, s1)
      else (Some (f_bsize s1, f_bavail s1), s1))"

text \<open>\<^verbatim>\<open>fstat\<close>, of which the code reads \<^verbatim>\<open>st_size\<close> only and never the return value.\<close>

definition st_size :: "os \<Rightarrow> nat \<Rightarrow> nat" where
  "st_size s fd = (case fds s fd of None \<Rightarrow> 0 | Some (ino, off) \<Rightarrow> length (inodes s ino))"

text \<open>
  Storing \<open>bs\<close> at offset \<open>off\<close> of a file: a gap between the end of the file and \<open>off\<close>
  reads as zero bytes.
\<close>

definition store_at :: "byte list \<Rightarrow> nat \<Rightarrow> byte list \<Rightarrow> byte list" where
  "store_at c off bs = take off c @ replicate (off - length c) 0 @ bs @ drop (off + length bs) c"

text \<open>
  \<^verbatim>\<open>write(fd, buf, count)\<close> returns \<open>-1\<close> and writes nothing, or writes a non-empty prefix
  of the buffer at the descriptor's offset, advances the offset and returns the length
  of the prefix.
\<close>

definition sys_write :: "nat \<Rightarrow> byte list \<Rightarrow> os \<Rightarrow> int \<times> os" where
  "sys_write fd bs s =
     (case fds s fd of
        None \<Rightarrow> (- 1, s)
      | Some (ino, off) \<Rightarrow>
          if bs = [] then (0, s)
          else
            let (f, s1) = next_fault s in
            if f = Fails then (- 1, s1)
            else
              let k = (case f of Partial m \<Rightarrow> min (length bs) (max 1 m) | _ \<Rightarrow> length bs)
              in (int k,
                  s1\<lparr>inodes := (inodes s1)(ino := store_at (inodes s1 ino) off (take k bs)),
                     fds := (fds s1)(fd \<mapsto> (ino, off + k))\<rparr>))"

text \<open>\<^verbatim>\<open>lseek(fd, offset, SEEK_SET)\<close>; the offset is an \<^verbatim>\<open>off_t\<close>, a signed 64-bit number.\<close>

definition sys_lseek :: "nat \<Rightarrow> nat \<Rightarrow> os \<Rightarrow> int \<times> os" where
  "sys_lseek fd off s =
     (let (f, s1) = next_fault s in
      case fds s1 fd of
        None \<Rightarrow> (- 1, s1)
      | Some (ino, old) \<Rightarrow>
          if f = Fails \<or> 2 ^ 63 \<le> off then (- 1, s1)
          else (int off, s1\<lparr>fds := (fds s1)(fd \<mapsto> (ino, off))\<rparr>))"

subsubsection \<open>Memory\<close>

text \<open>
  \<^verbatim>\<open>mmap(NULL, len, prot, MAP_SHARED, fd, 0)\<close> maps whole pages of the file at an address
  of the kernel's choice, which is \<open>mmap_hint\<close>: page aligned, not \<^verbatim>\<open>NULL\<close>, inside the
  address space and free. The mapping outlives the descriptor and the directory entry.
\<close>

definition sys_mmap :: "nat \<Rightarrow> nat \<Rightarrow> os \<Rightarrow> nat option \<times> os" where
  "sys_mmap len fd s =
     (let (f, s1) = next_fault s; base = mmap_hint s1 in
      case fds s1 fd of
        None \<Rightarrow> (None, s1)
      | Some (ino, off) \<Rightarrow>
          if f = Fails \<or> len = 0 \<or> base = 0 \<or> base mod page_size \<noteq> 0
             \<or> 2 ^ 64 < base + page_round len \<or> \<not> region_free s1 base len
          then (None, s1)
          else (Some base,
                s1\<lparr>mappings := (\<lambda>a. if in_region base len a then Some (ino, a - base)
                                     else mappings s1 a),
                   mmap_hint := base + page_round len\<rparr>))"

text \<open>\<^verbatim>\<open>munmap(addr, len)\<close> removes every page in the range; \<open>True\<close> stands for 0.\<close>

definition sys_munmap :: "nat \<Rightarrow> nat \<Rightarrow> os \<Rightarrow> bool \<times> os" where
  "sys_munmap addr len s =
     (let (f, s1) = next_fault s in
      if f = Fails \<or> len = 0 \<or> addr mod page_size \<noteq> 0 then (False, s1)
      else (True, s1\<lparr>mappings := (\<lambda>a. if in_region addr len a then None else mappings s1 a)\<rparr>))"

text \<open>\<^verbatim>\<open>malloc\<close>: \<open>False\<close> stands for \<^verbatim>\<open>NULL\<close>.\<close>

definition sys_malloc :: "nat \<Rightarrow> os \<Rightarrow> bool \<times> os" where
  "sys_malloc n s = (let (f, s1) = next_fault s in (f \<noteq> Fails, s1))"

text \<open>
  Access to a byte of a shared mapping goes to the file. Behind the end of the file the
  rest of its last page reads as zero and swallows stores; a page further on raises
  \<^verbatim>\<open>SIGBUS\<close>, an address outside every mapping \<^verbatim>\<open>SIGSEGV\<close>.
\<close>

definition same_page_as_end :: "byte list \<Rightarrow> nat \<Rightarrow> bool" where
  "same_page_as_end c off \<longleftrightarrow> c \<noteq> [] \<and> off div page_size \<le> (length c - 1) div page_size"

definition mem_load :: "os \<Rightarrow> nat \<Rightarrow> byte option" where
  "mem_load s a =
     (case mappings s a of
        None \<Rightarrow> None
      | Some (ino, off) \<Rightarrow>
          if off < length (inodes s ino) then Some (inodes s ino ! off)
          else if same_page_as_end (inodes s ino) off then Some 0
          else None)"

definition mem_store :: "os \<Rightarrow> nat \<Rightarrow> byte \<Rightarrow> os option" where
  "mem_store s a b =
     (case mappings s a of
        None \<Rightarrow> None
      | Some (ino, off) \<Rightarrow>
          if off < length (inodes s ino)
          then Some (s\<lparr>inodes := (inodes s)(ino := (inodes s ino)[off := b])\<rparr>)
          else if same_page_as_end (inodes s ino) off then Some s
          else None)"

text \<open>Reading \<open>n\<close> bytes from address \<open>a\<close> on, as \<^verbatim>\<open>memcpy\<close> and \<^verbatim>\<open>strncmp\<close> do.\<close>

definition mem_read :: "os \<Rightarrow> nat \<Rightarrow> nat \<Rightarrow> byte list option" where
  "mem_read s a n = those (map (mem_load s) [a ..< a + n])"

fun mem_write :: "os \<Rightarrow> nat \<Rightarrow> byte list \<Rightarrow> os option" where
  "mem_write s a [] = Some s"
| "mem_write s a (b # bs) =
     (case mem_store s a b of None \<Rightarrow> None | Some s1 \<Rightarrow> mem_write s1 (Suc a) bs)"

text \<open>Pointers are 64 bits wide.\<close>

definition ptr_add :: "nat \<Rightarrow> nat \<Rightarrow> nat" where
  "ptr_add p k = (p + k) mod 2 ^ 64"

definition ptr_sub :: "nat \<Rightarrow> nat \<Rightarrow> nat" where
  "ptr_sub p k = (p + (2 ^ 64 - k mod 2 ^ 64)) mod 2 ^ 64"

subsection \<open>\<^verbatim>\<open>create_filename\<close>\<close>

text \<open>\<^verbatim>\<open>std::to_string\<close> on a signed integer: decimal digits, a minus sign if negative.\<close>

definition digit_char :: "nat \<Rightarrow> char" where
  "digit_char d = ''0123456789'' ! d"

fun dec :: "nat \<Rightarrow> string" where
  "dec n = (if n < 10 then [digit_char n] else dec (n div 10) @ [digit_char (n mod 10)])"

declare dec.simps [simp del]

definition to_string :: "int \<Rightarrow> string" where
  "to_string i = (if i < 0 then CHR ''-'' # dec (nat (- i)) else dec (nat i))"

text \<open>
  The time is kept in a \<^verbatim>\<open>long\<close>, 64 bits wide and signed. The compiled arithmetic on
  it wraps around: \<open>long x\<close> is the value that a \<^verbatim>\<open>long\<close> holds for the integer \<open>x\<close>.
\<close>

definition long :: "int \<Rightarrow> int" where
  "long x = (x + 2 ^ 63) mod 2 ^ 64 - 2 ^ 63"

definition create_filename :: "os \<Rightarrow> string result \<times> os" where
  "create_filename s =
     (case sys_gettimeofday s of
        (None, s1) \<Rightarrow>
          (Throw (illegal_argument ''create_filename(): Error in ::gettimeofday()''), s1)
      | (Some (sec, usec), s1) \<Rightarrow>
          let time = long sec;
              time = long (time * 1000000);
              time = long (time + usec);
              tid = tid s1;
              filename = ''/dev/shm/'';
              filename = filename @ (to_string time @ [CHR ''.''] @ to_string tid);
              (r, s2) = sys_rand s1;
              filename = filename @ (CHR ''.'' # to_string r)
          in (Return filename, s2))"

subsection \<open>\<^verbatim>\<open>open_file_for_write\<close>\<close>

definition open_file_for_write :: "string option \<Rightarrow> nat \<Rightarrow> os \<Rightarrow> nat result \<times> os" where
  "open_file_for_write file bytes_to_write s =
     (case file of
        None \<Rightarrow> (Killed, s) \<comment> \<open>\<^verbatim>\<open>strcmp\<close> reads through \<^verbatim>\<open>NULL\<close>\<close>
      | Some path \<Rightarrow>
          if path = []
          then (Throw (illegal_argument ''open_file_for_write(): Empty filename received''), s)
          else
            (case sys_open_creat path s of
               (None, s1) \<Rightarrow>
                 (Throw (io ''open_file_for_write(): Could not open file for writing''), s1)
             | (Some fd, s1) \<Rightarrow>
                 (case sys_fstatvfs fd s1 of
                    (None, s2) \<Rightarrow>
                      (Throw (io ''open_file_for_write(): Could not check file with fstatvfs()''),
                       sys_unlink file (sys_close fd s2))
                  | (Some (bsize, bavail), s2) \<Rightarrow>
                      if size_t (size_t bsize * size_t bavail) < bytes_to_write
                      then (Throw (out_of_memory
                                     ''open_file_for_write(): Insufficient available space in file''),
                            sys_unlink file (sys_close fd s2))
                      else (Return fd, s2))))"

subsection \<open>\<^verbatim>\<open>write_bytes_to_shm\<close>, from a buffer\<close>

lemma sys_write_progress:
  assumes "sys_write fd bs s = (w, s1)" and "bs \<noteq> []" and "\<not> w < 0"
  shows "0 < w" and "nat w \<le> length bs"
  using assms
  by (auto simp: sys_write_def Let_def split: option.splits prod.splits if_splits fault.splits)

text \<open>
  The loop \<^verbatim>\<open>while (position < array_bytes)\<close>, which writes what is left of the buffer
  until all of it is written or a \<^verbatim>\<open>write\<close> fails.
\<close>

function write_loop :: "nat \<Rightarrow> byte list \<Rightarrow> nat \<Rightarrow> os \<Rightarrow> os" where
  "write_loop fd data position s =
     (if position < length data
      then
        (let r = sys_write fd (drop position data) s; written = fst r in
         if written < 0 then snd r
         else write_loop fd data (position + nat written) (snd r))
      else s)"
  by pat_completeness auto
termination
proof (relation "measure (\<lambda>(fd, data, position, s). length data - position)")
  show "wf (measure (\<lambda>(fd, data, position, s). length data - position))"
    by simp
next
  fix fd :: nat and data :: "byte list" and position :: nat and s :: os and r written
  assume pos: "position < length data"
    and r: "r = sys_write fd (drop position data) s"
    and w: "written = fst r" and nonneg: "\<not> written < 0"
  have "sys_write fd (drop position data) s = (written, snd r)"
    using r w by simp
  moreover have "drop position data \<noteq> []"
    using pos by simp
  ultimately have "0 < written"
    using nonneg by (rule sys_write_progress)
  then show "((fd, data, position + nat written, snd r), (fd, data, position, s))
      \<in> measure (\<lambda>(fd, data, position, s). length data - position)"
    using pos by simp
qed

declare write_loop.simps [simp del]

text \<open>
  The buffer \<^verbatim>\<open>data\<close> and its length \<^verbatim>\<open>array_bytes\<close> are one byte list. The handlers
  around \<^verbatim>\<open>create_filename\<close> and \<^verbatim>\<open>open_file_for_write\<close> throw again what they catch.
\<close>

definition write_bytes_to_shm :: "byte list \<Rightarrow> ArrayType \<Rightarrow> os \<Rightarrow> string result \<times> os" where
  "write_bytes_to_shm data type s =
     (case create_filename s of
        (Throw e, s1) \<Rightarrow> (Throw e, s1)
      | (Killed, s1) \<Rightarrow> (Killed, s1)
      | (Return generated_filename, s1) \<Rightarrow>
          let file = Some generated_filename;
              array_bytes = length data;
              bytes_to_write = size_t (array_bytes + sizeof_HEADER_BYTES + sizeof_ArrayType)
          in
          (case open_file_for_write file bytes_to_write s1 of
             (Throw e, s2) \<Rightarrow> (Throw e, s2)
           | (Killed, s2) \<Rightarrow> (Killed, s2)
           | (Return fd, s2) \<Rightarrow>
               let s3 = snd (sys_write fd HEADER_BYTES s2);
                   casted_type = char_of_type type;
                   s4 = snd (sys_write fd [casted_type] s3);
                   s5 = write_loop fd data 0 s4
               in
               if size_t (st_size s5 fd) \<noteq> bytes_to_write
               then (Throw (io ''write_bytes_to_shm(): Allocated file size incorrect''),
                     sys_unlink file (sys_close fd s5))
               else (Return generated_filename, sys_close fd s5)))"

subsection \<open>\<^verbatim>\<open>write_bytes_to_shm\<close>, through a callback\<close>

text \<open>
  The callback \<^verbatim>\<open>std::function<void(void*)>\<close> stores bytes at the address it is given:
  it is the function from that address to the bytes it stores there. The callback
  returns: one that throws is not modelled.
\<close>

definition write_bytes_to_shm_lambda ::
  "(nat \<Rightarrow> byte list) \<Rightarrow> nat \<Rightarrow> ArrayType \<Rightarrow> os \<Rightarrow> string result \<times> os" where
  "write_bytes_to_shm_lambda lambda array_bytes type s =
     (case create_filename s of
        (Throw e, s1) \<Rightarrow> (Throw e, s1)
      | (Killed, s1) \<Rightarrow> (Killed, s1)
      | (Return generated_filename, s1) \<Rightarrow>
          let file = Some generated_filename;
              bytes_to_write = size_t (array_bytes + sizeof_HEADER_BYTES + sizeof_ArrayType)
          in
          (case open_file_for_write file bytes_to_write s1 of
             (Throw e, s2) \<Rightarrow> (Throw e, s2)
           | (Killed, s2) \<Rightarrow> (Killed, s2)
           | (Return fd, s2) \<Rightarrow>
               (case sys_lseek fd bytes_to_write s2 of (sought, s3) \<Rightarrow>
                if sought = - 1
                then (Throw (io ''write_bytes_to_shm(): Could not stretch file with lseek()''),
                      sys_unlink file (sys_close fd s3))
                else
                  (case sys_write fd [0] s3 of (written, s4) \<Rightarrow>
                   if written \<noteq> 1
                   then (Throw (io ''write_bytes_to_shm(): Could not write empty char''),
                         sys_unlink file (sys_close fd s4))
                   else if size_t (st_size s4 fd) \<noteq> size_t (bytes_to_write + 1)
                   then (Throw (io ''write_bytes_to_shm(): Allocated file size incorrect''),
                         sys_unlink file (sys_close fd s4))
                   else
                     (case sys_mmap bytes_to_write fd s4 of
                        (None, s5) \<Rightarrow>
                          (Throw (io ''write_bytes_to_shm(): Error in mmaping the file''),
                           sys_unlink file (sys_close fd s5))
                      | (Some addr, s5) \<Rightarrow>
                          let file_addr = addr;
                              s6 = sys_close fd s5
                          in
                          (case mem_write s6 file_addr HEADER_BYTES of
                             None \<Rightarrow> (Killed, s6)
                           | Some s7 \<Rightarrow>
                               let file_addr = ptr_add file_addr sizeof_HEADER_BYTES;
                                   char_type = char_of_type type
                               in
                               (case mem_write s7 file_addr [char_type] of
                                  None \<Rightarrow> (Killed, s7)
                                | Some s8 \<Rightarrow>
                                    let file_addr = ptr_add file_addr 1 in
                                    (case mem_write s8 file_addr (lambda file_addr) of
                                       None \<Rightarrow> (Killed, s8)
                                     | Some s9 \<Rightarrow>
                                         (case sys_munmap addr bytes_to_write s9 of
                                            (False, s10) \<Rightarrow>
                                              (Throw (io ''write_bytes_to_shm(): Error in munmaping the file''),
                                               sys_unlink file s10)
                                          | (True, s10) \<Rightarrow>
                                              (Return generated_filename, s10))))))))))"

subsection \<open>\<^verbatim>\<open>mmap_bytes_from_shm\<close>\<close>

text \<open>
  \<^verbatim>\<open>strncmp\<close>: the first difference decides, and a NUL in both strings ends the
  comparison early.
\<close>

fun strncmp :: "byte list \<Rightarrow> byte list \<Rightarrow> nat \<Rightarrow> int" where
  "strncmp (x # xs) (y # ys) n =
     (if n = 0 then 0
      else if x \<noteq> y then int (unat x) - int (unat y)
      else if x = 0 then 0
      else strncmp xs ys (n - 1))"
| "strncmp xs ys n = 0"

definition mmap_bytes_from_shm ::
  "string option \<Rightarrow> nat \<Rightarrow> ArrayType \<Rightarrow> os \<Rightarrow> nat result \<times> os" where
  "mmap_bytes_from_shm file array_bytes type s =
     (if file = None \<or> file = Some []
      then (Throw (io ''mmap_bytes_from_shm(): Empty filename received''), s)
      else
        let bytes_to_read = size_t (array_bytes + sizeof_HEADER_BYTES + sizeof_ArrayType) in
        (case sys_open (the file) s of
           (None, s1) \<Rightarrow>
             (Throw (io ''mmap_bytes_from_shm(): Could not open file for reading''), s1)
         | (Some fd, s1) \<Rightarrow>
             if size_t (st_size s1 fd) < sizeof_HEADER_BYTES + 1
             then (Throw (io ''mmap_bytes_from_shm(): File size is insufficient for reading''),
                   sys_close fd s1)
             else
               (case sys_mmap bytes_to_read fd s1 of
                  (None, s2) \<Rightarrow>
                    (Throw (io ''mmap_bytes_from_shm(): Error in mmaping the file''),
                     sys_unlink file (sys_close fd s2))
                | (Some addr, s2) \<Rightarrow>
                    let s3 = sys_close fd s2 in
                    (case mem_read s3 addr sizeof_HEADER_BYTES of
                       None \<Rightarrow> (Killed, s3)
                     | Some magic \<Rightarrow>
                         if strncmp magic HEADER_BYTES sizeof_HEADER_BYTES \<noteq> 0
                         then (Throw (io ''mmap_bytes_from_shm(): The magic bytes in this file: ''),
                               sys_unlink file s3)
                         else
                           let addr = ptr_add addr sizeof_HEADER_BYTES in
                           (case mem_load s3 addr of
                              None \<Rightarrow> (Killed, s3)
                            | Some file_array_type \<Rightarrow>
                                if file_array_type \<noteq> char_of_type type
                                then (Throw (io ''mmap_bytes_from_shm(): The read type is: ''),
                                      sys_unlink file s3)
                                else
                                  let addr = ptr_add addr 1 in
                                  (Return addr, s3))))))"

subsection \<open>\<^verbatim>\<open>munmap_bytes_from_shm\<close>\<close>

definition munmap_bytes_from_shm ::
  "string option \<Rightarrow> nat \<Rightarrow> ArrayType \<Rightarrow> nat \<Rightarrow> os \<Rightarrow> unit result \<times> os" where
  "munmap_bytes_from_shm file array_bytes type addr s =
     (let file_addr = addr;
          file_addr = ptr_sub file_addr (sizeof_HEADER_BYTES + sizeof_ArrayType);
          file_bytes = size_t (array_bytes + sizeof_HEADER_BYTES + sizeof_ArrayType)
      in
      (case sys_munmap file_addr file_bytes s of
         (False, s1) \<Rightarrow>
           (Throw (io ''munmap_bytes_from_shm(): Error in munmaping the file''),
            sys_unlink file s1)
       | (True, s1) \<Rightarrow> (Return (), sys_unlink file s1)))"

subsection \<open>\<^verbatim>\<open>read_bytes_from_shm\<close>\<close>

text \<open>The buffer that \<^verbatim>\<open>malloc\<close> gives and \<^verbatim>\<open>memcpy\<close> fills is returned as its bytes.\<close>

definition read_bytes_from_shm ::
  "string option \<Rightarrow> nat \<Rightarrow> ArrayType \<Rightarrow> os \<Rightarrow> byte list result \<times> os" where
  "read_bytes_from_shm file array_bytes type s =
     (case mmap_bytes_from_shm file array_bytes type s of
        (Throw e, s1) \<Rightarrow> (Throw e, s1)
      | (Killed, s1) \<Rightarrow> (Killed, s1)
      | (Return addr, s1) \<Rightarrow>
          (case sys_malloc array_bytes s1 of
             (False, s2) \<Rightarrow>
               (Throw (io ''read_bytes_from_shm(): malloc() failed''), sys_unlink file s2)
           | (True, s2) \<Rightarrow>
               (case mem_read s2 addr array_bytes of
                  None \<Rightarrow> (Killed, s2)
                | Some data \<Rightarrow>
                    (case munmap_bytes_from_shm file array_bytes type addr s2 of
                       (Throw e, s3) \<Rightarrow> (Throw e, s3)
                     | (Killed, s3) \<Rightarrow> (Killed, s3)
                     | (Return u, s3) \<Rightarrow> (Return data, s3)))))"

subsection \<open>The handle as the specification words it\<close>

text \<open>
  The algorithm of the handle allocator in the words of the specification:
  \<open>base_dir + microsecond_timestamp + '.' + thread_id + '.' + random_value\<close>.
\<close>

definition spec_filename :: "string \<Rightarrow> int \<Rightarrow> int \<Rightarrow> int \<Rightarrow> string" where
  "spec_filename base_dir microsecond_timestamp thread_id random_value =
     base_dir @ to_string microsecond_timestamp @ ''.'' @ to_string thread_id @ ''.''
       @ to_string random_value"

subsection \<open>Notions used in the statements\<close>

text \<open>
  The length of a frame with \<open>n\<close> payload bytes, as the three functions compute it in
  \<^verbatim>\<open>size_t\<close>: \<^verbatim>\<open>array_bytes + sizeof(HEADER_BYTES) + sizeof(ArrayType)\<close>.
\<close>

definition frame_size :: "nat \<Rightarrow> nat" where
  "frame_size n = size_t (n + sizeof_HEADER_BYTES + sizeof_ArrayType)"

text \<open>The kernel has a place for a new mapping of \<open>len\<close> bytes.\<close>

definition can_map :: "os \<Rightarrow> nat \<Rightarrow> bool" where
  "can_map s len \<longleftrightarrow>
     0 < len \<and> mmap_hint s \<noteq> 0 \<and> mmap_hint s mod page_size = 0
     \<and> mmap_hint s + page_round len \<le> 2 ^ 64 \<and> region_free s (mmap_hint s) len"

subsection \<open>A concrete machine\<close>

text \<open>
  An idle machine: no file, no descriptor, no mapping, 1000 free blocks of 4096 bytes,
  the clock at 1.000005 seconds, thread 7, the next random number 42, and no failure
  ahead.
\<close>

definition os0 :: os where
  "os0 = \<lparr>dir = Map.empty, inodes = (\<lambda>_. []), fds = Map.empty, mappings = (\<lambda>_. None),
          next_fd = 3, next_ino = 1, mmap_hint = 4096, f_bsize = 4096, f_bavail = 1000,
          tv_sec = 1, tv_usec = 5, tid = 7, rand_vals = [42], faults = []\<rparr>"

text \<open>
  The same machine with one file, \<^verbatim>\<open>/dev/shm/h\<close>, of the given bytes; and the frame of
  the boolean array \<open>{true, false, false, true, false}\<close>.
\<close>

definition os_file :: "byte list \<Rightarrow> os" where
  "os_file bytes =
     os0\<lparr>dir := [''/dev/shm/h'' \<mapsto> 1], inodes := (\<lambda>i. if i = 1 then bytes else []),
         next_ino := 2\<rparr>"

definition boolean_frame :: "byte list" where
  "boolean_frame = HEADER_BYTES @ [char_of_type TYPE_BOOLEAN, 1, 0, 0, 1, 0]"

section \<open>Properties\<close>

subsection \<open>System calls\<close>

lemma next_fault_fields [simp]:
  "dir (snd (next_fault s)) = dir s"
  "inodes (snd (next_fault s)) = inodes s"
  "fds (snd (next_fault s)) = fds s"
  "mappings (snd (next_fault s)) = mappings s"
  "next_fd (snd (next_fault s)) = next_fd s"
  "next_ino (snd (next_fault s)) = next_ino s"
  "mmap_hint (snd (next_fault s)) = mmap_hint s"
  "f_bsize (snd (next_fault s)) = f_bsize s"
  "f_bavail (snd (next_fault s)) = f_bavail s"
  "tv_sec (snd (next_fault s)) = tv_sec s"
  "tv_usec (snd (next_fault s)) = tv_usec s"
  "tid (snd (next_fault s)) = tid s"
  "rand_vals (snd (next_fault s)) = rand_vals s"
  by (simp_all add: next_fault_def split: list.splits)

subsection \<open>The handle allocator\<close>

lemma long_mod: "long x mod 2 ^ 64 = x mod 2 ^ 64"
  unfolding long_def by (simp add: mod_simps)

lemma long_mult: "long (long x * k) = long (x * k)"
proof -
  from long_mod [of x] have "(long x * k) mod 2 ^ 64 = (x * k) mod 2 ^ 64"
    by (metis mod_mult_left_eq)
  then have "(long x * k + 2 ^ 63) mod 2 ^ 64 = (x * k + 2 ^ 63) mod 2 ^ 64"
    by (metis mod_add_left_eq)
  then show ?thesis by (simp add: long_def)
qed

lemma long_add: "long (long x + k) = long (x + k)"
proof -
  from long_mod [of x]
  have "(long x + (k + 2 ^ 63)) mod 2 ^ 64 = (x + (k + 2 ^ 63)) mod 2 ^ 64"
    by (metis mod_add_left_eq)
  then show ?thesis by (simp add: long_def add.assoc)
qed

lemma long_long: "long (long x) = long x"
  using long_add [of x 0] by simp

lemma long_id: "- (2 ^ 63) \<le> x \<Longrightarrow> x < 2 ^ 63 \<Longrightarrow> long x = x"
  by (simp add: long_def)

lemma create_filename_time:
  "long (long (long sec * 1000000) + usec) = long (sec * 1000000 + usec)"
  by (simp add: long_long long_mult long_add)

text \<open>
  C9. \<^verbatim>\<open>create_filename\<close> returns the concatenation of the directory \<^verbatim>\<open>/dev/shm/\<close>, the
  time in microseconds as its \<^verbatim>\<open>long\<close> holds it, a dot, the thread id, a dot and the
  random number; it fails in one way only, with \<open>illegal_argument\<close>, and does so exactly
  when \<^verbatim>\<open>gettimeofday\<close> fails. Whenever the seconds times 1000000 plus the microseconds
  fit a \<^verbatim>\<open>long\<close>, as they do for every clock before the year 294247, the time in the name
  is that number, and the name is the handle of the specification.
\<close>

theorem create_filename_spec:
  "fst (create_filename s) =
     (if fst (sys_gettimeofday s) = None
      then Throw (illegal_argument ''create_filename(): Error in ::gettimeofday()'')
      else Return (spec_filename ''/dev/shm/'' (long (tv_sec s * 1000000 + tv_usec s)) (tid s)
                     (fst (sys_rand s))))
   \<and> (- (2 ^ 63) \<le> tv_sec s * 1000000 + tv_usec s \<and> tv_sec s * 1000000 + tv_usec s < 2 ^ 63
      \<longrightarrow> fst (create_filename s) =
         (if fst (sys_gettimeofday s) = None
          then Throw (illegal_argument ''create_filename(): Error in ::gettimeofday()'')
          else Return (spec_filename ''/dev/shm/'' (tv_sec s * 1000000 + tv_usec s) (tid s)
                         (fst (sys_rand s)))))"
proof -
  have 1: "fst (create_filename s) =
     (if fst (sys_gettimeofday s) = None
      then Throw (illegal_argument ''create_filename(): Error in ::gettimeofday()'')
      else Return (spec_filename ''/dev/shm/'' (long (tv_sec s * 1000000 + tv_usec s)) (tid s)
                     (fst (sys_rand s))))"
    by (simp add: create_filename_def create_filename_time sys_gettimeofday_def sys_rand_def
        spec_filename_def Let_def split_beta split: list.splits option.splits)
  have 2: "long (tv_sec s * 1000000 + tv_usec s) = tv_sec s * 1000000 + tv_usec s"
    if "- (2 ^ 63) \<le> tv_sec s * 1000000 + tv_usec s \<and> tv_sec s * 1000000 + tv_usec s < 2 ^ 63"
    using that by (intro long_id) simp_all
  from 1 2 show ?thesis by simp
qed

text \<open>
  On the idle machine, with a clock that fails, and with a clock so far ahead that the
  microseconds no longer fit.
\<close>

theorem create_filename_spec_witness:
  "fst (create_filename os0) = Return ''/dev/shm/1000005.7.42''
   \<and> fst (create_filename (os0\<lparr>faults := [Fails]\<rparr>))
       = Throw (illegal_argument ''create_filename(): Error in ::gettimeofday()'')
   \<and> fst (create_filename (os0\<lparr>tv_sec := 9223372036855, tv_usec := 0\<rparr>))
       = Return ''/dev/shm/-9223372036854551616.7.42''"
proof -
  note eval = os0_def sys_gettimeofday_def sys_rand_def spec_filename_def next_fault_def
    to_string_def dec.simps digit_char_def
  from create_filename_spec [of os0, THEN conjunct2]
  have 1: "fst (create_filename os0) = Return ''/dev/shm/1000005.7.42''"
    by (simp add: eval)
  from create_filename_spec [of "os0\<lparr>faults := [Fails]\<rparr>", THEN conjunct2]
  have 2: "fst (create_filename (os0\<lparr>faults := [Fails]\<rparr>))
      = Throw (illegal_argument ''create_filename(): Error in ::gettimeofday()'')"
    by (simp add: eval)
  from create_filename_spec [of "os0\<lparr>tv_sec := 9223372036855, tv_usec := 0\<rparr>", THEN conjunct1]
  have 3: "fst (create_filename (os0\<lparr>tv_sec := 9223372036855, tv_usec := 0\<rparr>))
      = Return ''/dev/shm/-9223372036854551616.7.42''"
    by (simp add: eval long_def)
  from 1 2 3 show ?thesis by (intro conjI)
qed

subsection \<open>Empty and missing handles\<close>

lemma next_fault_faults [simp]: "faults (snd (next_fault s)) = tl (faults s)"
  by (simp add: next_fault_def split: list.splits)

lemma next_fault_no_faults: "faults s = [] \<Longrightarrow> next_fault s = (NoFault, s)"
  by (simp add: next_fault_def)

lemma size_t_le: "size_t n \<le> n"
  by (simp add: size_t_def)

lemma size_t_id: "n < 2 ^ 64 \<Longrightarrow> size_t n = n"
  by (simp add: size_t_def)

lemma create_filename_Return_nonempty: "create_filename s = (Return f, s1) \<Longrightarrow> f \<noteq> []"
  by (auto simp: create_filename_def Let_def split_beta split: option.splits prod.splits)

lemma create_filename_Throw:
  "create_filename s = (Throw e, s1)
   \<Longrightarrow> e = illegal_argument ''create_filename(): Error in ::gettimeofday()''"
  by (auto simp: create_filename_def Let_def split_beta split: option.splits prod.splits)

lemma open_file_for_write_illegal_argument:
  "open_file_for_write (Some path) n s = (Throw (illegal_argument m), s1) \<Longrightarrow> path = []"
  by (auto simp: open_file_for_write_def split: option.splits prod.splits if_splits)

lemma write_bytes_to_shm_illegal_argument:
  assumes "write_bytes_to_shm data t s = (Throw (illegal_argument m), s1)"
  shows "m = ''create_filename(): Error in ::gettimeofday()''"
proof (cases "create_filename s")
  case (Pair r s0)
  show ?thesis
  proof (cases r)
    case (Return f)
    with Pair have "f \<noteq> []" by (simp add: create_filename_Return_nonempty)
    with assms Pair Return show ?thesis
      by (auto simp: write_bytes_to_shm_def Let_def
          split: prod.splits result.splits if_splits
          dest: open_file_for_write_illegal_argument)
  next
    case (Throw e)
    with assms Pair create_filename_Throw [of s e s0] show ?thesis
      by (simp add: write_bytes_to_shm_def)
  next
    case Killed
    with assms Pair show ?thesis by (simp add: write_bytes_to_shm_def)
  qed
qed

lemma write_bytes_to_shm_lambda_illegal_argument:
  assumes "write_bytes_to_shm_lambda lam n t s = (Throw (illegal_argument m), s1)"
  shows "m = ''create_filename(): Error in ::gettimeofday()''"
proof (cases "create_filename s")
  case (Pair r s0)
  show ?thesis
  proof (cases r)
    case (Return f)
    with Pair have "f \<noteq> []" by (simp add: create_filename_Return_nonempty)
    with assms Pair Return show ?thesis
      by (auto simp: write_bytes_to_shm_lambda_def Let_def
          split: prod.splits result.splits if_splits option.splits bool.splits
          dest: open_file_for_write_illegal_argument)
  next
    case (Throw e)
    with assms Pair create_filename_Throw [of s e s0] show ?thesis
      by (simp add: write_bytes_to_shm_lambda_def)
  next
    case Killed
    with assms Pair show ?thesis by (simp add: write_bytes_to_shm_lambda_def)
  qed
qed

text \<open>
  C7, amended. An empty file name makes \<^verbatim>\<open>open_file_for_write\<close> throw
  \<open>illegal_argument\<close>; an empty or \<^verbatim>\<open>NULL\<close> file name makes \<^verbatim>\<open>mmap_bytes_from_shm\<close> and
  \<^verbatim>\<open>read_bytes_from_shm\<close> throw \<open>io\<close>, with nothing changed. The two writers never meet
  the empty-name check, their generated name being non-empty: an \<open>illegal_argument\<close> of
  theirs is the clock error of \<^verbatim>\<open>create_filename\<close>.
\<close>

theorem empty_handle_exceptions:
  "open_file_for_write (Some []) n s
     = (Throw (illegal_argument ''open_file_for_write(): Empty filename received''), s)
   \<and> (file = None \<or> file = Some [] \<longrightarrow>
        mmap_bytes_from_shm file n t s
          = (Throw (io ''mmap_bytes_from_shm(): Empty filename received''), s)
        \<and> read_bytes_from_shm file n t s
          = (Throw (io ''mmap_bytes_from_shm(): Empty filename received''), s))
   \<and> (\<forall>m s1. write_bytes_to_shm data t s = (Throw (illegal_argument m), s1)
        \<longrightarrow> m = ''create_filename(): Error in ::gettimeofday()'')
   \<and> (\<forall>m s1. write_bytes_to_shm_lambda lam n t s = (Throw (illegal_argument m), s1)
        \<longrightarrow> m = ''create_filename(): Error in ::gettimeofday()'')"
  using write_bytes_to_shm_illegal_argument write_bytes_to_shm_lambda_illegal_argument
  by (auto simp: open_file_for_write_def mmap_bytes_from_shm_def read_bytes_from_shm_def)

theorem empty_handle_exceptions_witness:
  "open_file_for_write (Some []) 9 os0
     = (Throw (illegal_argument ''open_file_for_write(): Empty filename received''), os0)
   \<and> mmap_bytes_from_shm None 5 TYPE_BYTE os0
     = (Throw (io ''mmap_bytes_from_shm(): Empty filename received''), os0)
   \<and> read_bytes_from_shm (Some []) 5 TYPE_BYTE os0
     = (Throw (io ''mmap_bytes_from_shm(): Empty filename received''), os0)
   \<and> fst (write_bytes_to_shm [1] TYPE_BYTE (os0\<lparr>faults := [Fails]\<rparr>))
     = Throw (illegal_argument ''create_filename(): Error in ::gettimeofday()'')
   \<and> fst (write_bytes_to_shm_lambda (\<lambda>p. [1]) 1 TYPE_BYTE (os0\<lparr>faults := [Fails]\<rparr>))
     = Throw (illegal_argument ''create_filename(): Error in ::gettimeofday()'')"
proof -
  let ?s = "os0\<lparr>faults := [Fails]\<rparr>"
  have c: "create_filename ?s
      = (Throw (illegal_argument ''create_filename(): Error in ::gettimeofday()''),
         os0\<lparr>faults := []\<rparr>)"
    by (simp add: create_filename_def long_def sys_gettimeofday_def next_fault_def os0_def)
  have w: "write_bytes_to_shm [1] TYPE_BYTE ?s
      = (Throw (illegal_argument ''create_filename(): Error in ::gettimeofday()''),
         os0\<lparr>faults := []\<rparr>)"
    by (simp add: write_bytes_to_shm_def c)
  have l: "write_bytes_to_shm_lambda (\<lambda>p. [1]) 1 TYPE_BYTE ?s
      = (Throw (illegal_argument ''create_filename(): Error in ::gettimeofday()''),
         os0\<lparr>faults := []\<rparr>)"
    by (simp add: write_bytes_to_shm_lambda_def c)
  note T0 = empty_handle_exceptions [of 9 os0 None TYPE_BYTE "[1]" "\<lambda>p. [1]"]
  note T1 = empty_handle_exceptions [of 5 os0 None TYPE_BYTE "[1]" "\<lambda>p. [1]"]
  note T2 = empty_handle_exceptions [of 5 os0 "Some []" TYPE_BYTE "[1]" "\<lambda>p. [1]"]
  note T3 = empty_handle_exceptions [of 1 ?s None TYPE_BYTE "[1]" "\<lambda>p. [1]"]
  have 0: "open_file_for_write (Some []) 9 os0
     = (Throw (illegal_argument ''open_file_for_write(): Empty filename received''), os0)"
    using T0 by (rule conjunct1)
  have 1: "mmap_bytes_from_shm None 5 TYPE_BYTE os0
     = (Throw (io ''mmap_bytes_from_shm(): Empty filename received''), os0)"
    using T1 [THEN conjunct2, THEN conjunct1] by blast
  have 2: "read_bytes_from_shm (Some []) 5 TYPE_BYTE os0
     = (Throw (io ''mmap_bytes_from_shm(): Empty filename received''), os0)"
    using T2 [THEN conjunct2, THEN conjunct1] by blast
  have 3: "fst (write_bytes_to_shm [1] TYPE_BYTE ?s)
     = Throw (illegal_argument ''create_filename(): Error in ::gettimeofday()'')"
    using T3 [THEN conjunct2, THEN conjunct2, THEN conjunct1, rule_format, OF w] w
    by (simp only: fst_conv)
  have 4: "fst (write_bytes_to_shm_lambda (\<lambda>p. [1]) 1 TYPE_BYTE ?s)
     = Throw (illegal_argument ''create_filename(): Error in ::gettimeofday()'')"
    using T3 [THEN conjunct2, THEN conjunct2, THEN conjunct2, rule_format, OF l] l
    by (simp only: fst_conv)
  from 0 1 2 3 4 show ?thesis by (intro conjI)
qed

text \<open>
  C7 as stated fails: the reader and the copying reader answer an empty or \<^verbatim>\<open>NULL\<close> file
  name with \<open>io\<close>, not with \<open>illegal_argument\<close>.
\<close>

theorem empty_handle_counterexample:
  "fst (mmap_bytes_from_shm (Some []) 5 TYPE_BYTE os0)
     = Throw (io ''mmap_bytes_from_shm(): Empty filename received'')
   \<and> fst (mmap_bytes_from_shm None 5 TYPE_BYTE os0)
     = Throw (io ''mmap_bytes_from_shm(): Empty filename received'')
   \<and> fst (read_bytes_from_shm (Some []) 5 TYPE_BYTE os0)
     = Throw (io ''mmap_bytes_from_shm(): Empty filename received'')
   \<and> fst (read_bytes_from_shm None 5 TYPE_BYTE os0)
     = Throw (io ''mmap_bytes_from_shm(): Empty filename received'')"
  by (simp add: mmap_bytes_from_shm_def read_bytes_from_shm_def)

subsection \<open>Free space\<close>

lemma sys_open_creat_Some:
  assumes "sys_open_creat path s = (Some fd, s1)"
  shows "\<exists>ino. dir s1 path = Some ino \<and> inodes s1 ino = [] \<and> fds s1 fd = Some (ino, 0)
           \<and> mappings s1 = mappings s \<and> mmap_hint s1 = mmap_hint s
           \<and> (\<forall>p. p \<noteq> path \<longrightarrow> dir s1 p = dir s p)"
  using assms
  by (auto simp: sys_open_creat_def Let_def split_beta split: if_splits option.splits)

lemma sys_open_creat_None:
  assumes "sys_open_creat path s = (None, s1)"
  shows "dir s1 = dir s \<and> inodes s1 = inodes s \<and> mappings s1 = mappings s"
  using assms
  by (auto simp: sys_open_creat_def Let_def split_beta split: if_splits option.splits)

lemma sys_fstatvfs_fields:
  assumes "sys_fstatvfs fd s = (r, s1)"
  shows "dir s1 = dir s \<and> inodes s1 = inodes s \<and> fds s1 = fds s \<and> mappings s1 = mappings s
         \<and> mmap_hint s1 = mmap_hint s"
  using assms by (auto simp: sys_fstatvfs_def Let_def split_beta split: if_splits)

lemma sys_fstatvfs_Some:
  assumes "sys_fstatvfs fd s = (Some (bsize, bavail), s1)"
  shows "bsize = f_bsize s \<and> bavail = f_bavail s"
  using assms by (auto simp: sys_fstatvfs_def Let_def split_beta split: if_splits)

lemma unlink_close_fields [simp]:
  "dir (sys_unlink (Some path) s) = (dir s)(path := None)"
  "dir (sys_unlink None s) = dir s"
  "inodes (sys_unlink f s) = inodes s"
  "fds (sys_unlink f s) = fds s"
  "mappings (sys_unlink f s) = mappings s"
  "faults (sys_unlink f s) = faults s"
  "mmap_hint (sys_unlink f s) = mmap_hint s"
  "dir (sys_close fd s) = dir s"
  "inodes (sys_close fd s) = inodes s"
  "fds (sys_close fd s) = (fds s)(fd := None)"
  "mappings (sys_close fd s) = mappings s"
  "faults (sys_close fd s) = faults s"
  "mmap_hint (sys_close fd s) = mmap_hint s"
  by (simp_all add: sys_unlink_def sys_close_def split: option.splits)



subsection \<open>Pages, mappings and memory\<close>


lemma frame_size_small: "n + 9 < 2 ^ 64 \<Longrightarrow> frame_size n = n + 9"
  by (simp add: frame_size_def size_t_def sizeof_HEADER_BYTES_def sizeof_ArrayType_def)

lemma page_round_ge: "len \<le> page_round len"
proof -
  have "(len + 4095) mod 4096 < (4096 :: nat)"
    by simp
  moreover have "(len + 4095) div 4096 * 4096 + (len + 4095) mod 4096 = len + 4095"
    by (rule div_mult_mod_eq)
  ultimately have "len \<le> (len + 4095) div 4096 * 4096"
    by linarith
  then show ?thesis
    by (simp add: page_round_def page_size_def)
qed

lemma page_round_pos:
  assumes "0 < len"
  shows "page_size \<le> page_round len"
proof -
  have "1 \<le> (len + 4095) div (4096 :: nat)"
    using assms by (simp add: Suc_le_eq div_greater_zero_iff)
  then have "1 * 4096 \<le> (len + 4095) div 4096 * (4096 :: nat)"
    by (rule mult_le_mono1)
  then show ?thesis
    by (simp add: page_round_def page_size_def)
qed

lemma region_free_next_fault [simp]:
  "region_free (snd (next_fault s)) base len = region_free s base len"
  by (simp add: region_free_def)

lemma sys_open_Some:
  assumes "sys_open path s = (Some fd, s1)"
  shows "\<exists>ino. dir s path = Some ino \<and> fds s1 fd = Some (ino, 0)"
    and "dir s1 = dir s" and "inodes s1 = inodes s" and "mappings s1 = mappings s"
    and "mmap_hint s1 = mmap_hint s" and "faults s1 = tl (faults s)"
  using assms
  by (auto simp: sys_open_def Let_def split_beta split: if_splits option.splits)

lemma sys_open_None:
  assumes "sys_open path s = (None, s1)"
  shows "dir s1 = dir s" and "inodes s1 = inodes s" and "mappings s1 = mappings s"
    and "mmap_hint s1 = mmap_hint s" and "faults s1 = tl (faults s)"
  using assms
  by (auto simp: sys_open_def Let_def split_beta split: if_splits option.splits)

lemma sys_open_no_fault:
  assumes "dir s path = Some ino" and "fst (next_fault s) \<noteq> Fails"
  shows "\<exists>fd s1. sys_open path s = (Some fd, s1)"
  using assms by (simp add: sys_open_def split_beta)

lemma sys_mmap_Some:
  assumes "sys_mmap len fd s = (Some base, s1)"
  shows "\<exists>ino off. fds s fd = Some (ino, off)
           \<and> mappings s1 = (\<lambda>a. if in_region base len a then Some (ino, a - base)
                                  else mappings s a)"
    and "base = mmap_hint s" and "base \<noteq> 0" and "base mod page_size = 0" and "0 < len"
    and "base + page_round len \<le> 2 ^ 64" and "region_free s base len"
    and "dir s1 = dir s" and "inodes s1 = inodes s" and "fds s1 = fds s"
    and "faults s1 = tl (faults s)"
  using assms
  by (auto simp: sys_mmap_def Let_def split_beta cong: if_cong split: if_splits option.splits)

lemma sys_mmap_None:
  assumes "sys_mmap len fd s = (None, s1)"
  shows "dir s1 = dir s" and "inodes s1 = inodes s" and "mappings s1 = mappings s"
    and "fds s1 = fds s" and "faults s1 = tl (faults s)"
  using assms
  by (auto simp: sys_mmap_def Let_def split_beta split: if_splits option.splits)

lemma sys_mmap_no_fault:
  assumes "fds s fd = Some (ino, off)" and "fst (next_fault s) \<noteq> Fails" and "0 < len"
    and "mmap_hint s \<noteq> 0" and "mmap_hint s mod page_size = 0"
    and "mmap_hint s + page_round len \<le> 2 ^ 64" and "region_free s (mmap_hint s) len"
  shows "\<exists>s1. sys_mmap len fd s = (Some (mmap_hint s), s1)"
  using assms by (simp add: sys_mmap_def split_beta Let_def)

lemma sys_munmap_True:
  assumes "sys_munmap addr len s = (True, s1)"
  shows "mappings s1 = (\<lambda>a. if in_region addr len a then None else mappings s a)"
    and "dir s1 = dir s" and "inodes s1 = inodes s" and "fds s1 = fds s"
    and "faults s1 = tl (faults s)" and "addr mod page_size = 0" and "0 < len"
  using assms
  by (auto simp: sys_munmap_def Let_def split_beta split: if_splits)

lemma sys_munmap_False:
  assumes "sys_munmap addr len s = (False, s1)"
  shows "mappings s1 = mappings s"
    and "dir s1 = dir s" and "inodes s1 = inodes s" and "fds s1 = fds s"
    and "faults s1 = tl (faults s)"
  using assms
  by (auto simp: sys_munmap_def Let_def split_beta split: if_splits)

lemma sys_munmap_no_fault:
  assumes "faults s = []" and "0 < len" and "addr mod page_size = 0"
  shows "\<exists>s1. sys_munmap addr len s = (True, s1)"
  using assms by (simp add: sys_munmap_def next_fault_no_faults)

lemma sys_malloc_fields:
  assumes "sys_malloc n s = (ok, s1)"
  shows "dir s1 = dir s" and "inodes s1 = inodes s" and "mappings s1 = mappings s"
    and "fds s1 = fds s" and "faults s1 = tl (faults s)"
  using assms by (auto simp: sys_malloc_def split_beta)

lemma sys_malloc_no_fault: "faults s = [] \<Longrightarrow> sys_malloc n s = (True, s)"
  by (simp add: sys_malloc_def next_fault_no_faults)

lemma those_map_Some:
  "(\<And>x. x \<in> set xs \<Longrightarrow> f x = Some (g x)) \<Longrightarrow> those (map f xs) = Some (map g xs)"
  by (induction xs) simp_all

lemma mem_load_mapped:
  "mappings s a = Some (ino, off) \<Longrightarrow> off < length (inodes s ino)
   \<Longrightarrow> mem_load s a = Some (inodes s ino ! off)"
  by (simp add: mem_load_def)

lemma mem_read_mapped:
  assumes "\<And>i. i < n \<Longrightarrow> mappings s (a + i) = Some (ino, off + i)"
    and "off + n \<le> length (inodes s ino)"
  shows "mem_read s a n = Some (take n (drop off (inodes s ino)))"
proof -
  let ?c = "inodes s ino"
  have "mem_load s x = Some (?c ! (off + (x - a)))" if "x \<in> set [a ..< a + n]" for x
  proof -
    from that have x: "a \<le> x" "x - a < n" by auto
    with assms(1) [of "x - a"] have "mappings s x = Some (ino, off + (x - a))" by simp
    moreover have "off + (x - a) < length ?c" using x assms(2) by linarith
    ultimately show ?thesis by (rule mem_load_mapped)
  qed
  then have "mem_read s a n = Some (map (\<lambda>x. ?c ! (off + (x - a))) [a ..< a + n])"
    unfolding mem_read_def by (rule those_map_Some)
  also have "map (\<lambda>x. ?c ! (off + (x - a))) [a ..< a + n] = take n (drop off ?c)"
  proof (rule nth_equalityI)
    show "length (map (\<lambda>x. ?c ! (off + (x - a))) [a ..< a + n]) = length (take n (drop off ?c))"
      using assms(2) by simp
  next
    fix i assume "i < length (map (\<lambda>x. ?c ! (off + (x - a))) [a ..< a + n])"
    then have "i < n" by simp
    then show "map (\<lambda>x. ?c ! (off + (x - a))) [a ..< a + n] ! i = take n (drop off ?c) ! i"
      using assms(2) by simp
  qed
  finally show ?thesis .
qed

lemma strncmp_eq_0_iff:
  assumes "length xs = length ys" and "n = length ys" and "\<forall>y \<in> set (butlast ys). y \<noteq> 0"
  shows "strncmp xs ys n = 0 \<longleftrightarrow> xs = ys"
  using assms
proof (induction xs ys arbitrary: n rule: list_induct2)
  case Nil
  then show ?case by simp
next
  case (Cons x xs y ys)
  have neq: "int (unat x) - int (unat y) \<noteq> 0" if "x \<noteq> y"
    using that by (simp add: word_uint_eq_iff)
  show ?case
  proof (cases "x = y")
    case False
    then show ?thesis using Cons.prems neq by simp
  next
    case True
    show ?thesis
    proof (cases "ys = []")
      case True
      with Cons.hyps \<open>x = y\<close> Cons.prems show ?thesis by simp
    next
      case False
      with Cons.prems have "y \<noteq> 0" and "\<forall>y \<in> set (butlast ys). y \<noteq> 0" by simp_all
      with Cons.IH [of "length ys"] \<open>x = y\<close> Cons.prems show ?thesis by simp
    qed
  qed
qed

lemma strncmp_header:
  assumes "length xs = 8"
  shows "strncmp xs HEADER_BYTES sizeof_HEADER_BYTES = 0 \<longleftrightarrow> xs = HEADER_BYTES"
  by (rule strncmp_eq_0_iff) (simp_all add: assms HEADER_BYTES_def sizeof_HEADER_BYTES_def)

subsection \<open>What \<^verbatim>\<open>mmap_bytes_from_shm\<close> does\<close>

lemma in_region_offset: "in_region base len (base + i) \<longleftrightarrow> i < page_round len"
  by (simp add: in_region_def)

lemma ptr_add_small: "p + k < 2 ^ 64 \<Longrightarrow> ptr_add p k = p + k"
  by (simp add: ptr_add_def)

lemma ptr_sub_add:
  assumes "p + k < 2 ^ 64"
  shows "ptr_sub (p + k) k = p"
proof -
  from assms have k: "k mod 2 ^ 64 = k" and p: "p mod 2 ^ 64 = p"
    by simp_all
  from assms have "p + k + (2 ^ 64 - k) = p + 2 ^ 64"
    by simp
  then have "ptr_sub (p + k) k = (p + 2 ^ 64) mod 2 ^ 64"
    unfolding ptr_sub_def k by (rule arg_cong)
  also have "\<dots> = p"
    using p by simp
  finally show ?thesis .
qed

text \<open>Once the file is open, large enough and mapped, the outcome is decided by its bytes.\<close>

lemma mmap_bytes_from_shm_mapped:
  assumes o: "sys_open path s = (Some fd, s1)" and path: "path \<noteq> []"
    and size: "\<not> size_t (st_size s1 fd) < sizeof_HEADER_BYTES + 1"
    and m: "sys_mmap (frame_size n) fd s1 = (Some base, s2)"
  shows "\<exists>ino. dir s path = Some ino
           \<and> 9 \<le> length (inodes s ino)
           \<and> mappings s2 = (\<lambda>a. if in_region (mmap_hint s) (frame_size n) a
                                  then Some (ino, a - mmap_hint s) else mappings s a)
           \<and> mmap_bytes_from_shm (Some path) n t s =
               (if take 8 (inodes s ino) \<noteq> HEADER_BYTES
                then (Throw (io ''mmap_bytes_from_shm(): The magic bytes in this file: ''),
                      sys_unlink (Some path) (sys_close fd s2))
                else if inodes s ino ! 8 \<noteq> char_of_type t
                then (Throw (io ''mmap_bytes_from_shm(): The read type is: ''),
                      sys_unlink (Some path) (sys_close fd s2))
                else (Return (mmap_hint s + 9), sys_close fd s2))"
    and "base = mmap_hint s"
    and "can_map s (frame_size n)"
    and "dir s2 = dir s" and "inodes s2 = inodes s" and "faults s2 = tl (tl (faults s))"
proof -
  let ?s3 = "sys_close fd s2"
  have unfolded: "mmap_bytes_from_shm (Some path) n t s =
      (case mem_read ?s3 base sizeof_HEADER_BYTES of
         None \<Rightarrow> (Killed, ?s3)
       | Some magic \<Rightarrow>
           if strncmp magic HEADER_BYTES sizeof_HEADER_BYTES \<noteq> 0
           then (Throw (io ''mmap_bytes_from_shm(): The magic bytes in this file: ''),
                 sys_unlink (Some path) ?s3)
           else
             (case mem_load ?s3 (ptr_add base sizeof_HEADER_BYTES) of
                None \<Rightarrow> (Killed, ?s3)
              | Some file_array_type \<Rightarrow>
                  if file_array_type \<noteq> char_of_type t
                  then (Throw (io ''mmap_bytes_from_shm(): The read type is: ''),
                        sys_unlink (Some path) ?s3)
                  else (Return (ptr_add (ptr_add base sizeof_HEADER_BYTES) 1), ?s3)))"
    using o path size m
    by (simp add: mmap_bytes_from_shm_def frame_size_def Let_def
        cong: option.case_cong if_cong)
  from sys_open_Some(1) [OF o] obtain ino
    where ino: "dir s path = Some ino" "fds s1 fd = Some (ino, 0)"
    by (elim exE conjE)
  note s1 = sys_open_Some(2-) [OF o]
  from sys_mmap_Some(1) [OF m] ino
  have maps: "mappings s2 = (\<lambda>a. if in_region base (frame_size n) a
      then Some (ino, a - base) else mappings s1 a)"
    by auto
  note s2 = sys_mmap_Some(2-) [OF m]
  let ?c = "inodes s ino"
  from size ino s1 have len: "9 \<le> length ?c"
    using size_t_le [of "length ?c"] by (simp add: st_size_def sizeof_HEADER_BYTES_def)
  have pr: "page_size \<le> page_round (frame_size n)"
    using s2(4) by (rule page_round_pos)
  have mapped: "mappings ?s3 (base + i) = Some (ino, 0 + i)" if "i < 9" for i
    using that pr by (simp add: maps in_region_offset page_size_def)
  have c3: "inodes s2 ino = ?c"
    using s1 s2 by simp
  have "mem_read ?s3 base 8 = Some (take 8 (drop 0 (inodes ?s3 ino)))"
    using mapped len by (intro mem_read_mapped) (simp_all add: c3)
  then have magic: "mem_read ?s3 base sizeof_HEADER_BYTES = Some (take 8 ?c)"
    by (simp add: c3 sizeof_HEADER_BYTES_def)
  have nowrap: "base + 9 < 2 ^ 64"
    using s2(5) pr by (simp add: page_size_def)
  then have p8: "ptr_add base sizeof_HEADER_BYTES = base + 8"
    by (simp add: ptr_add_small sizeof_HEADER_BYTES_def)
  have p9: "ptr_add (base + 8) 1 = base + 9"
    using nowrap by (simp add: ptr_add_small)
  have "mem_load ?s3 (base + 8) = Some (inodes ?s3 ino ! (0 + 8))"
    using mapped [of 8] len by (intro mem_load_mapped) (simp_all add: c3)
  then have tag: "mem_load ?s3 (base + 8) = Some (?c ! 8)"
    by (simp add: c3)
  have l8: "length (take 8 ?c) = 8" using len by simp
  have "mmap_bytes_from_shm (Some path) n t s =
     (if take 8 ?c \<noteq> HEADER_BYTES
      then (Throw (io ''mmap_bytes_from_shm(): The magic bytes in this file: ''),
            sys_unlink (Some path) ?s3)
      else if ?c ! 8 \<noteq> char_of_type t
      then (Throw (io ''mmap_bytes_from_shm(): The read type is: ''),
            sys_unlink (Some path) ?s3)
      else (Return (base + 9), ?s3))"
    unfolding unfolded magic p8 option.case tag p9 strncmp_header [OF l8] ..
  then show "\<exists>ino. dir s path = Some ino
           \<and> 9 \<le> length (inodes s ino)
           \<and> mappings s2 = (\<lambda>a. if in_region (mmap_hint s) (frame_size n) a
                                  then Some (ino, a - mmap_hint s) else mappings s a)
           \<and> mmap_bytes_from_shm (Some path) n t s =
               (if take 8 (inodes s ino) \<noteq> HEADER_BYTES
                then (Throw (io ''mmap_bytes_from_shm(): The magic bytes in this file: ''),
                      sys_unlink (Some path) (sys_close fd s2))
                else if inodes s ino ! 8 \<noteq> char_of_type t
                then (Throw (io ''mmap_bytes_from_shm(): The read type is: ''),
                      sys_unlink (Some path) (sys_close fd s2))
                else (Return (mmap_hint s + 9), sys_close fd s2))"
    using ino len maps s1 s2(1) by auto
  show "base = mmap_hint s" using s2(1) s1 by simp
  show "can_map s (frame_size n)"
    using s2 s1 by (simp add: can_map_def region_free_def)
  show "dir s2 = dir s" "inodes s2 = inodes s" "faults s2 = tl (tl (faults s))"
    using s1 s2 by simp_all
qed

text \<open>The five ways through \<^verbatim>\<open>mmap_bytes_from_shm\<close>.\<close>

lemma mmap_bytes_from_shm_cases:
  obtains
    (empty) "fname = None \<or> fname = Some []"
      "mmap_bytes_from_shm fname n t s
         = (Throw (io ''mmap_bytes_from_shm(): Empty filename received''), s)"
  | (open_failed) path s1 where "fname = Some path" "path \<noteq> []"
      "sys_open path s = (None, s1)"
      "mmap_bytes_from_shm fname n t s
         = (Throw (io ''mmap_bytes_from_shm(): Could not open file for reading''), s1)"
  | (too_small) path fd s1 where "fname = Some path" "path \<noteq> []"
      "sys_open path s = (Some fd, s1)"
      "size_t (st_size s1 fd) < sizeof_HEADER_BYTES + 1"
      "mmap_bytes_from_shm fname n t s
         = (Throw (io ''mmap_bytes_from_shm(): File size is insufficient for reading''),
            sys_close fd s1)"
  | (mmap_failed) path fd s1 s2 where "fname = Some path" "path \<noteq> []"
      "sys_open path s = (Some fd, s1)"
      "\<not> size_t (st_size s1 fd) < sizeof_HEADER_BYTES + 1"
      "sys_mmap (frame_size n) fd s1 = (None, s2)"
      "mmap_bytes_from_shm fname n t s
         = (Throw (io ''mmap_bytes_from_shm(): Error in mmaping the file''),
            sys_unlink fname (sys_close fd s2))"
  | (mapped) path fd s1 base s2 where "fname = Some path" "path \<noteq> []"
      "sys_open path s = (Some fd, s1)"
      "\<not> size_t (st_size s1 fd) < sizeof_HEADER_BYTES + 1"
      "sys_mmap (frame_size n) fd s1 = (Some base, s2)"
proof (cases "fname = None \<or> fname = Some []")
  case True
  then show ?thesis
    by (intro empty) (auto simp: mmap_bytes_from_shm_def)
next
  case False
  then obtain path where path: "fname = Some path" "path \<noteq> []"
    by (cases fname) auto
  obtain r1 s1 where o: "sys_open path s = (r1, s1)" by force
  show ?thesis
  proof (cases r1)
    case None
    with path o show ?thesis
      by (intro open_failed [of path s1]) (simp_all add: mmap_bytes_from_shm_def)
  next
    case (Some fd)
    note fd = this
    show ?thesis
    proof (cases "size_t (st_size s1 fd) < sizeof_HEADER_BYTES + 1")
      case True
      with path o fd show ?thesis
        by (intro too_small [of path fd s1]) (simp_all add: mmap_bytes_from_shm_def)
    next
      case False
      obtain r2 s2 where m: "sys_mmap (frame_size n) fd s1 = (r2, s2)" by force
      show ?thesis
      proof (cases r2)
        case None
        with path o fd False m show ?thesis
          by (intro mmap_failed [of path fd s1 s2])
            (simp_all add: mmap_bytes_from_shm_def frame_size_def)
      next
        case (Some base)
        with path o fd False m show ?thesis
          by (intro mapped [of path fd s1 base s2]) simp_all
      qed
    qed
  qed
qed

lemma char_of_type_inj: "char_of_type a = char_of_type b \<Longrightarrow> a = b"
  by (cases a; cases b) simp_all

lemma sys_open_st_size:
  assumes "sys_open path s = (Some fd, s1)" and "file_contents s path = Some c"
  shows "st_size s1 fd = length c"
proof -
  from sys_open_Some(1) [OF assms(1)] obtain ino
    where "dir s path = Some ino" "fds s1 fd = Some (ino, 0)"
    by (elim exE conjE)
  then show ?thesis
    using assms(2) sys_open_Some(3) [OF assms(1)] by (auto simp: st_size_def file_contents_def)
qed

lemma next_fault_fst_cong: "faults a = faults b \<Longrightarrow> fst (next_fault a) = fst (next_fault b)"
  by (simp add: next_fault_def split: list.splits)

text \<open>
  When neither \<^verbatim>\<open>open\<close> nor \<^verbatim>\<open>mmap\<close> fails and the file has its 9 bytes, the bytes
  decide.
\<close>

lemma mmap_bytes_from_shm_evaluated:
  assumes c: "file_contents s path = Some c"
    and len: "9 \<le> length c" "length c < 2 ^ 64"
    and path: "path \<noteq> []"
    and nf: "fst (next_fault s) \<noteq> Fails" "fst (next_fault (snd (next_fault s))) \<noteq> Fails"
    and cm: "can_map s (frame_size n)"
  shows "\<exists>s' ino. dir s path = Some ino
      \<and> mappings s' = (\<lambda>a. if in_region (mmap_hint s) (frame_size n) a
                            then Some (ino, a - mmap_hint s) else mappings s a)
      \<and> dir s' = dir s \<and> inodes s' = inodes s \<and> faults s' = tl (tl (faults s))
      \<and> mmap_bytes_from_shm (Some path) n t s =
          (if take 8 c \<noteq> HEADER_BYTES
           then (Throw (io ''mmap_bytes_from_shm(): The magic bytes in this file: ''),
                 sys_unlink (Some path) s')
           else if c ! 8 \<noteq> char_of_type t
           then (Throw (io ''mmap_bytes_from_shm(): The read type is: ''),
                 sys_unlink (Some path) s')
           else (Return (mmap_hint s + 9), s'))"
proof -
  from c obtain ino where ino: "dir s path = Some ino" "inodes s ino = c"
    by (auto simp: file_contents_def)
  from sys_open_no_fault [OF ino(1) nf(1)] obtain fd s1
    where o: "sys_open path s = (Some fd, s1)"
    by blast
  note s1 = sys_open_Some(2-) [OF o]
  from sys_open_Some(1) [OF o] ino have fd: "fds s1 fd = Some (ino, 0)"
    by auto
  have size: "\<not> size_t (st_size s1 fd) < sizeof_HEADER_BYTES + 1"
    using sys_open_st_size [OF o c] len by (simp add: size_t_id sizeof_HEADER_BYTES_def)
  have "faults s1 = faults (snd (next_fault s))"
    using s1 by simp
  from next_fault_fst_cong [OF this] nf(2) have nf1: "fst (next_fault s1) \<noteq> Fails"
    by simp
  have "region_free s1 (mmap_hint s1) (frame_size n)"
    using cm s1 by (simp add: can_map_def region_free_def)
  with sys_mmap_no_fault [OF fd nf1, of "frame_size n"] cm s1
  obtain s2 where m: "sys_mmap (frame_size n) fd s1 = (Some (mmap_hint s), s2)"
    by (auto simp: can_map_def)
  note M = mmap_bytes_from_shm_mapped(2-) [OF o path size m]
  from mmap_bytes_from_shm_mapped(1) [OF o path size m, of t] ino
  have "mappings (sys_close fd s2) = (\<lambda>a. if in_region (mmap_hint s) (frame_size n) a
                            then Some (ino, a - mmap_hint s) else mappings s a)
      \<and> mmap_bytes_from_shm (Some path) n t s =
          (if take 8 c \<noteq> HEADER_BYTES
           then (Throw (io ''mmap_bytes_from_shm(): The magic bytes in this file: ''),
                 sys_unlink (Some path) (sys_close fd s2))
           else if c ! 8 \<noteq> char_of_type t
           then (Throw (io ''mmap_bytes_from_shm(): The read type is: ''),
                 sys_unlink (Some path) (sys_close fd s2))
           else (Return (mmap_hint s + 9), sys_close fd s2))"
    by auto
  moreover have "dir (sys_close fd s2) = dir s" "inodes (sys_close fd s2) = inodes s"
    "faults (sys_close fd s2) = tl (tl (faults s))"
    using M by simp_all
  ultimately show ?thesis
    using ino(1) by blast
qed

lemma mmap_bytes_from_shm_succeeds:
  assumes c: "file_contents s path = Some c" and hdr: "take 8 c = HEADER_BYTES"
    and len: "9 \<le> length c" "length c < 2 ^ 64" and tag: "c ! 8 = char_of_type t"
    and path: "path \<noteq> []" and nf: "faults s = []" and cm: "can_map s (frame_size n)"
  shows "\<exists>s'. mmap_bytes_from_shm (Some path) n t s = (Return (mmap_hint s + 9), s')
           \<and> faults s' = []"
proof -
  have "fst (next_fault s) \<noteq> Fails" "fst (next_fault (snd (next_fault s))) \<noteq> Fails"
    using nf by (simp_all add: next_fault_no_faults)
  from mmap_bytes_from_shm_evaluated [OF c len path this cm, of t] hdr tag nf
  show ?thesis by auto
qed

lemma munmap_bytes_from_shm_eval:
  "munmap_bytes_from_shm fname n t p s =
     (case sys_munmap (ptr_sub p 9) (frame_size n) s of
        (False, s1) \<Rightarrow>
          (Throw (io ''munmap_bytes_from_shm(): Error in munmaping the file''), sys_unlink fname s1)
      | (True, s1) \<Rightarrow> (Return (), sys_unlink fname s1))"
  by (simp add: munmap_bytes_from_shm_def frame_size_def sizeof_HEADER_BYTES_def
      sizeof_ArrayType_def)

lemma munmap_bytes_from_shm_cases:
  obtains
    (unmapped) s1 where "sys_munmap (ptr_sub p 9) (frame_size n) s = (True, s1)"
      "munmap_bytes_from_shm fname n t p s = (Return (), sys_unlink fname s1)"
  | (failed) s1 where "sys_munmap (ptr_sub p 9) (frame_size n) s = (False, s1)"
      "munmap_bytes_from_shm fname n t p s
         = (Throw (io ''munmap_bytes_from_shm(): Error in munmaping the file''),
            sys_unlink fname s1)"
proof -
  obtain ok s1 where m: "sys_munmap (ptr_sub p 9) (frame_size n) s = (ok, s1)" by force
  show ?thesis
  proof (cases ok)
    case True
    with m show ?thesis by (intro unmapped [of s1]) (simp_all add: munmap_bytes_from_shm_eval)
  next
    case False
    with m show ?thesis by (intro failed [of s1]) (simp_all add: munmap_bytes_from_shm_eval)
  qed
qed

text \<open>The pointer that \<^verbatim>\<open>mmap_bytes_from_shm\<close> returns, and the state it leaves.\<close>

lemma mmap_bytes_from_shm_Return:
  assumes "mmap_bytes_from_shm (Some path) n t s = (Return p, s')"
  shows "\<exists>ino. dir s path = Some ino
           \<and> 9 \<le> length (inodes s ino)
           \<and> take 8 (inodes s ino) = HEADER_BYTES
           \<and> inodes s ino ! 8 = char_of_type t
           \<and> mappings s' = (\<lambda>a. if in_region (mmap_hint s) (frame_size n) a
                                  then Some (ino, a - mmap_hint s) else mappings s a)"
    and "p = mmap_hint s + 9"
    and "can_map s (frame_size n)"
    and "dir s' = dir s" and "inodes s' = inodes s" and "faults s' = tl (tl (faults s))"
proof -
  have "(\<exists>ino. dir s path = Some ino
           \<and> 9 \<le> length (inodes s ino)
           \<and> take 8 (inodes s ino) = HEADER_BYTES
           \<and> inodes s ino ! 8 = char_of_type t
           \<and> mappings s' = (\<lambda>a. if in_region (mmap_hint s) (frame_size n) a
                                  then Some (ino, a - mmap_hint s) else mappings s a))
    \<and> p = mmap_hint s + 9 \<and> can_map s (frame_size n)
    \<and> dir s' = dir s \<and> inodes s' = inodes s \<and> faults s' = tl (tl (faults s))"
  proof (cases "Some path" n t s rule: mmap_bytes_from_shm_cases)
    case (mapped q fd s1 base s2)
    then have o: "sys_open path s = (Some fd, s1)" and pth: "path \<noteq> []"
      and sz: "\<not> size_t (st_size s1 fd) < sizeof_HEADER_BYTES + 1"
      and m: "sys_mmap (frame_size n) fd s1 = (Some base, s2)"
      by simp_all
    note M1 = mmap_bytes_from_shm_mapped(1) [OF o pth sz m, of t]
    note M = mmap_bytes_from_shm_mapped(2-) [OF o pth sz m]
    from M1 obtain ino where ino: "dir s path = Some ino" "9 \<le> length (inodes s ino)"
      "mappings s2 = (\<lambda>a. if in_region (mmap_hint s) (frame_size n) a
                                  then Some (ino, a - mmap_hint s) else mappings s a)"
      "mmap_bytes_from_shm (Some path) n t s =
               (if take 8 (inodes s ino) \<noteq> HEADER_BYTES
                then (Throw (io ''mmap_bytes_from_shm(): The magic bytes in this file: ''),
                      sys_unlink (Some path) (sys_close fd s2))
                else if inodes s ino ! 8 \<noteq> char_of_type t
                then (Throw (io ''mmap_bytes_from_shm(): The read type is: ''),
                      sys_unlink (Some path) (sys_close fd s2))
                else (Return (mmap_hint s + 9), sys_close fd s2))"
      by (elim exE conjE)
    from ino(4) assms have "take 8 (inodes s ino) = HEADER_BYTES"
      "inodes s ino ! 8 = char_of_type t" "p = mmap_hint s + 9" "s' = sys_close fd s2"
      by (auto split: if_splits)
    with ino(1-3) M(2-) show ?thesis by auto
  qed (use assms in auto)
  then show "\<exists>ino. dir s path = Some ino
           \<and> 9 \<le> length (inodes s ino)
           \<and> take 8 (inodes s ino) = HEADER_BYTES
           \<and> inodes s ino ! 8 = char_of_type t
           \<and> mappings s' = (\<lambda>a. if in_region (mmap_hint s) (frame_size n) a
                                  then Some (ino, a - mmap_hint s) else mappings s a)"
    and "p = mmap_hint s + 9"
    and "can_map s (frame_size n)"
    and "dir s' = dir s" and "inodes s' = inodes s" and "faults s' = tl (tl (faults s))"
    by blast+
qed

lemma can_map_nowrap:
  assumes "can_map s len"
  shows "mmap_hint s + 9 < 2 ^ 64" and "mmap_hint s mod page_size = 0" and "0 < len"
proof -
  from assms have "0 < len" by (simp add: can_map_def)
  then have "page_size \<le> page_round len" by (rule page_round_pos)
  with assms show "mmap_hint s + 9 < 2 ^ 64"
    by (simp add: can_map_def page_size_def)
  from assms show "mmap_hint s mod page_size = 0" "0 < len"
    by (simp_all add: can_map_def)
qed

subsection \<open>The copying reader\<close>

lemma mapped_region_payload:
  assumes "mappings s1 = (\<lambda>a. if in_region base (frame_size n) a
              then Some (ino, a - base) else mappings s a)"
    and "n + 9 < 2 ^ 64" and "i < n"
  shows "mappings s1 (base + 9 + i) = Some (ino, 9 + i)"
proof -
  have "9 + i < page_round (frame_size n)"
    using assms(2,3) page_round_ge [of "frame_size n"] by (simp add: frame_size_small)
  then have "in_region base (frame_size n) (base + (9 + i))"
    by (simp only: in_region_offset)
  then show ?thesis
    by (simp add: assms(1) add.assoc)
qed

text \<open>
  What \<^verbatim>\<open>read_bytes_from_shm\<close> returns, when it returns, is the payload of the file; and it
  does return when nothing fails.
\<close>

lemma read_bytes_from_shm_Return:
  assumes r: "read_bytes_from_shm (Some path) n t s = (Return buf, s')"
    and c: "file_contents s path = Some c" and len: "n + 9 \<le> length c" "n + 9 < 2 ^ 64"
  shows "buf = take n (drop 9 c)" and "dir s' path = None" and "mappings s' = mappings s"
proof -
  obtain r1 s1 where m: "mmap_bytes_from_shm (Some path) n t s = (r1, s1)" by force
  with r obtain p where p: "r1 = Return p"
    by (cases r1) (auto simp: read_bytes_from_shm_def)
  from m p have m': "mmap_bytes_from_shm (Some path) n t s = (Return p, s1)" by simp
  from mmap_bytes_from_shm_Return(1) [OF m'] obtain ino
    where ino: "dir s path = Some ino"
      and maps: "mappings s1 = (\<lambda>a. if in_region (mmap_hint s) (frame_size n) a
                                  then Some (ino, a - mmap_hint s) else mappings s a)"
    by (elim exE conjE)
  note R = mmap_bytes_from_shm_Return(2-) [OF m']
  obtain ok s2 where a: "sys_malloc n s1 = (ok, s2)" by force
  with r m' have ok: "ok" by (cases ok) (auto simp: read_bytes_from_shm_def)
  note s2 = sys_malloc_fields [OF a]
  from c ino have cs: "inodes s2 ino = c"
    using s2 R by (simp add: file_contents_def)
  have "mem_read s2 (mmap_hint s + 9) n = Some (take n (drop 9 (inodes s2 ino)))"
  proof (rule mem_read_mapped)
    fix i assume "i < n"
    with mapped_region_payload [OF maps len(2)]
    show "mappings s2 (mmap_hint s + 9 + i) = Some (ino, 9 + i)"
      by (simp add: s2)
  next
    show "9 + n \<le> length (inodes s2 ino)" using len cs by simp
  qed
  then have rd: "mem_read s2 p n = Some (take n (drop 9 c))"
    by (simp add: R cs)
  obtain r3 s3 where u: "munmap_bytes_from_shm (Some path) n t p s2 = (r3, s3)" by force
  with r m' a ok rd have r3: "r3 = Return ()" and buf: "buf = take n (drop 9 c)" and s': "s' = s3"
    by (cases r3; auto simp: read_bytes_from_shm_def)+
  have base: "ptr_sub p 9 = mmap_hint s"
    using can_map_nowrap(1) [OF R(2)] by (simp add: R ptr_sub_add)
  have "dir s3 path = None \<and> mappings s3 = mappings s"
  proof (cases rule: munmap_bytes_from_shm_cases [of p n s2 "Some path" t])
    case (unmapped s4)
    with u have s3: "s3 = sys_unlink (Some path) s4" by simp
    from sys_munmap_True(1) [OF unmapped(1)] maps R(2)
    have "mappings s4 = mappings s"
      by (auto simp: base s2 can_map_def region_free_def in_region_def)
    with s3 show ?thesis by simp
  next
    case (failed s4)
    with u r3 show ?thesis by simp
  qed
  with buf s' show "buf = take n (drop 9 c)" "dir s' path = None" "mappings s' = mappings s"
    by simp_all
qed

lemma read_bytes_from_shm_succeeds:
  assumes c: "file_contents s path = Some c" and hdr: "take 8 c = HEADER_BYTES"
    and len: "n + 9 \<le> length c" "length c < 2 ^ 64" and tag: "c ! 8 = char_of_type t"
    and path: "path \<noteq> []" and nf: "faults s = []" and cm: "can_map s (frame_size n)"
  shows "\<exists>s'. read_bytes_from_shm (Some path) n t s = (Return (take n (drop 9 c)), s')"
proof -
  from len have n: "n + 9 < 2 ^ 64" and l9: "9 \<le> length c" by simp_all
  from mmap_bytes_from_shm_succeeds [OF c hdr l9 len(2) tag path nf cm]
  obtain s3 where m: "mmap_bytes_from_shm (Some path) n t s = (Return (mmap_hint s + 9), s3)"
    and nf2: "faults s3 = []"
    by blast
  let ?s3 = s3
  from mmap_bytes_from_shm_Return(1) [OF m] c obtain ino
    where ino: "dir s path = Some ino" "inodes s ino = c"
      and maps: "mappings ?s3 = (\<lambda>a. if in_region (mmap_hint s) (frame_size n) a
                                  then Some (ino, a - mmap_hint s) else mappings s a)"
    by (auto simp: file_contents_def)
  note R = mmap_bytes_from_shm_Return(2-) [OF m]
  have a: "sys_malloc n ?s3 = (True, ?s3)"
    using nf2 by (simp add: sys_malloc_no_fault)
  have "mem_read ?s3 (mmap_hint s + 9) n = Some (take n (drop 9 (inodes ?s3 ino)))"
  proof (rule mem_read_mapped)
    fix i assume "i < n"
    with mapped_region_payload [OF maps n]
    show "mappings ?s3 (mmap_hint s + 9 + i) = Some (ino, 9 + i)" .
  next
    show "9 + n \<le> length (inodes ?s3 ino)" using len ino R by simp
  qed
  then have rd: "mem_read ?s3 (mmap_hint s + 9) n = Some (take n (drop 9 c))"
    using ino R by simp
  have base: "ptr_sub (mmap_hint s + 9) 9 = mmap_hint s"
    using can_map_nowrap(1) [OF cm] by (simp add: ptr_sub_add)
  have "faults ?s3 = []" using nf2 by simp
  from sys_munmap_no_fault [OF this can_map_nowrap(3) [OF cm] can_map_nowrap(2) [OF cm]]
  obtain s4 where "sys_munmap (mmap_hint s) (frame_size n) ?s3 = (True, s4)"
    by blast
  then have "munmap_bytes_from_shm (Some path) n t (mmap_hint s + 9) ?s3
      = (Return (), sys_unlink (Some path) s4)"
    by (simp add: munmap_bytes_from_shm_eval base)
  with m a rd show ?thesis
    by (simp add: read_bytes_from_shm_def)
qed

subsection \<open>The size check of the reader\<close>

text \<open>
  C5. A backing file shorter than 9 bytes (\<^verbatim>\<open>sizeof(HEADER_BYTES) + 1\<close>) is always answered
  with \<open>io\<close>, whatever else happens, and no mapping has been made by then. A file that is
  exactly the 9 bytes of an empty frame passes: when no system call fails and the kernel
  has a place for the mapping, \<^verbatim>\<open>mmap_bytes_from_shm\<close> returns the pointer behind the
  header, and \<^verbatim>\<open>read_bytes_from_shm\<close> returns the empty payload.
\<close>

theorem reader_size_check:
  "(file_contents s path = Some c \<and> length c < 9
      \<and> mmap_bytes_from_shm (Some path) n t s = (r, s')
      \<longrightarrow> is_io r \<and> mappings s' = mappings s)
   \<and> (file_contents s path = Some (HEADER_BYTES @ [char_of_type t]) \<and> path \<noteq> []
      \<and> faults s = [] \<and> can_map s (frame_size 0)
      \<longrightarrow> (\<exists>s1. mmap_bytes_from_shm (Some path) 0 t s = (Return (mmap_hint s + 9), s1))
        \<and> (\<exists>s2. read_bytes_from_shm (Some path) 0 t s = (Return [], s2)))"
proof (rule conjI; rule impI)
  assume a: "file_contents s path = Some c \<and> length c < 9
      \<and> mmap_bytes_from_shm (Some path) n t s = (r, s')"
  then have small: "size_t (st_size s1 fd) < sizeof_HEADER_BYTES + 1"
    if "sys_open path s = (Some fd, s1)" for fd s1
    using sys_open_st_size [OF that, of c] size_t_le [of "length c"]
    by (simp add: sizeof_HEADER_BYTES_def)
  show "is_io r \<and> mappings s' = mappings s"
  proof (cases "Some path" n t s rule: mmap_bytes_from_shm_cases)
    case empty
    with a show ?thesis by auto
  next
    case (open_failed p s1)
    with a sys_open_None(3) [OF open_failed(3)] show ?thesis by auto
  next
    case (too_small p fd s1)
    with a sys_open_Some(4) [OF too_small(3)] show ?thesis by auto
  next
    case (mmap_failed p fd s1 s2)
    with small [of fd s1] show ?thesis by simp
  next
    case (mapped p fd s1 base s2)
    with small [of fd s1] show ?thesis by simp
  qed
next
  assume b: "file_contents s path = Some (HEADER_BYTES @ [char_of_type t]) \<and> path \<noteq> []
      \<and> faults s = [] \<and> can_map s (frame_size 0)"
  with mmap_bytes_from_shm_succeeds [of s path "HEADER_BYTES @ [char_of_type t]" t 0]
  have 1: "\<exists>s1. mmap_bytes_from_shm (Some path) 0 t s = (Return (mmap_hint s + 9), s1)"
    by (auto simp: HEADER_BYTES_def)
  from b read_bytes_from_shm_succeeds [of s path "HEADER_BYTES @ [char_of_type t]" 0 t]
  have 2: "\<exists>s2. read_bytes_from_shm (Some path) 0 t s = (Return [], s2)"
    by (auto simp: HEADER_BYTES_def)
  from 1 2
  show "(\<exists>s1. mmap_bytes_from_shm (Some path) 0 t s = (Return (mmap_hint s + 9), s1))
      \<and> (\<exists>s2. read_bytes_from_shm (Some path) 0 t s = (Return [], s2))"
    by (rule conjI)
qed

subsection \<open>Release\<close>

text \<open>
  C8. Let \<open>p\<close> be a pointer that \<^verbatim>\<open>mmap_bytes_from_shm\<close> has returned for a frame of \<open>n\<close>
  payload bytes. \<^verbatim>\<open>munmap_bytes_from_shm\<close> with \<open>p\<close> recovers the base of the mapping as
  \<open>p - 9\<close>, and in whatever state it runs the file is gone afterwards: either
  \<^verbatim>\<open>munmap\<close> succeeded, the \<open>9 + n\<close> bytes from the base on are unmapped and the call
  returns, or \<^verbatim>\<open>munmap\<close> failed, the mappings are as before and the call throws \<open>io\<close>.
\<close>

theorem release_unmaps_and_deletes:
  assumes "mmap_bytes_from_shm (Some path) n t s0 = (Return p, s1)" and "n + 9 < 2 ^ 64"
    and "munmap_bytes_from_shm (Some path) n t p s = (r, s')"
  shows "ptr_sub p (sizeof_HEADER_BYTES + sizeof_ArrayType) = p - 9
    \<and> p - 9 = mmap_hint s0
    \<and> dir s' path = None
    \<and> (r = Return ()
          \<and> mappings s' = (\<lambda>a. if in_region (p - 9) (9 + n) a then None else mappings s a)
        \<or> r = Throw (io ''munmap_bytes_from_shm(): Error in munmaping the file'')
          \<and> mappings s' = mappings s)"
proof -
  note R = mmap_bytes_from_shm_Return(2-) [OF assms(1)]
  have p: "p = mmap_hint s0 + 9" by (rule R(1))
  have base: "ptr_sub p 9 = mmap_hint s0"
    using can_map_nowrap(1) [OF R(2)] by (simp add: p ptr_sub_add)
  have fs: "frame_size n = 9 + n"
    using assms(2) by (simp add: frame_size_small)
  have "dir s' path = None
    \<and> (r = Return ()
          \<and> mappings s' = (\<lambda>a. if in_region (mmap_hint s0) (9 + n) a then None else mappings s a)
        \<or> r = Throw (io ''munmap_bytes_from_shm(): Error in munmaping the file'')
          \<and> mappings s' = mappings s)"
  proof (cases rule: munmap_bytes_from_shm_cases [of p n s "Some path" t])
    case (unmapped s2)
    with assms(3) sys_munmap_True(1) [OF unmapped(1)] show ?thesis
      by (auto simp: base fs)
  next
    case (failed s2)
    with assms(3) sys_munmap_False(1) [OF failed(1)] show ?thesis
      by auto
  qed
  then show ?thesis
    using base p by (simp add: sizeof_HEADER_BYTES_def sizeof_ArrayType_def)
qed

text \<open>
  C10. The reader returns the base of its mapping plus 8 + 1, the releaser subtracts
  \<^verbatim>\<open>sizeof(HEADER_BYTES) + sizeof(type)\<close> and gets the base back, and both use the same
  length: the addresses that a successful release unmaps are the addresses that the
  reader mapped, and the mappings are again what they were before the reader ran.
\<close>

theorem release_undoes_open_and_map:
  assumes "mmap_bytes_from_shm (Some path) n t s = (Return p, s1)"
    and "mappings s2 = mappings s1"
    and "munmap_bytes_from_shm (Some path) n t p s2 = (Return (), s3)"
  shows "p = mmap_hint s + (sizeof_HEADER_BYTES + 1)
    \<and> ptr_sub p (sizeof_HEADER_BYTES + sizeof_ArrayType) = mmap_hint s
    \<and> {a. mappings s1 a \<noteq> mappings s a} = {a. in_region (mmap_hint s) (frame_size n) a}
    \<and> {a. mappings s3 a \<noteq> mappings s2 a} = {a. in_region (mmap_hint s) (frame_size n) a}
    \<and> mappings s3 = mappings s"
proof -
  from mmap_bytes_from_shm_Return(1) [OF assms(1)] obtain ino
    where maps: "mappings s1 = (\<lambda>a. if in_region (mmap_hint s) (frame_size n) a
                                  then Some (ino, a - mmap_hint s) else mappings s a)"
    by (elim exE conjE)
  note R = mmap_bytes_from_shm_Return(2-) [OF assms(1)]
  have p: "p = mmap_hint s + 9" by (rule R(1))
  have base: "ptr_sub p 9 = mmap_hint s"
    using can_map_nowrap(1) [OF R(2)] by (simp add: p ptr_sub_add)
  have free: "mappings s a = None" if "in_region (mmap_hint s) (frame_size n) a" for a
    using that R(2) by (simp add: can_map_def region_free_def in_region_def)
  have unmapped: "mappings s3 = (\<lambda>a. if in_region (mmap_hint s) (frame_size n) a then None
      else mappings s2 a)"
  proof (cases rule: munmap_bytes_from_shm_cases [of p n s2 "Some path" t])
    case (unmapped s4)
    with assms(3) sys_munmap_True(1) [OF unmapped(1)] show ?thesis
      by (auto simp: base)
  next
    case (failed s4)
    with assms(3) show ?thesis by simp
  qed
  have 1: "{a. mappings s1 a \<noteq> mappings s a} = {a. in_region (mmap_hint s) (frame_size n) a}"
    using free by (auto simp: maps)
  have 2: "{a. mappings s3 a \<noteq> mappings s2 a} = {a. in_region (mmap_hint s) (frame_size n) a}"
    by (auto simp: unmapped assms(2) maps)
  have 3: "mappings s3 = mappings s"
    using free by (auto simp: unmapped assms(2) maps)
  from p base 1 2 3 show ?thesis
    by (simp add: sizeof_HEADER_BYTES_def sizeof_ArrayType_def)
qed

subsection \<open>Type discrimination\<close>

text \<open>
  C3, amended. Let the file hold a frame written with type \<open>T\<close>, and let
  \<^verbatim>\<open>mmap_bytes_from_shm\<close> be called for another type \<open>T'\<close>. Whatever happens, the call
  throws \<open>io\<close> and returns no pointer; and unless \<^verbatim>\<open>open\<close> itself failed, the file is
  removed. In general a pointer is only returned for a file of at least 9 bytes that
  starts with the eight magic bytes followed by the tag of the expected type.
\<close>

theorem type_discrimination:
  "(file_contents s path = Some (HEADER_BYTES @ char_of_type T # payload)
      \<and> length payload + 9 < 2 ^ 64 \<and> T' \<noteq> T \<and> path \<noteq> []
      \<and> mmap_bytes_from_shm (Some path) n T' s = (r, s')
      \<longrightarrow> is_io r \<and> (fst (sys_open path s) \<noteq> None \<longrightarrow> dir s' path = None))
   \<and> (file_contents s path = Some c
      \<and> mmap_bytes_from_shm (Some path) n t s = (Return p, s1)
      \<longrightarrow> 9 \<le> length c \<and> take 8 c = HEADER_BYTES \<and> c ! 8 = char_of_type t)"
proof (rule conjI; rule impI)
  let ?c = "HEADER_BYTES @ char_of_type T # payload"
  assume a: "file_contents s path = Some ?c
      \<and> length payload + 9 < 2 ^ 64 \<and> T' \<noteq> T \<and> path \<noteq> []
      \<and> mmap_bytes_from_shm (Some path) n T' s = (r, s')"
  then have big: "\<not> size_t (st_size s1 fd) < sizeof_HEADER_BYTES + 1"
    if "sys_open path s = (Some fd, s1)" for fd s1
    using sys_open_st_size [OF that, of ?c]
    by (simp add: sizeof_HEADER_BYTES_def HEADER_BYTES_def size_t_id)
  from a have tag: "char_of_type T' \<noteq> char_of_type T"
    using char_of_type_inj by blast
  show "is_io r \<and> (fst (sys_open path s) \<noteq> None \<longrightarrow> dir s' path = None)"
  proof (cases "Some path" n T' s rule: mmap_bytes_from_shm_cases)
    case empty
    with a show ?thesis by auto
  next
    case (open_failed q s1)
    with a show ?thesis by auto
  next
    case (too_small q fd s1)
    with big [of fd s1] show ?thesis by simp
  next
    case (mmap_failed q fd s1 s2)
    with a show ?thesis by auto
  next
    case (mapped q fd s1 base s2)
    then have o: "sys_open path s = (Some fd, s1)" and pth: "path \<noteq> []"
      and sz: "\<not> size_t (st_size s1 fd) < sizeof_HEADER_BYTES + 1"
      and m: "sys_mmap (frame_size n) fd s1 = (Some base, s2)"
      by simp_all
    from mmap_bytes_from_shm_mapped(1) [OF o pth sz m, of T'] a tag
    show ?thesis
      by (auto simp: file_contents_def HEADER_BYTES_def)
  qed
next
  assume a: "file_contents s path = Some c
      \<and> mmap_bytes_from_shm (Some path) n t s = (Return p, s1)"
  then have "mmap_bytes_from_shm (Some path) n t s = (Return p, s1)" by simp
  from mmap_bytes_from_shm_Return(1) [OF this] a
  show "9 \<le> length c \<and> take 8 c = HEADER_BYTES \<and> c ! 8 = char_of_type t"
    by (auto simp: file_contents_def)
qed

subsection \<open>Failures of the writers\<close>

lemma open_file_for_write_cases:
  obtains
    (empty) "path = []"
  | (open_failed) s1 where "sys_open_creat path s = (None, s1)"
      "open_file_for_write (Some path) bytes_to_write s
         = (Throw (io ''open_file_for_write(): Could not open file for writing''), s1)"
  | (statvfs_failed) fd s1 s2 where "sys_open_creat path s = (Some fd, s1)"
      "sys_fstatvfs fd s1 = (None, s2)"
      "open_file_for_write (Some path) bytes_to_write s
         = (Throw (io ''open_file_for_write(): Could not check file with fstatvfs()''),
            sys_unlink (Some path) (sys_close fd s2))"
  | (no_space) fd s1 s2 r where "sys_open_creat path s = (Some fd, s1)"
      "sys_fstatvfs fd s1 = (Some r, s2)"
      "open_file_for_write (Some path) bytes_to_write s
         = (Throw (out_of_memory ''open_file_for_write(): Insufficient available space in file''),
            sys_unlink (Some path) (sys_close fd s2))"
  | (opened) fd s1 s2 r where "sys_open_creat path s = (Some fd, s1)"
      "sys_fstatvfs fd s1 = (Some r, s2)"
      "open_file_for_write (Some path) bytes_to_write s = (Return fd, s2)"
proof (cases "path = []")
  case True
  then show ?thesis by (rule empty)
next
  case assms: False
  obtain r1 s1 where o: "sys_open_creat path s = (r1, s1)" by force
  show ?thesis
  proof (cases r1)
    case None
    with o assms show ?thesis
      by (intro open_failed [of s1]) (simp_all add: open_file_for_write_def)
  next
    case (Some fd)
    note fd = this
    obtain r2 s2 where f: "sys_fstatvfs fd s1 = (r2, s2)" by force
    show ?thesis
    proof (cases r2)
      case None
      with o fd f assms show ?thesis
        by (intro statvfs_failed [of fd s1 s2]) (simp_all add: open_file_for_write_def)
    next
      case (Some r)
      obtain bsize bavail where r: "r = (bsize, bavail)" by force
      show ?thesis
      proof (cases "size_t (size_t bsize * size_t bavail) < bytes_to_write")
        case True
        with o fd f Some r assms show ?thesis
          by (intro no_space [of fd s1 r s2]) (simp_all add: open_file_for_write_def)
      next
        case False
        with o fd f Some r assms show ?thesis
          by (intro opened [of fd s1 r s2]) (simp_all add: open_file_for_write_def)
      qed
    qed
  qed
qed

text \<open>Writing and seeking touch neither the directory nor the mappings.\<close>

lemma sys_write_fields:
  "dir (snd (sys_write fd bs s)) = dir s"
  "mappings (snd (sys_write fd bs s)) = mappings s"
  "mmap_hint (snd (sys_write fd bs s)) = mmap_hint s"
  by (simp_all add: sys_write_def Let_def split_beta split: option.splits)

lemma sys_lseek_fields:
  "dir (snd (sys_lseek fd off s)) = dir s"
  "mappings (snd (sys_lseek fd off s)) = mappings s"
  "mmap_hint (snd (sys_lseek fd off s)) = mmap_hint s"
  by (simp_all add: sys_lseek_def Let_def split_beta split: option.splits)

lemma write_loop_fields:
  "dir (write_loop fd data position s) = dir s \<and> mappings (write_loop fd data position s) = mappings s"
proof (induction fd data position s rule: write_loop.induct)
  case (1 fd data position s)
  show ?case
  proof (cases "position < length data")
    case False
    then show ?thesis by (simp add: write_loop.simps)
  next
    case True
    obtain w s1 where r: "sys_write fd (drop position data) s = (w, s1)" by force
    from sys_write_fields [of fd "drop position data" s] r
    have f: "dir s1 = dir s" "mappings s1 = mappings s" by simp_all
    show ?thesis
    proof (cases "w < 0")
      case neg: True
      with True r f show ?thesis by (simp add: write_loop.simps [of fd data position s])
    next
      case nonneg: False
      note IH = "1.IH" [OF True refl refl, unfolded r fst_conv snd_conv, OF nonneg]
      from IH True r nonneg f
      show ?thesis by (simp add: write_loop.simps [of fd data position s])
    qed
  qed
qed

lemma mem_store_fields:
  "mem_store s a b = Some s' \<Longrightarrow> dir s' = dir s \<and> mappings s' = mappings s"
  by (auto simp: mem_store_def split: option.splits if_splits)

lemma mem_write_fields:
  "mem_write s a bs = Some s' \<Longrightarrow> dir s' = dir s \<and> mappings s' = mappings s"
proof (induction bs arbitrary: s a)
  case Nil
  then show ?case by simp
next
  case (Cons b bs)
  then obtain s1 where 1: "mem_store s a b = Some s1" and 2: "mem_write s1 (Suc a) bs = Some s'"
    by (auto split: option.splits)
  from Cons.IH [OF 2] mem_store_fields [OF 1] show ?case by simp
qed

lemma sys_mmap_map_le:
  assumes "sys_mmap len fd s = (Some base, s1)"
  shows "mappings s \<subseteq>\<^sub>m mappings s1" and "mappings s1 base \<noteq> None" and "mappings s base = None"
proof -
  from sys_mmap_Some(1) [OF assms] obtain ino off
    where maps: "mappings s1 = (\<lambda>a. if in_region base len a then Some (ino, a - base)
                                  else mappings s a)"
    by blast
  note free = sys_mmap_Some(7) [OF assms]
  have pos: "0 < page_round len"
    using page_round_pos [OF sys_mmap_Some(5) [OF assms]] by (simp add: page_size_def)
  show "mappings s \<subseteq>\<^sub>m mappings s1"
    using free by (auto simp: map_le_def maps region_free_def in_region_def)
  from pos have "in_region base len base"
    using in_region_offset [of base len 0] by simp
  then show "mappings s1 base \<noteq> None" by (simp add: maps)
  from pos free show "mappings s base = None"
    by (simp add: region_free_def)
qed

lemma write_bytes_to_shm_lambda_cases:
  assumes c: "create_filename s = (Return f, s0)"
    and o: "open_file_for_write (Some f) (frame_size n) s0 = (Return fd, s2)"
  obtains
    (failed) e s' where
      "write_bytes_to_shm_lambda lam n t s = (Throw e, sys_unlink (Some f) s')"
      "mappings s2 \<subseteq>\<^sub>m mappings s'"
  | (killed) s' where "write_bytes_to_shm_lambda lam n t s = (Killed, s')"
  | (written) sought s3 s4 addr s5 s7 s8 s9 s10 where
      "sys_lseek fd (frame_size n) s2 = (sought, s3)" "sought \<noteq> - 1"
      "sys_write fd [0] s3 = (1, s4)"
      "size_t (st_size s4 fd) = size_t (frame_size n + 1)"
      "sys_mmap (frame_size n) fd s4 = (Some addr, s5)"
      "mem_write (sys_close fd s5) addr HEADER_BYTES = Some s7"
      "mem_write s7 (ptr_add addr sizeof_HEADER_BYTES) [char_of_type t] = Some s8"
      "mem_write s8 (ptr_add (ptr_add addr sizeof_HEADER_BYTES) 1)
         (lam (ptr_add (ptr_add addr sizeof_HEADER_BYTES) 1)) = Some s9"
      "sys_munmap addr (frame_size n) s9 = (True, s10)"
      "write_bytes_to_shm_lambda lam n t s = (Return f, s10)"
proof -
  note defs = write_bytes_to_shm_lambda_def Let_def
  note o' = o [unfolded frame_size_def]
  obtain sought s3 where l: "sys_lseek fd (frame_size n) s2 = (sought, s3)" by force
  note l' = l [unfolded frame_size_def]
  have m3: "mappings s3 = mappings s2"
    using sys_lseek_fields(2) [of fd "frame_size n" s2] l by simp
  show ?thesis
  proof (cases "sought = - 1")
    case True
    with c o' l' show ?thesis
      by (intro failed [of _ "sys_close fd s3"]) (simp_all add: defs m3)
  next
    case seek: False
    obtain w s4 where w: "sys_write fd [0] s3 = (w, s4)" by force
    have m4: "mappings s4 = mappings s2"
      using sys_write_fields(2) [of fd "[0]" s3] w m3 by simp
    show ?thesis
    proof (cases "w = 1")
      case False
      with c o' l' seek w show ?thesis
        by (intro failed [of _ "sys_close fd s4"]) (simp_all add: defs m4)
    next
      case one: True
      show ?thesis
      proof (cases "size_t (st_size s4 fd) = size_t (frame_size n + 1)")
        case False
        with c o' l' seek w one show ?thesis
          by (intro failed [of _ "sys_close fd s4"]) (simp_all add: defs frame_size_def m4)
      next
        case size: True
        note size' = size [unfolded frame_size_def]
        obtain r5 s5 where m: "sys_mmap (frame_size n) fd s4 = (r5, s5)" by force
        note m' = m [unfolded frame_size_def]
        show ?thesis
        proof (cases r5)
          case None
          with m have "sys_mmap (frame_size n) fd s4 = (None, s5)" by simp
          from sys_mmap_None(3) [OF this] m4 have m5: "mappings s5 = mappings s2" by simp
          from None c o' l' seek w one size' m' show ?thesis
            by (intro failed [of _ "sys_close fd s5"]) (simp_all add: defs m5)
        next
          case (Some addr)
          note addr = this
          show ?thesis
          proof (cases "mem_write (sys_close fd s5) addr HEADER_BYTES")
            case None
            with c o' l' seek w one size' m' addr show ?thesis
              by (intro killed [of "sys_close fd s5"]) (simp add: defs)
          next
            case (Some s7)
            note s7 = this
            show ?thesis
            proof (cases "mem_write s7 (ptr_add addr sizeof_HEADER_BYTES) [char_of_type t]")
              case None
              with c o' l' seek w one size' m' addr s7 show ?thesis
                by (intro killed [of s7]) (simp add: defs)
            next
              case (Some s8)
              note s8 = this
              show ?thesis
              proof (cases "mem_write s8 (ptr_add (ptr_add addr sizeof_HEADER_BYTES) 1)
                  (lam (ptr_add (ptr_add addr sizeof_HEADER_BYTES) 1))")
                case None
                with c o' l' seek w one size' m' addr s7 s8 show ?thesis
                  by (intro killed [of s8]) (simp add: defs)
              next
                case (Some s9)
                note s9 = this
                obtain ok s10 where u: "sys_munmap addr (frame_size n) s9 = (ok, s10)"
                  by force
                note u' = u [unfolded frame_size_def]
                show ?thesis
                proof (cases ok)
                  case False
                  from m addr have "sys_mmap (frame_size n) fd s4 = (Some addr, s5)" by simp
                  from sys_mmap_map_le(1) [OF this] m4
                  have "mappings s2 \<subseteq>\<^sub>m mappings (sys_close fd s5)" by simp
                  moreover from u False have "sys_munmap addr (frame_size n) s9 = (False, s10)"
                    by simp
                  from sys_munmap_False(1) [OF this] mem_write_fields [OF s9] mem_write_fields [OF s8]
                    mem_write_fields [OF s7]
                  have "mappings s10 = mappings (sys_close fd s5)" by simp
                  ultimately have m10: "mappings s2 \<subseteq>\<^sub>m mappings s10" by simp
                  from False c o' l' seek w one size' m' addr s7 s8 s9 u' show ?thesis
                    by (intro failed [of _ s10]) (simp_all add: defs m10)
                next
                  case True
                  have "write_bytes_to_shm_lambda lam n t s = (Return f, s10)"
                    using c o' l' seek w one size' m' addr s7 s8 s9 u' True
                    by (simp add: defs)
                  with l seek w one size m addr s7 s8 s9 u True show ?thesis
                    by (intro written [of sought s3 s4 addr s5 s7 s8 s9 s10]) simp_all
                qed
              qed
            qed
          qed
        qed
      qed
    qed
  qed
qed

section \<open>What the writers leave in the file\<close>

subsection \<open>Writing through a descriptor\<close>

lemma store_at_end: "store_at c (length c) bs = c @ bs"
  by (simp add: store_at_def)

lemma sys_write_at_end:
  assumes "fds s fd = Some (ino, length (inodes s ino))" and "sys_write fd bs s = (w, s1)"
  shows "\<exists>k\<le>length bs. inodes s1 ino = inodes s ino @ take k bs
           \<and> fds s1 fd = Some (ino, length (inodes s1 ino))
           \<and> (0 \<le> w \<longrightarrow> nat w = k) \<and> (w < 0 \<longrightarrow> k = 0)"
    and "dir s1 = dir s"
proof -
  show "dir s1 = dir s"
    using assms
    by (auto simp: sys_write_def Let_def split_beta split: if_splits option.splits)
  show "\<exists>k\<le>length bs. inodes s1 ino = inodes s ino @ take k bs
           \<and> fds s1 fd = Some (ino, length (inodes s1 ino))
           \<and> (0 \<le> w \<longrightarrow> nat w = k) \<and> (w < 0 \<longrightarrow> k = 0)"
  proof (cases "bs = []")
    case True
    with assms show ?thesis
      by (intro exI [of _ 0]) (simp add: sys_write_def)
  next
    case False
    show ?thesis
    proof (cases "fst (next_fault s) = Fails")
      case True
      with assms False show ?thesis
        by (intro exI [of _ 0]) (auto simp: sys_write_def split_beta)
    next
      case nf: False
      let ?k = "case fst (next_fault s) of Partial m \<Rightarrow> min (length bs) (max 1 m)
                | _ \<Rightarrow> length bs"
      have k: "?k \<le> length bs"
        by (simp split: fault.splits)
      from assms False nf have w: "w = int ?k"
        and s1: "s1 = (snd (next_fault s))\<lparr>
            inodes := (inodes s)(ino := store_at (inodes s ino) (length (inodes s ino)) (take ?k bs)),
            fds := (fds s)(fd \<mapsto> (ino, length (inodes s ino) + ?k))\<rparr>"
        by (auto simp: sys_write_def Let_def split_beta)
      show ?thesis
        using k by (intro exI [of _ ?k]) (simp add: w s1 store_at_end min_absorb2)
    qed
  qed
qed

lemma write_loop_at_end:
  assumes "fds s fd = Some (ino, length (inodes s ino))" and "position \<le> length data"
  shows "\<exists>k. position + k \<le> length data
           \<and> inodes (write_loop fd data position s) ino
               = inodes s ino @ take k (drop position data)
           \<and> fds (write_loop fd data position s) fd
               = Some (ino, length (inodes (write_loop fd data position s) ino))
           \<and> dir (write_loop fd data position s) = dir s"
  using assms
proof (induction fd data position s rule: write_loop.induct)
  case (1 fd data position s)
  show ?case
  proof (cases "position < length data")
    case False
    then have "write_loop fd data position s = s"
      by (simp add: write_loop.simps [of fd data position s])
    with "1.prems" show ?thesis
      by (intro exI [of _ 0]) simp
  next
    case True
    obtain w s1 where r: "sys_write fd (drop position data) s = (w, s1)" by force
    from sys_write_at_end(1) [OF "1.prems"(1) r] obtain k
      where k: "k \<le> length (drop position data)"
        "inodes s1 ino = inodes s ino @ take k (drop position data)"
        "fds s1 fd = Some (ino, length (inodes s1 ino))"
        "0 \<le> w \<longrightarrow> nat w = k" "w < 0 \<longrightarrow> k = 0"
      by blast
    note d = sys_write_at_end(2) [OF "1.prems"(1) r]
    show ?thesis
    proof (cases "w < 0")
      case neg: True
      with True r have "write_loop fd data position s = s1"
        by (simp add: write_loop.simps [of fd data position s])
      with k neg d "1.prems" show ?thesis
        by (intro exI [of _ 0]) simp
    next
      case nonneg: False
      with k have w: "nat w = k" by simp
      from True nonneg r have unfold: "write_loop fd data position s
          = write_loop fd data (position + k) s1"
        by (simp add: write_loop.simps [of fd data position s] w)
      have le: "position + k \<le> length data"
        using k(1) True by simp
      note IH = "1.IH" [OF True refl refl, unfolded r fst_conv snd_conv, OF nonneg, unfolded w,
          OF k(3) le]
      then obtain k2 where k2: "position + k + k2 \<le> length data"
        "inodes (write_loop fd data (position + k) s1) ino
           = inodes s1 ino @ take k2 (drop (position + k) data)"
        "fds (write_loop fd data (position + k) s1) fd
           = Some (ino, length (inodes (write_loop fd data (position + k) s1) ino))"
        "dir (write_loop fd data (position + k) s1) = dir s1"
        by (elim exE conjE)
      have "take k (drop position data) @ take k2 (drop (position + k) data)
          = take (k + k2) (drop position data)"
        by (simp add: take_add add.commute [of position k])
      with k2 k(2) d show ?thesis
        unfolding unfold by (intro exI [of _ "k + k2"]) (simp add: add.assoc)
    qed
  qed
qed

subsection \<open>The buffered writer\<close>

lemma open_file_for_write_Return:
  assumes "open_file_for_write (Some path) bytes_to_write s = (Return fd, s')"
  shows "\<exists>ino. dir s' path = Some ino \<and> inodes s' ino = [] \<and> fds s' fd = Some (ino, 0)"
    and "mappings s' = mappings s" and "mmap_hint s' = mmap_hint s" and "path \<noteq> []"
proof -
  have "(\<exists>ino. dir s' path = Some ino \<and> inodes s' ino = [] \<and> fds s' fd = Some (ino, 0))
    \<and> mappings s' = mappings s \<and> mmap_hint s' = mmap_hint s \<and> path \<noteq> []"
  proof (cases rule: open_file_for_write_cases
      [where path = path and s = s and bytes_to_write = bytes_to_write])
    case empty
    with assms show ?thesis by (simp add: open_file_for_write_def)
  next
    case (open_failed s1)
    with assms show ?thesis by simp
  next
    case (statvfs_failed fd1 s1 s2)
    with assms show ?thesis by simp
  next
    case (no_space fd1 s1 s2 r)
    with assms show ?thesis by simp
  next
    case (opened fd1 s1 s2 r)
    with assms have eq: "fd1 = fd" "s2 = s'" by simp_all
    from sys_open_creat_Some [OF opened(1)] sys_fstatvfs_fields [OF opened(2)] eq
    have "(\<exists>ino. dir s' path = Some ino \<and> inodes s' ino = [] \<and> fds s' fd = Some (ino, 0))
      \<and> mappings s' = mappings s \<and> mmap_hint s' = mmap_hint s"
      by auto
    moreover have "path \<noteq> []"
      using opened(1) by (auto simp: sys_open_creat_def split_beta)
    ultimately show ?thesis by simp
  qed
  then show "\<exists>ino. dir s' path = Some ino \<and> inodes s' ino = [] \<and> fds s' fd = Some (ino, 0)"
    and "mappings s' = mappings s" and "mmap_hint s' = mmap_hint s" and "path \<noteq> []"
    by blast+
qed

lemma create_filename_fields:
  assumes "create_filename s = (r, s')"
  shows "dir s' = dir s" and "inodes s' = inodes s" and "mappings s' = mappings s"
    and "mmap_hint s' = mmap_hint s"
  using assms
  by (auto simp: create_filename_def sys_gettimeofday_def sys_rand_def Let_def split_beta
      split: if_splits list.splits)

text \<open>A successful buffered write leaves exactly the magic bytes, the tag and the data.\<close>

lemma write_bytes_to_shm_Return:
  assumes w: "write_bytes_to_shm data t s = (Return f, s')" and n: "length data + 9 < 2 ^ 64"
  shows "file_contents s' f = Some (HEADER_BYTES @ [char_of_type t] @ data)"
    and "f \<noteq> []"
proof -
  obtain r0 s0 where c: "create_filename s = (r0, s0)" by force
  with w obtain g where g: "r0 = Return g"
    by (cases r0) (auto simp: write_bytes_to_shm_def)
  let ?btw = "size_t (length data + sizeof_HEADER_BYTES + sizeof_ArrayType)"
  have btw: "?btw = length data + 9"
    using n by (simp add: size_t_id sizeof_HEADER_BYTES_def sizeof_ArrayType_def)
  obtain r1 s2 where o: "open_file_for_write (Some g) ?btw s0 = (r1, s2)" by force
  with w c g obtain fd where fd: "r1 = Return fd"
    by (cases r1) (auto simp: write_bytes_to_shm_def Let_def)
  let ?s3 = "snd (sys_write fd HEADER_BYTES s2)"
  let ?s4 = "snd (sys_write fd [char_of_type t] ?s3)"
  let ?s5 = "write_loop fd data 0 ?s4"
  from w c g o fd have size: "size_t (st_size ?s5 fd) = ?btw" and f: "g = f"
    and s': "s' = sys_close fd ?s5"
    by (auto simp: write_bytes_to_shm_def Let_def split: if_splits)
  from o fd have o': "open_file_for_write (Some g) ?btw s0 = (Return fd, s2)" by simp
  from open_file_for_write_Return(1) [OF o'] obtain ino
    where ino: "dir s2 g = Some ino" "inodes s2 ino = []" "fds s2 fd = Some (ino, 0)"
    by (elim exE conjE)
  note O = open_file_for_write_Return(2-) [OF o']
  have e2: "fds s2 fd = Some (ino, length (inodes s2 ino))"
    using ino by simp
  from sys_write_at_end(1) [OF e2, of HEADER_BYTES "fst (sys_write fd HEADER_BYTES s2)" ?s3]
  obtain k1 where k1: "k1 \<le> length HEADER_BYTES" "inodes ?s3 ino = take k1 HEADER_BYTES"
    "fds ?s3 fd = Some (ino, length (inodes ?s3 ino))"
    using ino(2) by auto
  have d3: "dir ?s3 = dir s2"
    by (rule sys_write_at_end(2) [OF e2, of HEADER_BYTES "fst (sys_write fd HEADER_BYTES s2)"])
      simp
  from sys_write_at_end(1) [OF k1(3), of "[char_of_type t]"
      "fst (sys_write fd [char_of_type t] ?s3)" ?s4]
  obtain k2 where k2: "k2 \<le> 1"
    "inodes ?s4 ino = take k1 HEADER_BYTES @ take k2 [char_of_type t]"
    "fds ?s4 fd = Some (ino, length (inodes ?s4 ino))"
    using k1(2) by auto
  have d4: "dir ?s4 = dir ?s3"
    by (rule sys_write_at_end(2) [OF k1(3), of "[char_of_type t]"
          "fst (sys_write fd [char_of_type t] ?s3)"]) simp
  from write_loop_at_end [OF k2(3), of 0 data]
  obtain k3 where k3: "k3 \<le> length data"
    "inodes ?s5 ino = take k1 HEADER_BYTES @ take k2 [char_of_type t] @ take k3 data"
    "fds ?s5 fd = Some (ino, length (inodes ?s5 ino))"
    "dir ?s5 = dir ?s4"
    using k2(2) by auto
  have l8: "length HEADER_BYTES = 8" by (simp add: HEADER_BYTES_def)
  have "st_size ?s5 fd = k1 + k2 + k3"
    using k1(1) k2(1) k3(1) by (simp add: st_size_def k3(2,3) l8 min_absorb2)
  moreover have "k1 + k2 + k3 < 2 ^ 64"
    using k1(1) k2(1) k3(1) n l8 by simp
  ultimately have "k1 + k2 + k3 = length data + 9"
    using size btw by (simp add: size_t_id)
  with k1(1) k2(1) k3(1) l8 have "k1 = 8" "k2 = 1" "k3 = length data"
    by simp_all
  with k3(2) l8 have "inodes ?s5 ino = HEADER_BYTES @ [char_of_type t] @ data"
    by simp
  moreover have "dir ?s5 f = Some ino"
    using k3(4) d4 d3 ino(1) f by simp
  ultimately show "file_contents s' f = Some (HEADER_BYTES @ [char_of_type t] @ data)"
    by (simp add: file_contents_def s')
  show "f \<noteq> []" using O(3) f by simp
qed

lemma write_loop_no_fault:
  assumes "faults s = []" and "fds s fd \<noteq> None"
  shows "write_loop fd data position s
    = (if position < length data then snd (sys_write fd (drop position data) s) else s)"
proof (cases "position < length data")
  case False
  then show ?thesis by (simp add: write_loop.simps [of fd data position s])
next
  case True
  from assms obtain ino off where fd: "fds s fd = Some (ino, off)" by auto
  let ?bs = "drop position data"
  from True have ne: "?bs \<noteq> []" by simp
  have w: "fst (sys_write fd ?bs s) = int (length data - position)"
    using fd ne assms(1) by (simp add: sys_write_def next_fault_no_faults)
  have "position + nat (int (length data - position)) = length data"
    using True by simp
  then have "write_loop fd data position s
      = write_loop fd data (length data) (snd (sys_write fd ?bs s))"
    using True w by (simp add: write_loop.simps [of fd data position s] Let_def)
  also have "\<dots> = snd (sys_write fd ?bs s)"
    by (simp add: write_loop.simps [of fd data "length data"])
  finally show ?thesis using True by simp
qed

subsection \<open>The writer with a callback\<close>

lemma sys_lseek_ok:
  assumes "sys_lseek fd off s = (sought, s1)" and "sought \<noteq> - 1"
    and "fds s fd = Some (ino, old)"
  shows "fds s1 fd = Some (ino, off)" and "inodes s1 = inodes s" and "dir s1 = dir s"
  using assms
  by (auto simp: sys_lseek_def Let_def split_beta split: if_splits option.splits)

lemma sys_write_whole:
  assumes "sys_write fd bs s = (int (length bs), s1)" and "fds s fd = Some (ino, off)"
    and "bs \<noteq> []"
  shows "inodes s1 ino = store_at (inodes s ino) off bs" and "dir s1 = dir s"
    and "fds s1 fd = Some (ino, off + length bs)"
proof -
  from assms have nf: "fst (next_fault s) \<noteq> Fails"
    by (auto simp: sys_write_def Let_def split_beta split: if_splits)
  let ?k = "case fst (next_fault s) of Partial m \<Rightarrow> min (length bs) (max 1 m)
            | _ \<Rightarrow> length bs"
  from assms nf have k: "?k = length bs"
    and s1: "s1 = (snd (next_fault s))\<lparr>
        inodes := (inodes s)(ino := store_at (inodes s ino) off (take ?k bs)),
        fds := (fds s)(fd \<mapsto> (ino, off + ?k))\<rparr>"
    by (auto simp: sys_write_def Let_def split_beta)
  show "inodes s1 ino = store_at (inodes s ino) off bs" and "dir s1 = dir s"
    and "fds s1 fd = Some (ino, off + length bs)"
    unfolding s1 k by simp_all
qed

text \<open>Storing bytes through a mapping changes those bytes of the file and nothing else.\<close>

lemma mem_write_mapped:
  assumes "\<And>i. i < length bs \<Longrightarrow> mappings s (a + i) = Some (ino, off + i)"
    and "off + length bs \<le> length (inodes s ino)"
  shows "mem_write s a bs
    = Some (s\<lparr>inodes := (inodes s)(ino := take off (inodes s ino) @ bs
                                         @ drop (off + length bs) (inodes s ino))\<rparr>)"
  using assms
proof (induction bs arbitrary: s a off)
  case Nil
  then show ?case by simp
next
  case (Cons b bs)
  let ?c = "inodes s ino"
  let ?s1 = "s\<lparr>inodes := (inodes s)(ino := ?c[off := b])\<rparr>"
  from Cons.prems(1) [of 0] have m0: "mappings s a = Some (ino, off)" by simp
  from Cons.prems(2) have lt: "off < length ?c" by simp
  have st: "mem_store s a b = Some ?s1"
    using m0 lt by (simp add: mem_store_def)
  have maps: "mappings ?s1 (Suc a + i) = Some (ino, Suc off + i)" if "i < length bs" for i
    using Cons.prems(1) [of "Suc i"] that by simp
  have len: "Suc off + length bs \<le> length (inodes ?s1 ino)"
    using Cons.prems(2) by simp
  have "take (Suc off) (?c[off := b]) = take off ?c @ [b]"
    using lt by (simp add: take_Suc_conv_app_nth)
  moreover have "drop (Suc off + length bs) (?c[off := b]) = drop (off + length (b # bs)) ?c"
    by simp
  ultimately show ?case
    using Cons.IH [of ?s1 "Suc a" "Suc off", OF maps len] st by (simp cong: if_cong)
qed

text \<open>
  A successful write through the callback leaves the same frame, followed by the zero
  byte that stretched the file.
\<close>

lemma write_bytes_to_shm_lambda_Return:
  assumes w: "write_bytes_to_shm_lambda lam n t s = (Return f, s')" and n: "n + 9 < 2 ^ 64"
    and lam: "\<And>p. length (lam p) = n"
  shows "\<exists>p. file_contents s' f = Some (HEADER_BYTES @ [char_of_type t] @ lam p @ [0])"
    and "f \<noteq> []"
proof -
  obtain r0 s0 where c: "create_filename s = (r0, s0)" by force
  with w obtain g where g: "r0 = Return g"
    by (cases r0) (auto simp: write_bytes_to_shm_lambda_def)
  obtain r1 s2 where o: "open_file_for_write (Some g) (frame_size n) s0 = (r1, s2)" by force
  with w c g obtain fd where fd: "r1 = Return fd"
    by (cases r1) (auto simp: write_bytes_to_shm_lambda_def Let_def frame_size_def)
  from c g have c': "create_filename s = (Return g, s0)" by simp
  from o fd have o': "open_file_for_write (Some g) (frame_size n) s0 = (Return fd, s2)" by simp
  have L: "frame_size n = n + 9" using n by (rule frame_size_small)
  have l8: "length HEADER_BYTES = 8" by (simp add: HEADER_BYTES_def)
  from open_file_for_write_Return(1) [OF o'] obtain ino
    where ino: "dir s2 g = Some ino" "inodes s2 ino = []" "fds s2 fd = Some (ino, 0)"
    by (elim exE conjE)
  have g_ne: "g \<noteq> []" by (rule open_file_for_write_Return(4) [OF o'])
  from c' o' have "(\<exists>p. file_contents s' f = Some (HEADER_BYTES @ [char_of_type t] @ lam p @ [0]))
      \<and> f = g"
  proof (cases rule: write_bytes_to_shm_lambda_cases [where lam = lam and t = t])
    case (failed e s1)
    with w show ?thesis by simp
  next
    case (killed s1)
    with w show ?thesis by simp
  next
    case (written sought s3 s4 addr s5 s7 s8 s9 s10)
    with w have f: "f = g" and s': "s' = s10" by simp_all
    note k3 = sys_lseek_ok [OF written(1,2) ino(3)]
    from written(3) have wr: "sys_write fd [0] s3 = (int (length [0 :: byte]), s4)" by simp
    note k4 = sys_write_whole [OF wr k3(1)]
    have c4: "inodes s4 ino = replicate (n + 9) 0 @ [0]"
      using k4(1) k3(2) ino(2) by (simp add: store_at_def L)
    from sys_mmap_Some(1) [OF written(5)] k4(3)
    have maps: "mappings s5 = (\<lambda>a. if in_region addr (frame_size n) a then Some (ino, a - addr)
        else mappings s4 a)"
      by auto
    note k5 = sys_mmap_Some(2-) [OF written(5)]
    let ?s6 = "sys_close fd s5"
    let ?c6 = "replicate (n + 9) 0 @ [0 :: byte]"
    have c5: "inodes s5 ino = ?c6"
      using c4 k5 by simp
    have c6: "inodes ?s6 ino = ?c6"
      using c4 k5 by simp
    have region: "mappings s5 (addr + i) = Some (ino, i)" if "i < n + 9" for i
    proof -
      from that have "i < page_round (frame_size n)"
        using page_round_ge [of "frame_size n"] L by simp
      then show ?thesis by (simp add: maps in_region_offset)
    qed
    have nowrap: "addr + 9 < 2 ^ 64"
      using k5(5) page_round_pos [OF k5(4)] by (simp add: page_size_def)
    have p8: "ptr_add addr sizeof_HEADER_BYTES = addr + 8"
      using nowrap by (simp add: ptr_add_small sizeof_HEADER_BYTES_def)
    have p9: "ptr_add (addr + 8) (Suc 0) = addr + 9"
      using nowrap by (simp add: ptr_add_small)
    have "mem_write ?s6 addr HEADER_BYTES
        = Some (?s6\<lparr>inodes := (inodes ?s6)(ino := take 0 (inodes ?s6 ino) @ HEADER_BYTES
              @ drop (0 + length HEADER_BYTES) (inodes ?s6 ino))\<rparr>)"
    proof (rule mem_write_mapped)
      fix i assume "i < length HEADER_BYTES"
      then show "mappings ?s6 (addr + i) = Some (ino, 0 + i)"
        using region [of i] by (simp add: l8)
    next
      show "0 + length HEADER_BYTES \<le> length (inodes ?s6 ino)"
        by (simp add: c5 c6 l8)
    qed
    with written(6) have s7: "s7 = ?s6\<lparr>inodes := (inodes ?s6)(ino := HEADER_BYTES @ drop 8 ?c6)\<rparr>"
      by (simp add: c5 c6 l8)
    let ?c7 = "HEADER_BYTES @ drop 8 ?c6"
    have c7: "inodes s7 ino = ?c7" and m7: "mappings s7 = mappings s5" and d7: "dir s7 = dir s5"
      by (simp_all add: s7)
    have "mem_write s7 (addr + 8) [char_of_type t]
        = Some (s7\<lparr>inodes := (inodes s7)(ino := take 8 (inodes s7 ino) @ [char_of_type t]
              @ drop (8 + length [char_of_type t]) (inodes s7 ino))\<rparr>)"
    proof (rule mem_write_mapped)
      fix i assume "i < length [char_of_type t]"
      then show "mappings s7 (addr + 8 + i) = Some (ino, 8 + i)"
        using region [of 8] by (simp add: m7)
    next
      show "8 + length [char_of_type t] \<le> length (inodes s7 ino)"
        by (simp add: c7 l8)
    qed
    with written(7) have s8: "s8 = s7\<lparr>inodes := (inodes s7)(ino := HEADER_BYTES
        @ [char_of_type t] @ drop 9 ?c6)\<rparr>"
      by (simp add: p8 c7 l8)
    let ?c8 = "HEADER_BYTES @ [char_of_type t] @ drop 9 ?c6"
    have c8: "inodes s8 ino = ?c8" and m8: "mappings s8 = mappings s5" and d8: "dir s8 = dir s5"
      by (simp_all add: s8 m7 d7)
    let ?p = "addr + 9"
    have "mem_write s8 ?p (lam ?p)
        = Some (s8\<lparr>inodes := (inodes s8)(ino := take 9 (inodes s8 ino) @ lam ?p
              @ drop (9 + length (lam ?p)) (inodes s8 ino))\<rparr>)"
    proof (rule mem_write_mapped)
      fix i assume "i < length (lam ?p)"
      then show "mappings s8 (?p + i) = Some (ino, 9 + i)"
        using region [of "9 + i"] by (simp add: m8 lam add.assoc)
    next
      show "9 + length (lam ?p) \<le> length (inodes s8 ino)"
        by (simp add: c8 l8 lam)
    qed
    with written(8) have s9: "s9 = s8\<lparr>inodes := (inodes s8)(ino := HEADER_BYTES
        @ [char_of_type t] @ lam ?p @ [0])\<rparr>"
      by (simp add: p8 p9 c8 l8 lam)
    note k10 = sys_munmap_True [OF written(9)]
    have "inodes s10 ino = HEADER_BYTES @ [char_of_type t] @ lam ?p @ [0]"
      using k10(3) by (simp add: s9)
    moreover have "dir s10 g = Some ino"
      using k10(2) k5(7) k4(2) k3(3) ino(1) by (simp add: s9 d8)
    ultimately have "file_contents s' f = Some (HEADER_BYTES @ [char_of_type t] @ lam ?p @ [0])"
      by (simp add: file_contents_def s' f)
    with f show ?thesis by blast
  qed
  with g_ne show "\<exists>p. file_contents s' f = Some (HEADER_BYTES @ [char_of_type t] @ lam p @ [0])"
    and "f \<noteq> []"
    by blast+
qed

subsection \<open>The frame on disk\<close>

text \<open>
  C1. Let \<open>n + 9\<close> fit \<^verbatim>\<open>size_t\<close>. After a successful buffered write of \<open>n\<close> bytes the file
  holds the 8 bytes of the magic, the byte of the type and the payload, \<open>9 + n\<close> bytes.
  After a successful write through a callback that fills \<open>n\<close> bytes the file begins with
  the same frame, and one zero byte follows it: the byte that \<^verbatim>\<open>lseek\<close> and \<^verbatim>\<open>write\<close> use to
  stretch the file, so that it is \<open>10 + n\<close> bytes long.
\<close>

theorem writers_frame_layout:
  assumes "n + 9 < 2 ^ 64"
  shows "(write_bytes_to_shm data t s = (Return f, s') \<and> length data = n
            \<longrightarrow> file_contents s' f = Some (HEADER_BYTES @ [char_of_type t] @ data)
              \<and> map_option length (file_contents s' f) = Some (9 + n))
       \<and> (write_bytes_to_shm_lambda lam n t s = (Return f, s') \<and> (\<forall>p. length (lam p) = n)
            \<longrightarrow> (\<exists>p. file_contents s' f = Some (HEADER_BYTES @ [char_of_type t] @ lam p @ [0]))
              \<and> map_option length (file_contents s' f) = Some (10 + n))"
proof (rule conjI; rule impI)
  assume a: "write_bytes_to_shm data t s = (Return f, s') \<and> length data = n"
  with assms have "length data + 9 < 2 ^ 64" by simp
  from write_bytes_to_shm_Return(1) [OF a [THEN conjunct1] this] a
  show "file_contents s' f = Some (HEADER_BYTES @ [char_of_type t] @ data)
      \<and> map_option length (file_contents s' f) = Some (9 + n)"
    by (simp add: HEADER_BYTES_def)
next
  assume a: "write_bytes_to_shm_lambda lam n t s = (Return f, s') \<and> (\<forall>p. length (lam p) = n)"
  then have lam: "length (lam p) = n" for p by simp
  from write_bytes_to_shm_lambda_Return(1) [OF a [THEN conjunct1] assms lam]
  obtain p where p: "file_contents s' f = Some (HEADER_BYTES @ [char_of_type t] @ lam p @ [0])"
    by blast
  then have "map_option length (file_contents s' f) = Some (10 + n)"
    by (simp add: HEADER_BYTES_def lam)
  with p show "(\<exists>p. file_contents s' f = Some (HEADER_BYTES @ [char_of_type t] @ lam p @ [0]))
      \<and> map_option length (file_contents s' f) = Some (10 + n)"
    by blast
qed

subsection \<open>Writing and reading back\<close>

text \<open>
  C2. Let the buffered writer have written \<open>data\<close> with the type \<open>t\<close> and returned the name
  \<open>f\<close>. Whenever \<^verbatim>\<open>read_bytes_from_shm\<close> then returns a buffer for \<open>f\<close>, the length of \<open>data\<close>
  and \<open>t\<close>, the buffer is \<open>data\<close>; and it does return one when no system call fails and the
  kernel has a place for the mapping. The payload may be empty.
\<close>

theorem write_read_round_trip:
  assumes "write_bytes_to_shm data t s = (Return f, s1)" and "length data + 9 < 2 ^ 64"
  shows "(\<forall>buf s2. read_bytes_from_shm (Some f) (length data) t s1 = (Return buf, s2)
            \<longrightarrow> buf = data)
       \<and> (faults s1 = [] \<and> can_map s1 (frame_size (length data))
            \<longrightarrow> (\<exists>s2. read_bytes_from_shm (Some f) (length data) t s1 = (Return data, s2)))"
proof -
  let ?c = "HEADER_BYTES @ [char_of_type t] @ data"
  note W = write_bytes_to_shm_Return [OF assms]
  have l: "length ?c = length data + 9" by (simp add: HEADER_BYTES_def)
  have payload: "take (length data) (drop 9 ?c) = data" by (simp add: HEADER_BYTES_def)
  have 1: "buf = data" if "read_bytes_from_shm (Some f) (length data) t s1 = (Return buf, s2)"
    for buf s2
    using read_bytes_from_shm_Return(1) [OF that W(1) _ assms(2)] l payload by simp
  have 2: "\<exists>s2. read_bytes_from_shm (Some f) (length data) t s1 = (Return data, s2)"
    if "faults s1 = []" "can_map s1 (frame_size (length data))"
  proof -
    have "take 8 ?c = HEADER_BYTES" "?c ! 8 = char_of_type t"
      by (simp_all add: HEADER_BYTES_def)
    from read_bytes_from_shm_succeeds [OF W(1) this(1) _ _ this(2) W(2) that]
    show ?thesis using l payload assms(2) by simp
  qed
  from 1 2 show ?thesis by blast
qed

section \<open>Cleaning up after a failure\<close>

subsection \<open>The writers\<close>

lemma write_bytes_to_shm_failure:
  assumes c: "create_filename s = (Return f, s0)"
    and w: "write_bytes_to_shm data t s = (Throw e, s')"
  shows "(fst (sys_open_creat f s0) \<noteq> None \<longrightarrow> dir s' f = None)
       \<and> (fst (sys_open_creat f s0) = None \<longrightarrow> dir s' = dir s)
       \<and> mappings s' = mappings s"
proof -
  from c have f: "f \<noteq> []" by (rule create_filename_Return_nonempty)
  note s0 = create_filename_fields [OF c]
  let ?n = "size_t (length data + sizeof_HEADER_BYTES + sizeof_ArrayType)"
  show ?thesis
  proof (cases rule: open_file_for_write_cases [where path = f and s = s0 and bytes_to_write = ?n])
    case empty
    with f show ?thesis by simp
  next
    case (open_failed s1)
    with c w have "s' = s1" by (simp add: write_bytes_to_shm_def)
    with sys_open_creat_None [OF open_failed(1)] s0 open_failed(1) show ?thesis by simp
  next
    case (statvfs_failed fd s1 s2)
    with c w have s': "s' = sys_unlink (Some f) (sys_close fd s2)"
      by (simp add: write_bytes_to_shm_def)
    from sys_open_creat_Some [OF statvfs_failed(1)] have "mappings s1 = mappings s0" by blast
    with sys_fstatvfs_fields [OF statvfs_failed(2)] s0 have "mappings s2 = mappings s" by simp
    with s' statvfs_failed(1) show ?thesis by simp
  next
    case (no_space fd s1 s2 r)
    with c w have s': "s' = sys_unlink (Some f) (sys_close fd s2)"
      by (simp add: write_bytes_to_shm_def)
    from sys_open_creat_Some [OF no_space(1)] have "mappings s1 = mappings s0" by blast
    with sys_fstatvfs_fields [OF no_space(2)] s0 have "mappings s2 = mappings s" by simp
    with s' no_space(1) show ?thesis by simp
  next
    case (opened fd s1 s2 r)
    let ?s5 = "write_loop fd data 0
      (snd (sys_write fd [char_of_type t] (snd (sys_write fd HEADER_BYTES s2))))"
    from c w opened(3) have s': "s' = sys_unlink (Some f) (sys_close fd ?s5)"
      by (auto simp: write_bytes_to_shm_def Let_def split: if_splits)
    have "mappings ?s5 = mappings s2"
      by (simp add: write_loop_fields sys_write_fields)
    with open_file_for_write_Return(2) [OF opened(3)] s0 have "mappings ?s5 = mappings s"
      by simp
    with s' opened(1) show ?thesis by simp
  qed
qed

lemma write_bytes_to_shm_lambda_failure:
  assumes c: "create_filename s = (Return f, s0)"
    and w: "write_bytes_to_shm_lambda lam n t s = (Throw e, s')"
  shows "(fst (sys_open_creat f s0) \<noteq> None \<longrightarrow> dir s' f = None)
       \<and> (fst (sys_open_creat f s0) = None \<longrightarrow> dir s' = dir s)
       \<and> mappings s \<subseteq>\<^sub>m mappings s'"
proof -
  from c have f: "f \<noteq> []" by (rule create_filename_Return_nonempty)
  note s0 = create_filename_fields [OF c]
  show ?thesis
  proof (cases rule: open_file_for_write_cases
      [where path = f and s = s0 and bytes_to_write = "frame_size n"])
    case empty
    with f show ?thesis by simp
  next
    case (open_failed s1)
    with c w have "s' = s1" by (simp add: write_bytes_to_shm_lambda_def frame_size_def)
    with sys_open_creat_None [OF open_failed(1)] s0 open_failed(1) show ?thesis by simp
  next
    case (statvfs_failed fd s1 s2)
    with c w have s': "s' = sys_unlink (Some f) (sys_close fd s2)"
      by (simp add: write_bytes_to_shm_lambda_def frame_size_def)
    from sys_open_creat_Some [OF statvfs_failed(1)] have "mappings s1 = mappings s0" by blast
    with sys_fstatvfs_fields [OF statvfs_failed(2)] s0 have "mappings s2 = mappings s" by simp
    with s' statvfs_failed(1) show ?thesis by simp
  next
    case (no_space fd s1 s2 r)
    with c w have s': "s' = sys_unlink (Some f) (sys_close fd s2)"
      by (simp add: write_bytes_to_shm_lambda_def frame_size_def)
    from sys_open_creat_Some [OF no_space(1)] have "mappings s1 = mappings s0" by blast
    with sys_fstatvfs_fields [OF no_space(2)] s0 have "mappings s2 = mappings s" by simp
    with s' no_space(1) show ?thesis by simp
  next
    case (opened fd s1 s2 r)
    from open_file_for_write_Return(2) [OF opened(3)] s0 have m2: "mappings s2 = mappings s"
      by simp
    show ?thesis
    using c opened(3)
    proof (cases rule: write_bytes_to_shm_lambda_cases [where lam = lam and t = t])
      case (failed e1 s1')
      with w have "s' = sys_unlink (Some f) s1'" by simp
      with failed(2) m2 opened(1) show ?thesis by simp
    next
      case (killed s1')
      with w show ?thesis by simp
    next
      case (written sought s3 s4 addr s5 s7 s8 s9 s10)
      with w show ?thesis by simp
    qed
  qed
qed

subsection \<open>The readers\<close>

text \<open>
  The four ways in which a reader fails on a name that is not empty: \<^verbatim>\<open>open\<close> fails, the
  file is too small, \<^verbatim>\<open>mmap\<close> fails, or something fails once the file is mapped. What
  each of them leaves behind.
\<close>

lemma reader_failure_facts:
  assumes "(\<exists>s1. sys_open path s = (None, s1) \<and> s' = s1)
    \<or> (\<exists>fd s1. sys_open path s = (Some fd, s1)
          \<and> size_t (st_size s1 fd) < sizeof_HEADER_BYTES + 1 \<and> s' = sys_close fd s1)
    \<or> (\<exists>fd s1 s2. sys_open path s = (Some fd, s1)
          \<and> \<not> size_t (st_size s1 fd) < sizeof_HEADER_BYTES + 1
          \<and> sys_mmap (frame_size n) fd s1 = (None, s2)
          \<and> s' = sys_unlink (Some path) (sys_close fd s2))
    \<or> (\<exists>fd s1 base s2. sys_open path s = (Some fd, s1)
          \<and> \<not> size_t (st_size s1 fd) < sizeof_HEADER_BYTES + 1
          \<and> sys_mmap (frame_size n) fd s1 = (Some base, s2)
          \<and> dir s' path = None \<and> mappings s' = mappings s2)"
  shows "fst (sys_open path s) = None \<longrightarrow> dir s' = dir s \<and> mappings s' = mappings s"
    and "file_contents s path = Some c \<and> 9 \<le> length c \<and> length c < 2 ^ 64
         \<longrightarrow> (fst (sys_open path s) \<noteq> None \<longrightarrow> dir s' path = None)
           \<and> (sys_open path s = (Some fd, s1) \<and> sys_mmap (frame_size n) fd s1 = (Some base, s2)
               \<longrightarrow> mappings s' = mappings s2 \<and> mappings s' base \<noteq> None
                 \<and> mappings s base = None)"
    and "mappings s \<subseteq>\<^sub>m mappings s'"
proof -
  have big: "\<not> size_t (st_size s1 fd) < sizeof_HEADER_BYTES + 1"
    if "sys_open path s = (Some fd, s1)" "file_contents s path = Some c" "9 \<le> length c"
      "length c < 2 ^ 64" for fd s1
    using sys_open_st_size [OF that(1,2)] that(3,4)
    by (simp add: sizeof_HEADER_BYTES_def size_t_id)
  from assms consider
    (open_failed) s1 where "sys_open path s = (None, s1)" "s' = s1"
  | (too_small) fd s1 where "sys_open path s = (Some fd, s1)"
      "size_t (st_size s1 fd) < sizeof_HEADER_BYTES + 1" "s' = sys_close fd s1"
  | (mmap_failed) fd s1 s2 where "sys_open path s = (Some fd, s1)"
      "sys_mmap (frame_size n) fd s1 = (None, s2)"
      "s' = sys_unlink (Some path) (sys_close fd s2)"
  | (mapped) fd s1 base s2 where "sys_open path s = (Some fd, s1)"
      "sys_mmap (frame_size n) fd s1 = (Some base, s2)"
      "dir s' path = None" "mappings s' = mappings s2"
    by blast
  then have "(fst (sys_open path s) = None \<longrightarrow> dir s' = dir s \<and> mappings s' = mappings s)
    \<and> (file_contents s path = Some c \<and> 9 \<le> length c \<and> length c < 2 ^ 64
         \<longrightarrow> (fst (sys_open path s) \<noteq> None \<longrightarrow> dir s' path = None)
           \<and> (sys_open path s = (Some fd, s1) \<and> sys_mmap (frame_size n) fd s1 = (Some base, s2)
               \<longrightarrow> mappings s' = mappings s2 \<and> mappings s' base \<noteq> None
                 \<and> mappings s base = None))
    \<and> mappings s \<subseteq>\<^sub>m mappings s'"
  proof cases
    case (open_failed q1)
    with sys_open_None(1,3) [OF open_failed(1)] show ?thesis by simp
  next
    case (too_small fd' q1)
    with sys_open_Some(4) [OF too_small(1)] big [OF too_small(1)] show ?thesis by auto
  next
    case (mmap_failed fd' q1 q2)
    from sys_mmap_None(3) [OF mmap_failed(2)] sys_open_Some(4) [OF mmap_failed(1)]
    have "mappings q2 = mappings s" by simp
    with mmap_failed show ?thesis by auto
  next
    case (mapped fd' q1 base' q2)
    note le = sys_mmap_map_le [OF mapped(2)]
    note m1 = sys_open_Some(4) [OF mapped(1)]
    from le m1 mapped show ?thesis by auto
  qed
  then show "fst (sys_open path s) = None \<longrightarrow> dir s' = dir s \<and> mappings s' = mappings s"
    and "file_contents s path = Some c \<and> 9 \<le> length c \<and> length c < 2 ^ 64
         \<longrightarrow> (fst (sys_open path s) \<noteq> None \<longrightarrow> dir s' path = None)
           \<and> (sys_open path s = (Some fd, s1) \<and> sys_mmap (frame_size n) fd s1 = (Some base, s2)
               \<longrightarrow> mappings s' = mappings s2 \<and> mappings s' base \<noteq> None
                 \<and> mappings s base = None)"
    and "mappings s \<subseteq>\<^sub>m mappings s'"
    by blast+
qed

lemma mmap_bytes_from_shm_Throw_paths:
  assumes t: "mmap_bytes_from_shm (Some path) n t s = (Throw e, s')" and path: "path \<noteq> []"
  shows "(\<exists>s1. sys_open path s = (None, s1) \<and> s' = s1)
    \<or> (\<exists>fd s1. sys_open path s = (Some fd, s1)
          \<and> size_t (st_size s1 fd) < sizeof_HEADER_BYTES + 1 \<and> s' = sys_close fd s1)
    \<or> (\<exists>fd s1 s2. sys_open path s = (Some fd, s1)
          \<and> \<not> size_t (st_size s1 fd) < sizeof_HEADER_BYTES + 1
          \<and> sys_mmap (frame_size n) fd s1 = (None, s2)
          \<and> s' = sys_unlink (Some path) (sys_close fd s2))
    \<or> (\<exists>fd s1 base s2. sys_open path s = (Some fd, s1)
          \<and> \<not> size_t (st_size s1 fd) < sizeof_HEADER_BYTES + 1
          \<and> sys_mmap (frame_size n) fd s1 = (Some base, s2)
          \<and> dir s' path = None \<and> mappings s' = mappings s2)"
proof (cases "Some path" n t s rule: mmap_bytes_from_shm_cases)
  case empty
  with path show ?thesis by simp
next
  case (open_failed q s1)
  with t have "sys_open path s = (None, s1) \<and> s' = s1" by simp
  then show ?thesis by blast
next
  case (too_small q fd s1)
  with t have "sys_open path s = (Some fd, s1)
      \<and> size_t (st_size s1 fd) < sizeof_HEADER_BYTES + 1 \<and> s' = sys_close fd s1"
    by simp
  then show ?thesis by blast
next
  case (mmap_failed q fd s1 s2)
  with t have "sys_open path s = (Some fd, s1)
      \<and> \<not> size_t (st_size s1 fd) < sizeof_HEADER_BYTES + 1
      \<and> sys_mmap (frame_size n) fd s1 = (None, s2)
      \<and> s' = sys_unlink (Some path) (sys_close fd s2)"
    by simp
  then show ?thesis by blast
next
  case (mapped q fd s1 base s2)
  then have o: "sys_open path s = (Some fd, s1)"
    and sz: "\<not> size_t (st_size s1 fd) < sizeof_HEADER_BYTES + 1"
    and m: "sys_mmap (frame_size n) fd s1 = (Some base, s2)"
    by simp_all
  from mmap_bytes_from_shm_mapped(1) [OF o path sz m, of t] t
  have "s' = sys_unlink (Some path) (sys_close fd s2)"
    by (auto split: if_splits)
  then have "dir s' path = None \<and> mappings s' = mappings s2" by simp
  with o sz m show ?thesis by blast
qed

lemma read_bytes_from_shm_Throw_paths:
  assumes t: "read_bytes_from_shm (Some path) n t s = (Throw e, s')" and path: "path \<noteq> []"
  shows "(\<exists>s1. sys_open path s = (None, s1) \<and> s' = s1)
    \<or> (\<exists>fd s1. sys_open path s = (Some fd, s1)
          \<and> size_t (st_size s1 fd) < sizeof_HEADER_BYTES + 1 \<and> s' = sys_close fd s1)
    \<or> (\<exists>fd s1 s2. sys_open path s = (Some fd, s1)
          \<and> \<not> size_t (st_size s1 fd) < sizeof_HEADER_BYTES + 1
          \<and> sys_mmap (frame_size n) fd s1 = (None, s2)
          \<and> s' = sys_unlink (Some path) (sys_close fd s2))
    \<or> (\<exists>fd s1 base s2. sys_open path s = (Some fd, s1)
          \<and> \<not> size_t (st_size s1 fd) < sizeof_HEADER_BYTES + 1
          \<and> sys_mmap (frame_size n) fd s1 = (Some base, s2)
          \<and> dir s' path = None \<and> mappings s' = mappings s2)"
proof -
  obtain r1 sm where m: "mmap_bytes_from_shm (Some path) n t s = (r1, sm)" by force
  show ?thesis
  proof (cases r1)
    case (Throw e1)
    with m have "read_bytes_from_shm (Some path) n t s = (Throw e1, sm)"
      by (simp add: read_bytes_from_shm_def)
    with t have "e1 = e" "sm = s'" by simp_all
    with m Throw have "mmap_bytes_from_shm (Some path) n t s = (Throw e, s')" by simp
    then show ?thesis using path by (rule mmap_bytes_from_shm_Throw_paths)
  next
    case Killed
    with m have "read_bytes_from_shm (Some path) n t s = (Killed, sm)"
      by (simp add: read_bytes_from_shm_def)
    with t show ?thesis by simp
  next
    case (Return p)
    with m have m': "mmap_bytes_from_shm (Some path) n t s = (Return p, sm)" by simp
    have "\<exists>fd s1 base s2. sys_open path s = (Some fd, s1)
          \<and> \<not> size_t (st_size s1 fd) < sizeof_HEADER_BYTES + 1
          \<and> sys_mmap (frame_size n) fd s1 = (Some base, s2)
          \<and> mappings sm = mappings s2"
    proof (cases "Some path" n t s rule: mmap_bytes_from_shm_cases)
      case empty
      with m' show ?thesis by simp
    next
      case (open_failed q s1)
      with m' show ?thesis by simp
    next
      case (too_small q fd s1)
      with m' show ?thesis by simp
    next
      case (mmap_failed q fd s1 s2)
      with m' show ?thesis by simp
    next
      case (mapped q fd s1 base s2)
      then have o: "sys_open path s = (Some fd, s1)"
        and sz: "\<not> size_t (st_size s1 fd) < sizeof_HEADER_BYTES + 1"
        and mm: "sys_mmap (frame_size n) fd s1 = (Some base, s2)"
        by simp_all
      from mmap_bytes_from_shm_mapped(1) [OF o path sz mm, of t] m'
      have "sm = sys_close fd s2"
        by (auto split: if_splits)
      then have "mappings sm = mappings s2" by simp
      with o sz mm show ?thesis by blast
    qed
    then obtain fd s1 base s2 where o: "sys_open path s = (Some fd, s1)"
      and sz: "\<not> size_t (st_size s1 fd) < sizeof_HEADER_BYTES + 1"
      and mm: "sys_mmap (frame_size n) fd s1 = (Some base, s2)"
      and maps: "mappings sm = mappings s2"
      by blast
    obtain ok sa where a: "sys_malloc n sm = (ok, sa)" by force
    note sa = sys_malloc_fields(3) [OF a]
    have "dir s' path = None \<and> mappings s' = mappings s2"
    proof (cases ok)
      case False
      with a have "sys_malloc n sm = (False, sa)" by simp
      with m' have "read_bytes_from_shm (Some path) n t s
          = (Throw (io ''read_bytes_from_shm(): malloc() failed''), sys_unlink (Some path) sa)"
        by (simp add: read_bytes_from_shm_def)
      with t have "s' = sys_unlink (Some path) sa" by simp
      with sa maps show ?thesis by simp
    next
      case True
      with a have a': "sys_malloc n sm = (True, sa)" by simp
      show ?thesis
      proof (cases "mem_read sa p n")
        case None
        with m' a' have "read_bytes_from_shm (Some path) n t s = (Killed, sa)"
          by (simp add: read_bytes_from_shm_def)
        with t show ?thesis by simp
      next
        case (Some buf)
        show ?thesis
        proof (cases rule: munmap_bytes_from_shm_cases [of p n sa "Some path" t])
          case (unmapped s3)
          with m' a' Some have "read_bytes_from_shm (Some path) n t s
              = (Return buf, sys_unlink (Some path) s3)"
            by (simp add: read_bytes_from_shm_def)
          with t show ?thesis by simp
        next
          case (failed s3)
          with m' a' Some have "read_bytes_from_shm (Some path) n t s
              = (Throw (io ''munmap_bytes_from_shm(): Error in munmaping the file''),
                 sys_unlink (Some path) s3)"
            by (simp add: read_bytes_from_shm_def)
          with t have "s' = sys_unlink (Some path) s3" by simp
          with sys_munmap_False(1) [OF failed(1)] sa maps show ?thesis by simp
        qed
      qed
    qed
    with o sz mm show ?thesis by blast
  qed
qed

text \<open>
  C4, amended. The callback of the second writer returns.

  A writer that throws after its \<^verbatim>\<open>open\<close> has succeeded has removed the file it made; when
  that \<^verbatim>\<open>open\<close> fails, the directory is as it was before the call. The buffered writer
  leaves the mappings as they were, and the writer with a callback removes none of them.

  Let \<^verbatim>\<open>mmap_bytes_from_shm\<close> or \<^verbatim>\<open>read_bytes_from_shm\<close> throw on a name that is not empty.
  When \<^verbatim>\<open>open\<close> failed, directory and mappings are as they were. When the file had at
  least 9 bytes and \<^verbatim>\<open>open\<close> succeeded, the file is removed; and if \<^verbatim>\<open>mmap\<close> succeeded as
  well, so that the failure is one of wrong magic bytes, a wrong type tag, a failed
  \<^verbatim>\<open>malloc\<close> or a failed \<^verbatim>\<open>munmap\<close>, the mappings are those that \<^verbatim>\<open>mmap\<close> made: the frame is
  still mapped at its base, which was free before. On no path is a mapping removed that
  existed before the call. Nothing is said about the file when it is smaller than 9
  bytes.
\<close>

theorem failure_cleanup:
  "(create_filename s = (Return f, s0) \<and> write_bytes_to_shm data t s = (Throw e, s')
      \<longrightarrow> (fst (sys_open_creat f s0) \<noteq> None \<longrightarrow> dir s' f = None)
        \<and> (fst (sys_open_creat f s0) = None \<longrightarrow> dir s' = dir s)
        \<and> mappings s' = mappings s)
   \<and> (create_filename s = (Return f, s0) \<and> write_bytes_to_shm_lambda lam n t s = (Throw e, s')
      \<longrightarrow> (fst (sys_open_creat f s0) \<noteq> None \<longrightarrow> dir s' f = None)
        \<and> (fst (sys_open_creat f s0) = None \<longrightarrow> dir s' = dir s)
        \<and> mappings s \<subseteq>\<^sub>m mappings s')
   \<and> ((mmap_bytes_from_shm (Some path) n t s = (Throw e, s')
        \<or> read_bytes_from_shm (Some path) n t s = (Throw e, s')) \<and> path \<noteq> []
      \<longrightarrow> (fst (sys_open path s) = None \<longrightarrow> dir s' = dir s \<and> mappings s' = mappings s)
        \<and> (file_contents s path = Some c \<and> 9 \<le> length c \<and> length c < 2 ^ 64
            \<longrightarrow> (fst (sys_open path s) \<noteq> None \<longrightarrow> dir s' path = None)
              \<and> (sys_open path s = (Some fd, s1)
                  \<and> sys_mmap (frame_size n) fd s1 = (Some base, s2)
                  \<longrightarrow> mappings s' = mappings s2 \<and> mappings s' base \<noteq> None
                    \<and> mappings s base = None))
        \<and> mappings s \<subseteq>\<^sub>m mappings s')"
proof (intro conjI)
  show "create_filename s = (Return f, s0) \<and> write_bytes_to_shm data t s = (Throw e, s')
      \<longrightarrow> (fst (sys_open_creat f s0) \<noteq> None \<longrightarrow> dir s' f = None)
        \<and> (fst (sys_open_creat f s0) = None \<longrightarrow> dir s' = dir s)
        \<and> mappings s' = mappings s"
    using write_bytes_to_shm_failure [of s f s0 data t e s'] by blast
next
  show "create_filename s = (Return f, s0) \<and> write_bytes_to_shm_lambda lam n t s = (Throw e, s')
      \<longrightarrow> (fst (sys_open_creat f s0) \<noteq> None \<longrightarrow> dir s' f = None)
        \<and> (fst (sys_open_creat f s0) = None \<longrightarrow> dir s' = dir s)
        \<and> mappings s \<subseteq>\<^sub>m mappings s'"
    using write_bytes_to_shm_lambda_failure [of s f s0 lam n t e s'] by blast
next
  show "(mmap_bytes_from_shm (Some path) n t s = (Throw e, s')
        \<or> read_bytes_from_shm (Some path) n t s = (Throw e, s')) \<and> path \<noteq> []
      \<longrightarrow> (fst (sys_open path s) = None \<longrightarrow> dir s' = dir s \<and> mappings s' = mappings s)
        \<and> (file_contents s path = Some c \<and> 9 \<le> length c \<and> length c < 2 ^ 64
            \<longrightarrow> (fst (sys_open path s) \<noteq> None \<longrightarrow> dir s' path = None)
              \<and> (sys_open path s = (Some fd, s1)
                  \<and> sys_mmap (frame_size n) fd s1 = (Some base, s2)
                  \<longrightarrow> mappings s' = mappings s2 \<and> mappings s' base \<noteq> None
                    \<and> mappings s base = None))
        \<and> mappings s \<subseteq>\<^sub>m mappings s'"
  proof (rule impI)
    assume a: "(mmap_bytes_from_shm (Some path) n t s = (Throw e, s')
        \<or> read_bytes_from_shm (Some path) n t s = (Throw e, s')) \<and> path \<noteq> []"
    then have path: "path \<noteq> []" by simp
    from a have "(\<exists>s1. sys_open path s = (None, s1) \<and> s' = s1)
      \<or> (\<exists>fd s1. sys_open path s = (Some fd, s1)
            \<and> size_t (st_size s1 fd) < sizeof_HEADER_BYTES + 1 \<and> s' = sys_close fd s1)
      \<or> (\<exists>fd s1 s2. sys_open path s = (Some fd, s1)
            \<and> \<not> size_t (st_size s1 fd) < sizeof_HEADER_BYTES + 1
            \<and> sys_mmap (frame_size n) fd s1 = (None, s2)
            \<and> s' = sys_unlink (Some path) (sys_close fd s2))
      \<or> (\<exists>fd s1 base s2. sys_open path s = (Some fd, s1)
            \<and> \<not> size_t (st_size s1 fd) < sizeof_HEADER_BYTES + 1
            \<and> sys_mmap (frame_size n) fd s1 = (Some base, s2)
            \<and> dir s' path = None \<and> mappings s' = mappings s2)"
      using mmap_bytes_from_shm_Throw_paths [of path n t s e s']
        read_bytes_from_shm_Throw_paths [of path n t s e s']
      by (elim conjE disjE) simp_all
    note F = reader_failure_facts [OF this]
    from F(1) F(2) [of c fd s1 base s2] F(3)
    show "(fst (sys_open path s) = None \<longrightarrow> dir s' = dir s \<and> mappings s' = mappings s)
        \<and> (file_contents s path = Some c \<and> 9 \<le> length c \<and> length c < 2 ^ 64
            \<longrightarrow> (fst (sys_open path s) \<noteq> None \<longrightarrow> dir s' path = None)
              \<and> (sys_open path s = (Some fd, s1)
                  \<and> sys_mmap (frame_size n) fd s1 = (Some base, s2)
                  \<longrightarrow> mappings s' = mappings s2 \<and> mappings s' base \<noteq> None
                    \<and> mappings s base = None))
        \<and> mappings s \<subseteq>\<^sub>m mappings s'"
      by (intro conjI)
  qed
qed

section \<open>The theorems at concrete inputs\<close>

lemma os_file_fields:
  "file_contents (os_file bs) ''/dev/shm/h'' = Some bs"
  "dir (os_file bs) ''/dev/shm/h'' = Some 1"
  "faults (os_file bs) = []"
  "mmap_hint (os_file bs) = 4096"
  "mappings (os_file bs) = (\<lambda>a. None)"
  by (simp_all add: os_file_def os0_def file_contents_def)

lemma os_file_can_map: "0 < len \<Longrightarrow> len \<le> 4096 \<Longrightarrow> can_map (os_file bs) len"
proof -
  assume "0 < len" "len \<le> 4096"
  then have "(len + 4095) div 4096 = 1"
    by (simp add: div_eq_dividend_iff Suc_le_eq div_nat_eqI)
  then have "page_round len = 4096"
    by (simp add: page_round_def page_size_def)
  with \<open>0 < len\<close> show ?thesis
    by (simp add: can_map_def region_free_def os_file_fields page_size_def)
qed

lemma boolean_frame_facts:
  "take 8 boolean_frame = HEADER_BYTES" "boolean_frame ! 8 = char_of_type TYPE_BOOLEAN"
  "length boolean_frame = 14" "drop 9 boolean_frame = [1, 0, 0, 1, 0]"
  by (simp_all add: boolean_frame_def HEADER_BYTES_def)

lemma frame_size_5: "frame_size 5 = 14"
  by (simp add: frame_size_small)

lemma open_boolean_frame:
  "mmap_bytes_from_shm (Some ''/dev/shm/h'') 5 TYPE_BOOLEAN (os_file boolean_frame)
     = (Return 4105,
        snd (mmap_bytes_from_shm (Some ''/dev/shm/h'') 5 TYPE_BOOLEAN (os_file boolean_frame)))"
proof -
  have "can_map (os_file boolean_frame) (frame_size 5)"
    by (simp add: frame_size_5 os_file_can_map)
  from mmap_bytes_from_shm_succeeds [OF os_file_fields(1) boolean_frame_facts(1) _ _
      boolean_frame_facts(2) _ os_file_fields(3) this]
  obtain s' where "mmap_bytes_from_shm (Some ''/dev/shm/h'') 5 TYPE_BOOLEAN (os_file boolean_frame)
      = (Return (mmap_hint (os_file boolean_frame) + 9), s')"
    by (auto simp: boolean_frame_facts)
  then show ?thesis
    by (simp add: os_file_fields)
qed

lemma open_boolean_frame_faults:
  "faults (snd (mmap_bytes_from_shm (Some ''/dev/shm/h'') 5 TYPE_BOOLEAN (os_file boolean_frame)))
     = []"
  using mmap_bytes_from_shm_Return(6) [OF open_boolean_frame] by (simp add: os_file_fields)

theorem type_discrimination_witness:
  "is_io (fst (mmap_bytes_from_shm (Some ''/dev/shm/h'') 5 TYPE_INTEGER (os_file boolean_frame)))
   \<and> dir (snd (mmap_bytes_from_shm (Some ''/dev/shm/h'') 5 TYPE_INTEGER (os_file boolean_frame)))
        ''/dev/shm/h'' = None
   \<and> 9 \<le> length boolean_frame \<and> take 8 boolean_frame = HEADER_BYTES
   \<and> boolean_frame ! 8 = char_of_type TYPE_BOOLEAN"
proof -
  let ?h = "''/dev/shm/h''"
  let ?X = "mmap_bytes_from_shm (Some ?h) 5 TYPE_INTEGER (os_file boolean_frame)"
  let ?S1 = "snd (mmap_bytes_from_shm (Some ?h) 5 TYPE_BOOLEAN (os_file boolean_frame))"
  note T = type_discrimination [of "os_file boolean_frame" ?h TYPE_BOOLEAN "[1, 0, 0, 1, 0]"
      TYPE_INTEGER 5 "fst ?X" "snd ?X" boolean_frame TYPE_BOOLEAN 4105 ?S1]
  have c: "file_contents (os_file boolean_frame) ?h
      = Some (HEADER_BYTES @ char_of_type TYPE_BOOLEAN # [1, 0, 0, 1, 0])"
    by (simp add: os_file_fields boolean_frame_def)
  have o: "fst (sys_open ?h (os_file boolean_frame)) \<noteq> None"
    by (simp add: sys_open_def next_fault_def os_file_def os0_def)
  from T [THEN conjunct1] c o
  have 1: "is_io (fst ?X) \<and> dir (snd ?X) ?h = None"
    by simp
  from T [THEN conjunct2] open_boolean_frame
  have 2: "9 \<le> length boolean_frame \<and> take 8 boolean_frame = HEADER_BYTES
      \<and> boolean_frame ! 8 = char_of_type TYPE_BOOLEAN"
    by (simp add: os_file_fields)
  from 1 2 show ?thesis by simp
qed

text \<open>
  C3 as stated fails where \<^verbatim>\<open>open\<close> itself fails: the frame was written as boolean, it is
  asked for as 32-bit integers, the call throws \<open>io\<close>, and the file is still there.
\<close>

theorem type_discrimination_counterexample:
  "fst (mmap_bytes_from_shm (Some ''/dev/shm/h'') 5 TYPE_INTEGER
          ((os_file boolean_frame)\<lparr>faults := [Fails]\<rparr>))
     = Throw (io ''mmap_bytes_from_shm(): Could not open file for reading'')
   \<and> file_contents
         (snd (mmap_bytes_from_shm (Some ''/dev/shm/h'') 5 TYPE_INTEGER
                 ((os_file boolean_frame)\<lparr>faults := [Fails]\<rparr>))) ''/dev/shm/h''
     = Some boolean_frame"
  by (simp add: mmap_bytes_from_shm_def sys_open_def next_fault_def os_file_def os0_def
      file_contents_def)

theorem reader_size_check_witness:
  "is_io (fst (mmap_bytes_from_shm (Some ''/dev/shm/h'') 0 TYPE_BYTE (os_file [83, 72, 77])))
   \<and> mappings (snd (mmap_bytes_from_shm (Some ''/dev/shm/h'') 0 TYPE_BYTE (os_file [83, 72, 77])))
       = mappings (os_file [83, 72, 77])
   \<and> fst (mmap_bytes_from_shm (Some ''/dev/shm/h'') 0 TYPE_BYTE
             (os_file (HEADER_BYTES @ [char_of_type TYPE_BYTE])))
       = Return 4105
   \<and> fst (read_bytes_from_shm (Some ''/dev/shm/h'') 0 TYPE_BYTE
             (os_file (HEADER_BYTES @ [char_of_type TYPE_BYTE])))
       = Return []"
proof -
  let ?h = "''/dev/shm/h''"
  let ?X = "mmap_bytes_from_shm (Some ?h) 0 TYPE_BYTE (os_file [83, 72, 77])"
  from reader_size_check [of "os_file [83, 72, 77]" ?h "[83, 72, 77]" 0 TYPE_BYTE
      "fst ?X" "snd ?X", THEN conjunct1]
  have 1: "is_io (fst ?X) \<and> mappings (snd ?X) = mappings (os_file [83, 72, 77])"
    by (simp add: os_file_fields)
  have "frame_size 0 = 9" by (simp add: frame_size_small)
  then have "can_map (os_file (HEADER_BYTES @ [char_of_type TYPE_BYTE])) (frame_size 0)"
    by (simp add: os_file_can_map)
  with reader_size_check [of "os_file (HEADER_BYTES @ [char_of_type TYPE_BYTE])" ?h
      "[]" 0 TYPE_BYTE "fst ?X" "snd ?X", THEN conjunct2]
  have e: "(\<exists>s1. mmap_bytes_from_shm (Some ?h) 0 TYPE_BYTE
        (os_file (HEADER_BYTES @ [char_of_type TYPE_BYTE])) = (Return 4105, s1))
      \<and> (\<exists>s2. read_bytes_from_shm (Some ?h) 0 TYPE_BYTE
        (os_file (HEADER_BYTES @ [char_of_type TYPE_BYTE])) = (Return [], s2))"
    by (simp add: os_file_fields)
  then have 2: "fst (mmap_bytes_from_shm (Some ?h) 0 TYPE_BYTE
      (os_file (HEADER_BYTES @ [char_of_type TYPE_BYTE]))) = Return 4105"
    by auto
  from e have 3: "fst (read_bytes_from_shm (Some ?h) 0 TYPE_BYTE
      (os_file (HEADER_BYTES @ [char_of_type TYPE_BYTE]))) = Return []"
    by auto
  from 1 2 3 show ?thesis by simp
qed

theorem release_unmaps_and_deletes_witness:
  "dir (snd (munmap_bytes_from_shm (Some ''/dev/shm/h'') 5 TYPE_BOOLEAN 4105
          (snd (mmap_bytes_from_shm (Some ''/dev/shm/h'') 5 TYPE_BOOLEAN
                  (os_file boolean_frame))))) ''/dev/shm/h'' = None
   \<and> fst (munmap_bytes_from_shm (Some ''/dev/shm/h'') 5 TYPE_BOOLEAN 4105
          (snd (mmap_bytes_from_shm (Some ''/dev/shm/h'') 5 TYPE_BOOLEAN
                  (os_file boolean_frame)))) = Return ()
   \<and> dir (snd (munmap_bytes_from_shm (Some ''/dev/shm/h'') 5 TYPE_BOOLEAN 4105
          ((snd (mmap_bytes_from_shm (Some ''/dev/shm/h'') 5 TYPE_BOOLEAN
                  (os_file boolean_frame)))\<lparr>faults := [Fails]\<rparr>))) ''/dev/shm/h'' = None
   \<and> fst (munmap_bytes_from_shm (Some ''/dev/shm/h'') 5 TYPE_BOOLEAN 4105
          ((snd (mmap_bytes_from_shm (Some ''/dev/shm/h'') 5 TYPE_BOOLEAN
                  (os_file boolean_frame)))\<lparr>faults := [Fails]\<rparr>))
       = Throw (io ''munmap_bytes_from_shm(): Error in munmaping the file'')"
proof -
  let ?h = "''/dev/shm/h''"
  let ?S1 = "snd (mmap_bytes_from_shm (Some ?h) 5 TYPE_BOOLEAN (os_file boolean_frame))"
  let ?U = "munmap_bytes_from_shm (Some ?h) 5 TYPE_BOOLEAN 4105 ?S1"
  let ?V = "munmap_bytes_from_shm (Some ?h) 5 TYPE_BOOLEAN 4105 (?S1\<lparr>faults := [Fails]\<rparr>)"
  have n: "(5 :: nat) + 9 < 2 ^ 64" by simp
  have u: "?U = (fst ?U, snd ?U)" and v: "?V = (fst ?V, snd ?V)" by simp_all
  note TU = release_unmaps_and_deletes [OF open_boolean_frame n u]
  note TV = release_unmaps_and_deletes [OF open_boolean_frame n v]
  have "fst (sys_munmap 4096 (frame_size 5) ?S1)"
    using open_boolean_frame_faults
    by (simp add: sys_munmap_def next_fault_no_faults frame_size_5 page_size_def)
  then have ok: "fst ?U = Return ()"
    by (simp add: munmap_bytes_from_shm_eval ptr_sub_def case_prod_beta)
  have bad: "fst ?V = Throw (io ''munmap_bytes_from_shm(): Error in munmaping the file'')"
    by (simp add: munmap_bytes_from_shm_eval sys_munmap_def next_fault_def case_prod_beta)
  from TU TV ok bad show ?thesis by simp
qed

theorem release_undoes_open_and_map_witness:
  "4105 = mmap_hint (os_file boolean_frame) + (sizeof_HEADER_BYTES + 1)
   \<and> ptr_sub 4105 (sizeof_HEADER_BYTES + sizeof_ArrayType) = mmap_hint (os_file boolean_frame)
   \<and> mappings (snd (munmap_bytes_from_shm (Some ''/dev/shm/h'') 5 TYPE_BOOLEAN 4105
          (snd (mmap_bytes_from_shm (Some ''/dev/shm/h'') 5 TYPE_BOOLEAN
                  (os_file boolean_frame)))))
       = mappings (os_file boolean_frame)"
proof -
  let ?h = "''/dev/shm/h''"
  let ?S1 = "snd (mmap_bytes_from_shm (Some ?h) 5 TYPE_BOOLEAN (os_file boolean_frame))"
  let ?U = "munmap_bytes_from_shm (Some ?h) 5 TYPE_BOOLEAN 4105 ?S1"
  have "fst (sys_munmap 4096 (frame_size 5) ?S1)"
    using open_boolean_frame_faults
    by (simp add: sys_munmap_def next_fault_no_faults frame_size_5 page_size_def)
  then have "fst ?U = Return ()"
    by (simp add: munmap_bytes_from_shm_eval ptr_sub_def case_prod_beta)
  then have u: "?U = (Return (), snd ?U)"
    by (metis prod.collapse)
  from release_undoes_open_and_map [OF open_boolean_frame refl u]
  show ?thesis by simp
qed

text \<open>
  C4 as stated fails in three places where the code does what it was written to do. When
  \<^verbatim>\<open>malloc\<close> fails in the copying reader, the file is removed but the mapping is not: the
  payload address 4105 is still mapped to byte 9 of the file. When the type tag is not
  the expected one, the mapping stays as well. And when \<^verbatim>\<open>open\<close> fails in the reader, the
  file stays in the directory.
\<close>

theorem failure_cleanup_counterexample:
  "is_io (fst (read_bytes_from_shm (Some ''/dev/shm/h'') 5 TYPE_BOOLEAN
            ((os_file boolean_frame)\<lparr>faults := [NoFault, NoFault, Fails]\<rparr>)))
   \<and> mappings (snd (read_bytes_from_shm (Some ''/dev/shm/h'') 5 TYPE_BOOLEAN
            ((os_file boolean_frame)\<lparr>faults := [NoFault, NoFault, Fails]\<rparr>))) 4105
     = Some (1, 9)
   \<and> is_io (fst (mmap_bytes_from_shm (Some ''/dev/shm/h'') 5 TYPE_INTEGER
            (os_file boolean_frame)))
   \<and> mappings (snd (mmap_bytes_from_shm (Some ''/dev/shm/h'') 5 TYPE_INTEGER
            (os_file boolean_frame))) 4096
     = Some (1, 0)
   \<and> is_io (fst (mmap_bytes_from_shm (Some ''/dev/shm/h'') 5 TYPE_BOOLEAN
            ((os_file boolean_frame)\<lparr>faults := [Fails]\<rparr>)))
   \<and> file_contents (snd (mmap_bytes_from_shm (Some ''/dev/shm/h'') 5 TYPE_BOOLEAN
            ((os_file boolean_frame)\<lparr>faults := [Fails]\<rparr>))) ''/dev/shm/h''
     = Some boolean_frame"
proof -
  let ?h = "''/dev/shm/h''"
  let ?s = "(os_file boolean_frame)\<lparr>faults := [NoFault, NoFault, Fails]\<rparr>"
  let ?R = "read_bytes_from_shm (Some ?h) 5 TYPE_BOOLEAN ?s"
  let ?M = "mmap_bytes_from_shm (Some ?h) 5 TYPE_INTEGER (os_file boolean_frame)"
  let ?O = "mmap_bytes_from_shm (Some ?h) 5 TYPE_BOOLEAN
    ((os_file boolean_frame)\<lparr>faults := [Fails]\<rparr>)"
  have region: "in_region 4096 14 4105" "in_region 4096 14 4096"
    by (simp_all add: in_region_def page_round_def page_size_def)
  have c: "file_contents ?s ?h = Some boolean_frame"
    by (simp add: file_contents_def os_file_def os0_def)
  have cm: "can_map ?s (frame_size 5)"
    using os_file_can_map [of 14 boolean_frame]
    by (simp add: frame_size_5 can_map_def region_free_def)
  have nf: "fst (next_fault ?s) \<noteq> Fails" "fst (next_fault (snd (next_fault ?s))) \<noteq> Fails"
    by (simp_all add: next_fault_def)
  from mmap_bytes_from_shm_evaluated [OF c _ _ _ nf cm, of TYPE_BOOLEAN]
  obtain s' ino where ino: "dir ?s ?h = Some ino"
    and maps: "mappings s' = (\<lambda>a. if in_region (mmap_hint ?s) (frame_size 5) a
                            then Some (ino, a - mmap_hint ?s) else mappings ?s a)"
    and f: "faults s' = tl (tl (faults ?s))"
    and m: "mmap_bytes_from_shm (Some ?h) 5 TYPE_BOOLEAN ?s = (Return (mmap_hint ?s + 9), s')"
    by (auto simp: boolean_frame_facts)
  from ino have ino1: "ino = 1" by (simp add: os_file_def)
  have hint: "mmap_hint ?s = 4096" by (simp add: os_file_fields)
  from f have "sys_malloc 5 s' = (False, snd (next_fault s'))"
    by (simp add: sys_malloc_def next_fault_def split_beta)
  with m have r: "read_bytes_from_shm (Some ?h) 5 TYPE_BOOLEAN ?s
      = (Throw (io ''read_bytes_from_shm(): malloc() failed''),
         sys_unlink (Some ?h) (snd (next_fault s')))"
    by (simp add: read_bytes_from_shm_def)
  have "mappings (sys_unlink (Some ?h) (snd (next_fault s'))) 4105 = Some (1, 9)"
    using region by (simp add: maps hint ino1 frame_size_5)
  with r have 1: "is_io (fst ?R)" and 2: "mappings (snd ?R) 4105 = Some (1, 9)"
    by simp_all
  have cm0: "can_map (os_file boolean_frame) (frame_size 5)"
    by (simp add: frame_size_5 os_file_can_map)
  have nf0: "fst (next_fault (os_file boolean_frame)) \<noteq> Fails"
    "fst (next_fault (snd (next_fault (os_file boolean_frame)))) \<noteq> Fails"
    by (simp_all add: next_fault_def os_file_fields)
  from mmap_bytes_from_shm_evaluated [OF os_file_fields(1) _ _ _ nf0 cm0, of TYPE_INTEGER]
  obtain q j where j: "dir (os_file boolean_frame) ?h = Some j"
    and mapsq: "mappings q = (\<lambda>a. if in_region (mmap_hint (os_file boolean_frame))
                                           (frame_size 5) a
                            then Some (j, a - mmap_hint (os_file boolean_frame))
                            else mappings (os_file boolean_frame) a)"
    and mq: "?M = (Throw (io ''mmap_bytes_from_shm(): The read type is: ''),
                   sys_unlink (Some ?h) q)"
    by (auto simp: boolean_frame_facts)
  from j have j1: "j = 1" by (simp add: os_file_fields)
  have "mappings (sys_unlink (Some ?h) q) 4096 = Some (1, 0)"
    using region by (simp add: mapsq os_file_fields frame_size_5 j1)
  with mq have 3: "is_io (fst ?M)" and 4: "mappings (snd ?M) 4096 = Some (1, 0)"
    by simp_all
  have 5: "is_io (fst ?O)" and 6: "file_contents (snd ?O) ?h = Some boolean_frame"
    by (simp_all add: mmap_bytes_from_shm_def sys_open_def next_fault_def os_file_def os0_def
        file_contents_def)
  from 1 2 3 4 5 6 show ?thesis by (intro conjI)
qed

text \<open>
  The amended statement at work: \<^verbatim>\<open>fstatvfs\<close> fails in either writer, the type tag is
  wrong, \<^verbatim>\<open>malloc\<close> fails, and \<^verbatim>\<open>open\<close> fails in the reader.
\<close>

theorem failure_cleanup_witness:
  "dir (snd (write_bytes_to_shm [1] TYPE_BYTE (os0\<lparr>faults := [NoFault, NoFault, Fails]\<rparr>)))
       ''/dev/shm/1000005.7.42'' = None
   \<and> mappings (snd (write_bytes_to_shm [1] TYPE_BYTE
                      (os0\<lparr>faults := [NoFault, NoFault, Fails]\<rparr>))) = (\<lambda>a. None)
   \<and> dir (snd (write_bytes_to_shm_lambda (\<lambda>p. [1]) 1 TYPE_BYTE
                 (os0\<lparr>faults := [NoFault, NoFault, Fails]\<rparr>)))
       ''/dev/shm/1000005.7.42'' = None
   \<and> dir (snd (mmap_bytes_from_shm (Some ''/dev/shm/h'') 5 TYPE_INTEGER (os_file boolean_frame)))
       ''/dev/shm/h'' = None
   \<and> mappings (snd (mmap_bytes_from_shm (Some ''/dev/shm/h'') 5 TYPE_INTEGER
                      (os_file boolean_frame))) 4096 = Some (1, 0)
   \<and> dir (snd (read_bytes_from_shm (Some ''/dev/shm/h'') 5 TYPE_BOOLEAN
            ((os_file boolean_frame)\<lparr>faults := [NoFault, NoFault, Fails]\<rparr>)))
       ''/dev/shm/h'' = None
   \<and> mappings (snd (read_bytes_from_shm (Some ''/dev/shm/h'') 5 TYPE_BOOLEAN
            ((os_file boolean_frame)\<lparr>faults := [NoFault, NoFault, Fails]\<rparr>))) 4096
     = Some (1, 0)
   \<and> dir (snd (mmap_bytes_from_shm (Some ''/dev/shm/h'') 5 TYPE_BOOLEAN
            ((os_file boolean_frame)\<lparr>faults := [Fails]\<rparr>))) ''/dev/shm/h'' = Some 1"
proof -
  let ?h = "''/dev/shm/h''" and ?f = "''/dev/shm/1000005.7.42''"
  let ?s = "os0\<lparr>faults := [NoFault, NoFault, Fails]\<rparr>"
  let ?sc = "snd (create_filename ?s)"
  let ?W = "write_bytes_to_shm [1] TYPE_BYTE ?s"
  let ?L = "write_bytes_to_shm_lambda (\<lambda>p. [1]) 1 TYPE_BYTE ?s"
  let ?b = "os_file boolean_frame"
  let ?M = "mmap_bytes_from_shm (Some ?h) 5 TYPE_INTEGER ?b"
  let ?sr = "?b\<lparr>faults := [NoFault, NoFault, Fails]\<rparr>"
  let ?R = "read_bytes_from_shm (Some ?h) 5 TYPE_BOOLEAN ?sr"
  let ?so = "?b\<lparr>faults := [Fails]\<rparr>"
  let ?O = "mmap_bytes_from_shm (Some ?h) 5 TYPE_BOOLEAN ?so"
  let ?e = "io ''open_file_for_write(): Could not check file with fstatvfs()''"
  note eval = create_filename_def long_def sys_gettimeofday_def sys_rand_def next_fault_def
    os0_def to_string_def dec.simps digit_char_def open_file_for_write_def sys_open_creat_def
    sys_fstatvfs_def Let_def
  note eval_map = sys_open_def sys_mmap_def next_fault_def os_file_def os0_def Let_def
    region_free_def in_region_def page_round_def page_size_def frame_size_5
  have h: "?h \<noteq> []" by simp

  \<comment> \<open>the writers\<close>
  have "fst (create_filename ?s) = Return ?f"
    by (simp add: eval)
  then have cf: "create_filename ?s = (Return ?f, ?sc)"
    by (metis prod.collapse)
  have opened: "fst (sys_open_creat ?f ?sc) \<noteq> None"
    by (simp add: eval)
  have "fst ?W = Throw ?e"
    by (simp add: write_bytes_to_shm_def eval)
  then have W: "?W = (Throw ?e, snd ?W)" by (metis prod.collapse)
  have "fst ?L = Throw ?e"
    by (simp add: write_bytes_to_shm_lambda_def eval)
  then have L: "?L = (Throw ?e, snd ?L)" by (metis prod.collapse)
  note TW = failure_cleanup [where s = ?s and f = ?f and ?s0.0 = ?sc and data = "[1]"
      and t = TYPE_BYTE and e = ?e and s' = "snd ?W", THEN conjunct1, THEN mp, OF conjI,
      OF cf W]
  note TL = failure_cleanup [where s = ?s and f = ?f and ?s0.0 = ?sc and lam = "\<lambda>p. [1]"
      and n = 1 and t = TYPE_BYTE and e = ?e and s' = "snd ?L", THEN conjunct2,
      THEN conjunct1, THEN mp, OF conjI, OF cf L]
  from TW [THEN conjunct1, THEN mp, OF opened]
  have 1: "dir (snd ?W) ?f = None" .
  from TW [THEN conjunct2, THEN conjunct2]
  have 2: "mappings (snd ?W) = (\<lambda>a. None)"
    by (simp add: os0_def)
  from TL [THEN conjunct1, THEN mp, OF opened]
  have 3: "dir (snd ?L) ?f = None" .

  \<comment> \<open>the reader, with the wrong type\<close>
  have len: "9 \<le> length boolean_frame" "length boolean_frame < 2 ^ 64"
    by (simp_all add: boolean_frame_def HEADER_BYTES_def)
  have fob: "fst (sys_open ?h ?b) = Some 3"
    by (simp add: eval_map split_beta)
  then have ob: "sys_open ?h ?b = (Some 3, snd (sys_open ?h ?b))"
    by (metis prod.collapse)
  from fob have ob_ok: "fst (sys_open ?h ?b) \<noteq> None" by simp
  have "fst (sys_mmap (frame_size 5) 3 (snd (sys_open ?h ?b))) = Some 4096"
    by (simp add: eval_map split_beta)
  then have mb: "sys_mmap (frame_size 5) 3 (snd (sys_open ?h ?b))
      = (Some 4096, snd (sys_mmap (frame_size 5) 3 (snd (sys_open ?h ?b))))"
    by (metis prod.collapse)
  have mapped_b: "mappings (snd (sys_mmap (frame_size 5) 3 (snd (sys_open ?h ?b)))) 4096
      = Some (1, 0)"
    by (simp add: eval_map split_beta)
  have cm: "can_map ?b (frame_size 5)"
    by (simp add: frame_size_5 os_file_can_map)
  have nf: "fst (next_fault ?b) \<noteq> Fails" "fst (next_fault (snd (next_fault ?b))) \<noteq> Fails"
    by (simp_all add: next_fault_def os_file_fields)
  from mmap_bytes_from_shm_evaluated [OF os_file_fields(1) _ _ _ nf cm, of TYPE_INTEGER]
  obtain em where "fst ?M = Throw em"
    by (auto simp: boolean_frame_facts)
  then have M: "?M = (Throw em, snd ?M)" by (metis prod.collapse)
  note TM = failure_cleanup [where path = ?h and s = ?b and n = 5 and t = TYPE_INTEGER
      and e = em and s' = "snd ?M" and c = boolean_frame and fd = 3
      and ?s1.0 = "snd (sys_open ?h ?b)" and base = 4096
      and ?s2.0 = "snd (sys_mmap (frame_size 5) 3 (snd (sys_open ?h ?b)))",
      THEN conjunct2, THEN conjunct2, THEN mp, OF conjI, OF disjI1, OF M h,
      THEN conjunct2, THEN conjunct1, THEN mp, OF conjI, OF os_file_fields(1) conjI,
      OF len]
  from TM [THEN conjunct1, THEN mp, OF ob_ok]
  have 4: "dir (snd ?M) ?h = None" .
  from TM [THEN conjunct2, THEN mp, OF conjI, OF ob mb] mapped_b
  have 5: "mappings (snd ?M) 4096 = Some (1, 0)"
    by simp

  \<comment> \<open>the copying reader, without memory\<close>
  have cr: "file_contents ?sr ?h = Some boolean_frame"
    by (simp add: file_contents_def os_file_def os0_def)
  have fsr: "fst (sys_open ?h ?sr) = Some 3"
    by (simp add: eval_map split_beta)
  then have orr: "sys_open ?h ?sr = (Some 3, snd (sys_open ?h ?sr))"
    by (metis prod.collapse)
  from fsr have or_ok: "fst (sys_open ?h ?sr) \<noteq> None" by simp
  have "fst (sys_mmap (frame_size 5) 3 (snd (sys_open ?h ?sr))) = Some 4096"
    by (simp add: eval_map split_beta)
  then have mr: "sys_mmap (frame_size 5) 3 (snd (sys_open ?h ?sr))
      = (Some 4096, snd (sys_mmap (frame_size 5) 3 (snd (sys_open ?h ?sr))))"
    by (metis prod.collapse)
  have mapped_r: "mappings (snd (sys_mmap (frame_size 5) 3 (snd (sys_open ?h ?sr)))) 4096
      = Some (1, 0)"
    by (simp add: eval_map split_beta)
  have cmr: "can_map ?sr (frame_size 5)"
    using os_file_can_map [of 14 boolean_frame]
    by (simp add: frame_size_5 can_map_def region_free_def)
  have nfr: "fst (next_fault ?sr) \<noteq> Fails" "fst (next_fault (snd (next_fault ?sr))) \<noteq> Fails"
    by (simp_all add: next_fault_def)
  from mmap_bytes_from_shm_evaluated [OF cr _ _ _ nfr cmr, of TYPE_BOOLEAN]
  obtain sm where f: "faults sm = tl (tl (faults ?sr))"
    and mm: "mmap_bytes_from_shm (Some ?h) 5 TYPE_BOOLEAN ?sr = (Return (mmap_hint ?sr + 9), sm)"
    by (auto simp: boolean_frame_facts)
  from f have "sys_malloc 5 sm = (False, snd (next_fault sm))"
    by (simp add: sys_malloc_def next_fault_def split_beta)
  with mm have "fst ?R = Throw (io ''read_bytes_from_shm(): malloc() failed'')"
    by (simp add: read_bytes_from_shm_def)
  then have R: "?R = (Throw (io ''read_bytes_from_shm(): malloc() failed''), snd ?R)"
    by (metis prod.collapse)
  note TR = failure_cleanup [where path = ?h and s = ?sr and n = 5 and t = TYPE_BOOLEAN
      and e = "io ''read_bytes_from_shm(): malloc() failed''" and s' = "snd ?R"
      and c = boolean_frame and fd = 3
      and ?s1.0 = "snd (sys_open ?h ?sr)" and base = 4096
      and ?s2.0 = "snd (sys_mmap (frame_size 5) 3 (snd (sys_open ?h ?sr)))",
      THEN conjunct2, THEN conjunct2, THEN mp, OF conjI, OF disjI2, OF R h,
      THEN conjunct2, THEN conjunct1, THEN mp, OF conjI, OF cr conjI,
      OF len]
  from TR [THEN conjunct1, THEN mp, OF or_ok]
  have 6: "dir (snd ?R) ?h = None" .
  from TR [THEN conjunct2, THEN mp, OF conjI, OF orr mr] mapped_r
  have 7: "mappings (snd ?R) 4096 = Some (1, 0)"
    by simp

  \<comment> \<open>the reader, when the file cannot be opened\<close>
  have closed: "fst (sys_open ?h ?so) = None"
    by (simp add: eval_map split_beta)
  have "\<exists>eo. fst ?O = Throw eo"
    by (simp add: mmap_bytes_from_shm_def eval_map split_beta)
  then obtain eo where "fst ?O = Throw eo" by blast
  then have O: "?O = (Throw eo, snd ?O)" by (metis prod.collapse)
  from failure_cleanup [where path = ?h and s = ?so and n = 5 and t = TYPE_BOOLEAN
      and e = eo and s' = "snd ?O",
      THEN conjunct2, THEN conjunct2, THEN mp, OF conjI, OF disjI1, OF O h,
      THEN conjunct1, THEN mp, OF closed]
  have 8: "dir (snd ?O) ?h = Some 1"
    by (simp add: os_file_def)
  from 1 2 3 4 5 6 7 8 show ?thesis by (intro conjI)
qed

lemma buffered_writer_at_os0:
  "fst (write_bytes_to_shm [1, 0, 0, 1, 0] TYPE_BOOLEAN os0) = Return ''/dev/shm/1000005.7.42''"
  "faults (snd (write_bytes_to_shm [1, 0, 0, 1, 0] TYPE_BOOLEAN os0)) = []"
  "mmap_hint (snd (write_bytes_to_shm [1, 0, 0, 1, 0] TYPE_BOOLEAN os0)) = 4096"
  "mappings (snd (write_bytes_to_shm [1, 0, 0, 1, 0] TYPE_BOOLEAN os0)) = (\<lambda>a. None)"
  by (simp_all add: write_bytes_to_shm_def write_loop_no_fault
      create_filename_def long_def sys_gettimeofday_def sys_rand_def next_fault_def os0_def
      to_string_def dec.simps digit_char_def open_file_for_write_def sys_open_creat_def
      sys_fstatvfs_def Let_def sys_write_def size_t_def sizeof_HEADER_BYTES_def
      sizeof_ArrayType_def HEADER_BYTES_def store_at_def st_size_def sys_close_def)

lemma empty_buffered_writer_at_os0:
  "fst (write_bytes_to_shm [] TYPE_BYTE os0) = Return ''/dev/shm/1000005.7.42''"
  "faults (snd (write_bytes_to_shm [] TYPE_BYTE os0)) = []"
  "mmap_hint (snd (write_bytes_to_shm [] TYPE_BYTE os0)) = 4096"
  "mappings (snd (write_bytes_to_shm [] TYPE_BYTE os0)) = (\<lambda>a. None)"
  by (simp_all add: write_bytes_to_shm_def write_loop_no_fault
      create_filename_def long_def sys_gettimeofday_def sys_rand_def next_fault_def os0_def
      to_string_def dec.simps digit_char_def open_file_for_write_def sys_open_creat_def
      sys_fstatvfs_def Let_def sys_write_def size_t_def sizeof_HEADER_BYTES_def
      sizeof_ArrayType_def HEADER_BYTES_def store_at_def st_size_def sys_close_def)

lemma can_map_4096:
  assumes "mmap_hint s = 4096" "mappings s = (\<lambda>a. None)" "0 < len" "len \<le> 4096"
  shows "can_map s len"
proof -
  from assms have "(len + 4095) div 4096 = 1"
    by (simp add: div_eq_dividend_iff Suc_le_eq div_nat_eqI)
  then have "page_round len = 4096"
    by (simp add: page_round_def page_size_def)
  with assms show ?thesis
    by (simp add: can_map_def region_free_def page_size_def)
qed

theorem write_read_round_trip_witness:
  "fst (write_bytes_to_shm [1, 0, 0, 1, 0] TYPE_BOOLEAN os0) = Return ''/dev/shm/1000005.7.42''
   \<and> fst (read_bytes_from_shm (Some ''/dev/shm/1000005.7.42'') 5 TYPE_BOOLEAN
            (snd (write_bytes_to_shm [1, 0, 0, 1, 0] TYPE_BOOLEAN os0)))
     = Return [1, 0, 0, 1, 0]
   \<and> fst (write_bytes_to_shm [] TYPE_BYTE os0) = Return ''/dev/shm/1000005.7.42''
   \<and> fst (read_bytes_from_shm (Some ''/dev/shm/1000005.7.42'') 0 TYPE_BYTE
            (snd (write_bytes_to_shm [] TYPE_BYTE os0)))
     = Return []"
proof -
  let ?f = "''/dev/shm/1000005.7.42''"
  let ?W = "write_bytes_to_shm [1, 0, 0, 1, 0] TYPE_BOOLEAN os0"
  let ?E = "write_bytes_to_shm [] TYPE_BYTE os0"
  have W: "?W = (Return ?f, snd ?W)"
    using buffered_writer_at_os0(1) by (metis prod.collapse)
  have E: "?E = (Return ?f, snd ?E)"
    using empty_buffered_writer_at_os0(1) by (metis prod.collapse)
  have cW: "can_map (snd ?W) (frame_size (length [1, 0, 0, 1, 0 :: byte]))"
    by (rule can_map_4096 [OF buffered_writer_at_os0(3,4)]) (simp_all add: frame_size_small)
  have cE: "can_map (snd ?E) (frame_size (length ([] :: byte list)))"
    by (rule can_map_4096 [OF empty_buffered_writer_at_os0(3,4)]) (simp_all add: frame_size_small)
  have len: "length [1, 0, 0, 1, 0 :: byte] = 5" "length ([] :: byte list) = 0"
    by simp_all
  from write_read_round_trip [OF W, THEN conjunct2, rule_format, OF _ conjI,
      OF _ buffered_writer_at_os0(2) cW, unfolded len]
  obtain s2 where "read_bytes_from_shm (Some ?f) 5 TYPE_BOOLEAN (snd ?W)
      = (Return [1, 0, 0, 1, 0], s2)"
    by auto
  then have 1: "fst (read_bytes_from_shm (Some ?f) 5 TYPE_BOOLEAN (snd ?W))
      = Return [1, 0, 0, 1, 0]"
    by simp
  from write_read_round_trip [OF E, THEN conjunct2, rule_format, OF _ conjI,
      OF _ empty_buffered_writer_at_os0(2) cE, unfolded len]
  obtain s3 where "read_bytes_from_shm (Some ?f) 0 TYPE_BYTE (snd ?E) = (Return [], s3)"
    by auto
  then have 2: "fst (read_bytes_from_shm (Some ?f) 0 TYPE_BYTE (snd ?E)) = Return []"
    by simp
  from 1 2 buffered_writer_at_os0(1) empty_buffered_writer_at_os0(1) show ?thesis
    by (intro conjI)
qed

lemma replicate_zero_bytes:
  "replicate 11 (0 :: byte) = [0, 0, 0, 0, 0, 0, 0, 0, 0, 0, 0]"
  "replicate 14 (0 :: byte) = [0, 0, 0, 0, 0, 0, 0, 0, 0, 0, 0, 0, 0, 0]"
  by (simp_all add: numeral_eq_Suc)

lemma callback_writer_at_os0:
  "fst (write_bytes_to_shm_lambda (\<lambda>p. [1, 0, 0, 1, 0]) 5 TYPE_BOOLEAN os0)
     = Return ''/dev/shm/1000005.7.42''"
  by (simp add: create_filename_def long_def sys_gettimeofday_def sys_rand_def next_fault_def os0_def
      to_string_def dec.simps digit_char_def open_file_for_write_def sys_open_creat_def
      sys_fstatvfs_def Let_def sys_write_def size_t_def sizeof_HEADER_BYTES_def
      sizeof_ArrayType_def HEADER_BYTES_def store_at_def st_size_def sys_close_def
      file_contents_def write_bytes_to_shm_lambda_def sys_lseek_def sys_mmap_def
      region_free_def in_region_def page_round_def page_size_def mem_store_def ptr_add_def
      sys_munmap_def)

theorem writers_frame_layout_counterexample:
  "fst (write_bytes_to_shm_lambda (\<lambda>p. [5, 6]) 2 TYPE_BYTE os0) = Return ''/dev/shm/1000005.7.42''
   \<and> file_contents (snd (write_bytes_to_shm_lambda (\<lambda>p. [5, 6]) 2 TYPE_BYTE os0))
        ''/dev/shm/1000005.7.42''
     = Some [83, 72, 77, 65, 82, 82, 89, 0, 98, 5, 6, 0]
   \<and> length [83, 72, 77, 65, 82, 82, 89, 0, 98, 5, 6, 0 :: byte] \<noteq> 9 + 2
   \<and> file_contents (snd (write_bytes_to_shm [5, 6] TYPE_BYTE os0)) ''/dev/shm/1000005.7.42''
     = Some [83, 72, 77, 65, 82, 82, 89, 0, 98, 5, 6]"
  by (simp add: create_filename_def long_def sys_gettimeofday_def sys_rand_def next_fault_def os0_def
      to_string_def dec.simps digit_char_def open_file_for_write_def sys_open_creat_def
      sys_fstatvfs_def Let_def sys_write_def size_t_def sizeof_HEADER_BYTES_def
      sizeof_ArrayType_def HEADER_BYTES_def store_at_def st_size_def sys_close_def
      file_contents_def write_bytes_to_shm_lambda_def sys_lseek_def sys_mmap_def
      region_free_def in_region_def page_round_def page_size_def mem_store_def ptr_add_def
      sys_munmap_def write_bytes_to_shm_def write_loop_no_fault replicate_zero_bytes)

theorem writers_frame_layout_witness:
  "file_contents (snd (write_bytes_to_shm [1, 0, 0, 1, 0] TYPE_BOOLEAN os0))
        ''/dev/shm/1000005.7.42''
     = Some boolean_frame
   \<and> file_contents (snd (write_bytes_to_shm_lambda (\<lambda>p. [1, 0, 0, 1, 0]) 5 TYPE_BOOLEAN os0))
        ''/dev/shm/1000005.7.42''
     = Some (boolean_frame @ [0])"
proof -
  let ?f = "''/dev/shm/1000005.7.42''"
  let ?W = "write_bytes_to_shm [1, 0, 0, 1, 0] TYPE_BOOLEAN os0"
  let ?L = "write_bytes_to_shm_lambda (\<lambda>p. [1, 0, 0, 1, 0]) 5 TYPE_BOOLEAN os0"
  have W: "?W = (Return ?f, snd ?W)"
    using buffered_writer_at_os0(1) by (metis prod.collapse)
  have L: "?L = (Return ?f, snd ?L)"
    using callback_writer_at_os0 by (metis prod.collapse)
  have n: "(5 :: nat) + 9 < 2 ^ 64" by simp
  from writers_frame_layout [OF n, THEN conjunct1, rule_format, OF conjI, OF W]
  have 1: "file_contents (snd ?W) ?f = Some boolean_frame"
    by (simp add: boolean_frame_def)
  from writers_frame_layout [OF n, THEN conjunct2, rule_format, OF conjI, OF L]
  have 2: "file_contents (snd ?L) ?f = Some (boolean_frame @ [0])"
    by (simp add: boolean_frame_def)
  from 1 2 show ?thesis by (intro conjI)
qed

end
